(* ===== verification/Prelude.thy ===== *)
theory Prelude
  imports Main "HOL-Library.Word"
begin

text \<open>
  Shared vocabulary of the development: the machine types the Go code uses
  (\<open>uint16\<close> resource-record types, \<open>uint32\<close> TTLs, IPv4 addresses as
  32-bit words), the character classes the string scanners test, the
  collection \<open>views_simps\<close> that component theories fill with the
  characteristic equations of their operations, and generic lemmas on lists
  and maps that the loops of \<open>loadConfig\<close> need (a loop of map updates keeps
  the last write for a key).
\<close>

named_theorems views_simps "characteristic equations of the operations of the views model"

type_synonym u16 = "16 word"
type_synonym u32 = "32 word"
type_synonym ipv4addr = "32 word"

abbreviation dot :: char where
  "dot \<equiv> CHR ''.''"

abbreviation backslash :: char where
  "backslash \<equiv> CHR 0x5C"

abbreviation colon :: char where
  "colon \<equiv> CHR '':''"

abbreviation slash :: char where
  "slash \<equiv> CHR ''/''"

text \<open>Go's \<open>'0' <= c && c <= '9'\<close> and the value \<open>int(c - '0')\<close> of a digit.\<close>

definition is_digit :: "char \<Rightarrow> bool" where
  "is_digit c \<longleftrightarrow> 48 \<le> (of_char c :: nat) \<and> (of_char c :: nat) \<le> 57"

definition digit_val :: "char \<Rightarrow> nat" where
  "digit_val c = of_char c - 48"

text \<open>The decimal value of a string of digits, read left to right as Go's
  \<open>n = n*10 + int(c - '0')\<close> loops do.\<close>

definition dec_step :: "nat \<Rightarrow> char \<Rightarrow> nat" where
  "dec_step n c = n * 10 + digit_val c"

definition digits_value :: "string \<Rightarrow> nat" where
  "digits_value s = foldl dec_step 0 s"

lemma foldl_dec_step_ge: "n \<le> foldl dec_step n ds"
proof (induction ds arbitrary: n)
  case (Cons d ds)
  have "n \<le> dec_step n d" by (simp add: dec_step_def)
  also have "\<dots> \<le> foldl dec_step (dec_step n d) ds" by (rule Cons.IH)
  finally show ?case by simp
qed simp

text \<open>\<open>strings.HasPrefix\<close> and \<open>strings.HasSuffix\<close>.\<close>

definition has_prefix :: "string \<Rightarrow> string \<Rightarrow> bool" where
  "has_prefix s p \<longleftrightarrow> take (length p) s = p"

definition has_suffix :: "string \<Rightarrow> string \<Rightarrow> bool" where
  "has_suffix s p \<longleftrightarrow> length p \<le> length s \<and> drop (length s - length p) s = p"

text \<open>The last element of a list with a given key, if any: what a loop of map
  writes leaves behind for that key.\<close>

definition last_with :: "('a \<Rightarrow> 'k) \<Rightarrow> 'k \<Rightarrow> 'a list \<Rightarrow> 'a option" where
  "last_with key k xs = find (\<lambda>x. key x = k) (rev xs)"

lemma last_with_Nil [simp]: "last_with key k [] = None"
  by (simp add: last_with_def)

lemma last_with_snoc [simp]:
  "last_with key k (xs @ [x]) = (if key x = k then Some x else last_with key k xs)"
  by (simp add: last_with_def)

lemma last_with_None_iff: "last_with key k xs = None \<longleftrightarrow> k \<notin> key ` set xs"
  by (auto simp add: last_with_def find_None_iff)

lemma find_Some_in: "find P xs = Some x \<Longrightarrow> x \<in> set xs \<and> P x"
  by (induction xs) (auto split: if_splits)

lemma last_with_Some_in: "last_with key k xs = Some x \<Longrightarrow> x \<in> set xs \<and> key x = k"
  unfolding last_with_def by (auto dest: find_Some_in)

lemma last_with_append_later:
  "k \<in> key ` set ys \<Longrightarrow> last_with key k (xs @ ys) = last_with key k ys"
proof (induction ys rule: rev_induct)
  case Nil
  then show ?case by simp
next
  case (snoc y ys)
  then show ?case
    by (cases "key y = k") (simp_all add: append_assoc [symmetric] del: append_assoc)
qed

lemma in_set_map_filter: "y \<in> set (List.map_filter f xs) \<longleftrightarrow> (\<exists>x \<in> set xs. f x = Some y)"
  by (induction xs) (auto split: option.splits)

lemma last_with_append_none:
  "k \<notin> key ` set zs \<Longrightarrow> last_with key k (ws @ zs) = last_with key k ws"
proof (induction zs rule: rev_induct)
  case (snoc z zs)
  then show ?case by (auto simp add: append_assoc [symmetric] simp del: append_assoc)
qed simp

lemma last_with_last:
  assumes "key y = k" and "\<forall>z \<in> set zs. key z \<noteq> k"
  shows "last_with key k (xs @ y # zs) = Some y"
proof -
  have "last_with key k ((xs @ [y]) @ zs) = last_with key k (xs @ [y])"
    using assms(2) by (intro last_with_append_none) auto
  then show ?thesis using assms(1) by simp
qed

lemma last_with_later:
  "key y = k \<Longrightarrow> \<forall>z \<in> set zs. key z \<noteq> k \<Longrightarrow> last_with key k (xs @ x # ys @ y # zs) = Some y"
  using last_with_last [of key y k zs "xs @ x # ys"] by simp

text \<open>A loop that writes \<open>m[key x] = f x\<close> for every element, in order.\<close>

lemma fold_map_upd_lookup:
  "fold (\<lambda>x m. m(key x \<mapsto> f x)) xs m k =
     (case last_with key k xs of None \<Rightarrow> m k | Some x \<Rightarrow> Some (f x))"
proof (induction xs arbitrary: m rule: rev_induct)
  case Nil
  then show ?case by simp
next
  case (snoc x xs)
  then show ?case by simp
qed

lemma fold_map_upd_dom:
  "dom (fold (\<lambda>x m. m(key x \<mapsto> f x)) xs m) = dom m \<union> key ` set xs"
  by (induction xs arbitrary: m) auto


lemma take_eq_nth: "take n xs = p \<Longrightarrow> i < length p \<Longrightarrow> xs ! i = p ! i"
  by (metis length_take min_less_iff_conj nth_take)

text \<open>Unfolding a literal \<open>replicate\<close>, for evaluation by \<open>simp\<close>.\<close>

lemma replicate_numeral: "replicate (numeral k) x = x # replicate (pred_numeral k) x"
  by (simp add: numeral_eq_Suc)

end
