(* ===== verification/Cidr.thy ===== *)
theory Cidr
  imports Prelude "HOL-Library.While_Combinator"
begin

unbundle bit_operations_syntax

text \<open>
  The IPv4 text scanners of Go's standard library (Go 1.17 to 1.21) that
  \<open>net.ParseCIDR\<close> uses when \<open>loadConfig\<close> (src/setup.go, line 187) reads
  a prefix: \<open>dtoi\<close> reads a decimal prefix of a string, saturating at
  \<open>big = 0xFFFFFF\<close>; \<open>parseIPv4\<close> reads four dot-separated decimal fields of
  at most 255, rejecting leading zeros; \<open>CIDRMask(n, 32)\<close>. The printer of a
  prefix gives the round trip. \<open>ParseCIDR\<close> itself, with its IPv6 branch
  (theory \<open>Ipv6\<close>), and \<open>Contains\<close> are in theory \<open>Prefix\<close>.
\<close>

subsection \<open>\<open>dtoi\<close>\<close>

definition big :: nat where
  "big = 16777215"

fun dtoi_loop :: "nat \<Rightarrow> nat \<Rightarrow> string \<Rightarrow> nat \<times> nat \<times> bool" where
  "dtoi_loop n i [] = (if i = 0 then (0, 0, False) else (n, i, True))"
| "dtoi_loop n i (c # cs) =
     (if is_digit c then
        (let n' = dec_step n c in
         if big \<le> n' then (big, i, False) else dtoi_loop n' (Suc i) cs)
      else if i = 0 then (0, 0, False) else (n, i, True))"

definition dtoi :: "string \<Rightarrow> nat \<times> nat \<times> bool" where
  "dtoi s = dtoi_loop 0 0 s"

text \<open>The same function as Go writes it: an index loop
  \<open>for i = 0; i < len(s) && '0' <= s[i] && s[i] <= '9'; i++\<close> with an early
  \<open>return big, i, false\<close>. The loop state is the accumulator, the index and
  the early result; \<open>dtoi_exit\<close> is the code after the loop. The loop is
  kept as a loop (\<open>while_option\<close>), so \<open>None\<close> would mean that it does
  not stop.\<close>

type_synonym dtoi_state = "nat \<times> nat \<times> (nat \<times> nat \<times> bool) option"

definition dtoi_cond :: "string \<Rightarrow> dtoi_state \<Rightarrow> bool" where
  "dtoi_cond s st = (case st of (n, i, r) \<Rightarrow> r = None \<and> i < length s \<and> is_digit (s ! i))"

definition dtoi_body :: "string \<Rightarrow> dtoi_state \<Rightarrow> dtoi_state" where
  "dtoi_body s st =
     (case st of (n, i, r) \<Rightarrow>
        let n' = n * 10 + digit_val (s ! i)
        in if big \<le> n' then (n, i, Some (big, i, False)) else (n', Suc i, None))"

definition dtoi_exit :: "dtoi_state \<Rightarrow> nat \<times> nat \<times> bool" where
  "dtoi_exit st =
     (case st of (n, i, Some res) \<Rightarrow> res
      | (n, i, None) \<Rightarrow> if i = 0 then (0, 0, False) else (n, i, True))"

definition dtoi_go :: "string \<Rightarrow> (nat \<times> nat \<times> bool) option" where
  "dtoi_go s = map_option dtoi_exit (while_option (dtoi_cond s) (dtoi_body s) (0, 0, None))"

text \<open>What the loop keeps: the rest of the scan computes \<open>dtoi\<close>.\<close>

definition dtoi_go_inv :: "string \<Rightarrow> dtoi_state \<Rightarrow> bool" where
  "dtoi_go_inv s st =
     (case st of (n, i, None) \<Rightarrow> i \<le> length s \<and> dtoi_loop n i (drop i s) = dtoi s
      | (n, i, Some res) \<Rightarrow> res = dtoi s)"


subsection \<open>\<open>parseIPv4\<close>\<close>

text \<open>The loop \<open>for i := 0; i < IPv4len; i++\<close> of \<open>parseIPv4\<close>, from
  field \<open>i\<close> on. It returns the fields read and the unread rest of the text.\<close>

function parse_fields :: "nat \<Rightarrow> string \<Rightarrow> (nat list \<times> string) option" where
  "parse_fields i s =
     (if 4 \<le> i then Some ([], s)
      else if s = [] then None
      else if 0 < i \<and> hd s \<noteq> dot then None
      else
        let s' = (if 0 < i then tl s else s);
            (n, c, ok) = dtoi s'
        in if \<not> ok \<or> 255 < n then None
           else if 1 < c \<and> hd s' = CHR ''0'' then None
           else map_option (\<lambda>(ns, r). (n # ns, r)) (parse_fields (Suc i) (drop c s')))"
  by pat_completeness auto
termination
  by (relation "measure (\<lambda>(i, s). 4 - i)") auto

declare parse_fields.simps [simp del]

definition word_of_octets :: "nat list \<Rightarrow> ipv4addr" where
  "word_of_octets ns = of_nat (foldl (\<lambda>acc n. acc * 256 + n) 0 ns)"

definition parse_ipv4 :: "string \<Rightarrow> ipv4addr option" where
  "parse_ipv4 s =
     (case parse_fields 0 s of
        None \<Rightarrow> None
      | Some (ns, r) \<Rightarrow> if r \<noteq> [] then None else Some (word_of_octets ns))"

subsection \<open>IPv4 networks and \<open>CIDRMask\<close>\<close>

record ipnet =
  net_ip :: ipv4addr
  net_mask :: ipv4addr

text \<open>\<open>CIDRMask(n, 32)\<close>: the first \<open>n\<close> bits set.\<close>

definition cidr_mask :: "nat \<Rightarrow> ipv4addr" where
  "cidr_mask n = NOT (mask (32 - n))"

subsection \<open>The canonical text of a prefix\<close>

text \<open>Decimal digits as Go's \<open>itoa\<close> prints them, an address in dotted
  decimal as \<open>IP.String\<close> prints an IPv4 address, and the text
  \<open>a.b.c.d/n\<close> of a prefix.\<close>

fun dec_string :: "nat \<Rightarrow> string" where
  "dec_string n =
     (if n < 10 then [char_of (48 + n)] else dec_string (n div 10) @ [char_of (48 + n mod 10)])"

declare dec_string.simps [simp del]

definition ipv4_string :: "ipv4addr \<Rightarrow> string" where
  "ipv4_string a =
     (let u = unat a in
      dec_string (u div 16777216) @ [dot] @ dec_string (u div 65536 mod 256) @ [dot] @
      dec_string (u div 256 mod 256) @ [dot] @ dec_string (u mod 256))"

definition cidr_string :: "ipv4addr \<Rightarrow> nat \<Rightarrow> string" where
  "cidr_string a n = ipv4_string a @ [slash] @ dec_string n"

subsection \<open>Parsing\<close>

lemma digit_char: "d < 10 \<Longrightarrow> is_digit (char_of (48 + d)) \<and> digit_val (char_of (48 + d)) = d"
  by (simp add: is_digit_def digit_val_def)

lemma dec_string_digits: "\<forall>c \<in> set (dec_string n). is_digit c"
proof (induction n rule: dec_string.induct)
  case (1 n)
  then show ?case by (subst dec_string.simps) (auto simp: digit_char)
qed

lemma dec_string_ne [simp]: "dec_string n \<noteq> []"
  by (subst dec_string.simps) simp

lemma foldl_dec_string:
  "foldl dec_step m (dec_string n) = m * 10 ^ length (dec_string n) + n"
proof (induction n arbitrary: m rule: dec_string.induct)
  case (1 n)
  show ?case
  proof (cases "n < 10")
    case True
    then show ?thesis by (subst (1 2) dec_string.simps) (simp add: dec_step_def digit_char)
  next
    case False
    then have "foldl dec_step m (dec_string n) =
        dec_step (foldl dec_step m (dec_string (n div 10))) (char_of (48 + n mod 10))"
      by (subst dec_string.simps) simp
    also have "\<dots> = foldl dec_step m (dec_string (n div 10)) * 10 + n mod 10"
      by (simp add: dec_step_def [of "foldl dec_step m (dec_string (n div 10))"] digit_char)
    also have "\<dots> = (m * 10 ^ length (dec_string (n div 10)) + n div 10) * 10 + n mod 10"
      using "1" False by simp
    also have "\<dots> = m * 10 ^ length (dec_string n) + n"
      using False by (subst (2) dec_string.simps) (simp add: algebra_simps)
    finally show ?thesis .
  qed
qed

lemma digits_value_dec_string: "digits_value (dec_string n) = n"
  by (simp add: digits_value_def foldl_dec_string)

lemma dec_string_hd_zero: "hd (dec_string n) = CHR ''0'' \<Longrightarrow> n = 0"
proof (induction n rule: dec_string.induct)
  case (1 n)
  show ?case
  proof (cases "n < 10")
    case True
    with "1.prems" have "char_of (48 + n) = CHR ''0''" by (subst (asm) dec_string.simps) simp
    then have "of_char (char_of (48 + n)) = (48::nat)" by simp
    with True show ?thesis by simp
  next
    case False
    with "1.prems" have "hd (dec_string (n div 10)) = CHR ''0''"
      by (subst (asm) dec_string.simps) simp
    with "1.IH" False have "n div 10 = 0" by simp
    with False show ?thesis by simp
  qed
qed

lemma dec_string_zero: "dec_string 0 = [CHR ''0'']"
  by (simp add: dec_string.simps char_of_eq_iff)

lemma dtoi_loop_digits:
  assumes "\<forall>c \<in> set ds. is_digit c" and "foldl dec_step n ds < big"
    and "rest = [] \<or> \<not> is_digit (hd rest)" and "0 < i + length ds"
  shows "dtoi_loop n i (ds @ rest) = (foldl dec_step n ds, i + length ds, True)"
  using assms
proof (induction ds arbitrary: n i)
  case Nil
  then show ?case by (cases rest) auto
next
  case (Cons d ds)
  have "dec_step n d \<le> foldl dec_step (dec_step n d) ds" by (rule foldl_dec_step_ge)
  with Cons.prems(2) have small: "\<not> big \<le> dec_step n d" by simp
  have "dtoi_loop (dec_step n d) (Suc i) (ds @ rest) =
      (foldl dec_step (dec_step n d) ds, Suc i + length ds, True)"
    using Cons.prems by (intro Cons.IH) auto
  with Cons.prems(1) small show ?case by simp
qed

lemma dtoi_dec_string:
  assumes "n < big" and "rest = [] \<or> \<not> is_digit (hd rest)"
  shows "dtoi (dec_string n @ rest) = (n, length (dec_string n), True)"
proof -
  have "dtoi_loop 0 0 (dec_string n @ rest) =
      (foldl dec_step 0 (dec_string n), 0 + length (dec_string n), True)"
    using assms dec_string_digits [of n] foldl_dec_string [of 0 n]
    by (intro dtoi_loop_digits) auto
  then show ?thesis by (simp add: dtoi_def foldl_dec_string)
qed


lemma dot_not_digit [simp]: "\<not> is_digit dot" and slash_not_digit [simp]: "\<not> is_digit slash"
  by (simp_all add: is_digit_def)

lemma parse_fields_field:
  assumes "i < 4" and "k \<le> 255" and "rest = [] \<or> hd rest = dot"
  shows "parse_fields i ((if 0 < i then [dot] else []) @ dec_string k @ rest) =
           map_option (\<lambda>(ns, r). (k # ns, r)) (parse_fields (Suc i) rest)"
proof -
  let ?s' = "dec_string k @ rest"
  have "k < big" using assms(2) by (simp add: big_def)
  with assms(3) have d: "dtoi ?s' = (k, length (dec_string k), True)"
    by (intro dtoi_dec_string) auto
  have lz: "\<not> (1 < length (dec_string k) \<and> hd ?s' = CHR ''0'')"
    using dec_string_hd_zero [of k] by (auto simp: dec_string_zero)
  show ?thesis
    using assms(1,2) d lz by (subst parse_fields.simps) (auto simp add: Let_def)
qed

lemma octets_recompose:
  fixes u :: nat
  shows "((u div 16777216 * 256 + u div 65536 mod 256) * 256 + u div 256 mod 256) * 256 + u mod 256 = u"
proof -
  have "u div 16777216 * 256 + u div 65536 mod 256 = u div 65536"
    using div_mult_mod_eq [of "u div 65536" 256] by (simp add: div_mult2_eq [symmetric])
  moreover have "u div 65536 * 256 + u div 256 mod 256 = u div 256"
    using div_mult_mod_eq [of "u div 256" 256] by (simp add: div_mult2_eq [symmetric])
  moreover have "u div 256 * 256 + u mod 256 = u"
    by (rule div_mult_mod_eq)
  ultimately show ?thesis by simp
qed

lemma parse_fields_four: "4 \<le> i \<Longrightarrow> parse_fields i s = Some ([], s)"
  by (simp add: parse_fields.simps)

lemma parse_ipv4_string: "parse_ipv4 (ipv4_string a) = Some a"
proof -
  let ?u = "unat a"
  let ?d1 = "?u div 16777216" and ?d2 = "?u div 65536 mod 256"
    and ?d3 = "?u div 256 mod 256" and ?d4 = "?u mod 256"
  have u: "?u < 4294967296" using unsigned_less [of a] by simp
  then have b1: "?d1 \<le> 255" by linarith
  have f4: "parse_fields 3 ([dot] @ dec_string ?d4 @ []) = Some ([?d4], [])"
    using parse_fields_field [of 3 ?d4 "[]"] parse_fields_four by (simp add: numeral_3_eq_3)
  have f3: "parse_fields 2 ([dot] @ dec_string ?d3 @ ([dot] @ dec_string ?d4)) = Some ([?d3, ?d4], [])"
    using parse_fields_field [of 2 ?d3 "[dot] @ dec_string ?d4"] f4
    by (simp add: numeral_2_eq_2 numeral_3_eq_3)
  have f2: "parse_fields 1 ([dot] @ dec_string ?d2 @ ([dot] @ dec_string ?d3 @ [dot] @ dec_string ?d4)) =
      Some ([?d2, ?d3, ?d4], [])"
    using parse_fields_field [of 1 ?d2 "[dot] @ dec_string ?d3 @ [dot] @ dec_string ?d4"] f3
    by (simp add: numeral_2_eq_2)
  have f1: "parse_fields 0 (dec_string ?d1 @ ([dot] @ dec_string ?d2 @ [dot] @ dec_string ?d3 @ [dot] @ dec_string ?d4)) =
      Some ([?d1, ?d2, ?d3, ?d4], [])"
    using parse_fields_field [of 0 ?d1 "[dot] @ dec_string ?d2 @ [dot] @ dec_string ?d3 @ [dot] @ dec_string ?d4"] f2 b1
    by simp
  have "word_of_octets [?d1, ?d2, ?d3, ?d4] = a"
    using octets_recompose [of ?u] by (simp add: word_of_octets_def)
  with f1 show ?thesis by (simp add: parse_ipv4_def ipv4_string_def Let_def)
qed


lemma ipv4_string_chars: "\<forall>c \<in> set (ipv4_string a). is_digit c \<or> c = dot"
  using dec_string_digits by (auto simp: ipv4_string_def Let_def)

lemma slash_notin_ipv4_string: "slash \<notin> set (ipv4_string a)"
  using ipv4_string_chars [of a] by (auto simp: is_digit_def)

lemma and_not_mask_eq_iff:
  fixes x y :: "'a::len word"
  shows "x AND NOT (mask k) = y AND NOT (mask k) \<longleftrightarrow> drop_bit k x = drop_bit k y"
proof -
  have "x AND NOT (mask k) = y AND NOT (mask k) \<longleftrightarrow> (\<forall>i. k \<le> i \<longrightarrow> bit x i = bit y i)"
    by (auto simp: bit_eq_iff bit_and_iff bit_not_iff bit_mask_iff)
      (metis bit_imp_le_length linorder_not_le)+
  also have "\<dots> \<longleftrightarrow> (\<forall>j. bit x (k + j) = bit y (k + j))"
    by (metis le_add1 le_add_diff_inverse)
  also have "\<dots> \<longleftrightarrow> drop_bit k x = drop_bit k y"
    by (auto simp: bit_eq_iff bit_drop_bit_eq)
      (metis bit_imp_le_length add_lessD1 add.commute)+
  finally show ?thesis .
qed

lemma cidr_mask_0 [simp]: "cidr_mask 0 = 0"
  by (simp add: cidr_mask_def mask_eq_exp_minus_1)

subsection \<open>Go's digit loop\<close>

lemma dtoi_while_Some: "\<exists>t. while_option (dtoi_cond s) (dtoi_body s) (0, 0, None) = Some t"
  by (rule measure_while_option_Some [where P = "\<lambda>_. True"
        and f = "\<lambda>(n, i, r). (if r = None then 1 else 0) + (length s - i)"])
     (auto simp: dtoi_cond_def dtoi_body_def Let_def split: prod.splits)

text \<open>The digit loop of \<open>dtoi\<close>, as Go writes it,
  stops on every input.\<close>

theorem dtoi_go_terminates: "\<exists>r. dtoi_go s = Some r"
proof -
  obtain t where "while_option (dtoi_cond s) (dtoi_body s) (0, 0, None) = Some t"
    using dtoi_while_Some by blast
  then show ?thesis by (simp add: dtoi_go_def prod_eq_iff)
qed



subsection \<open>Evaluation on concrete text\<close>

text \<open>One unfolding of the field loop for a field index below four, so that
  \<open>simp\<close> runs \<open>parseIPv4\<close> on a literal without unfolding the loop past
  its bound.\<close>

lemma parse_fields_less:
  "i < 4 \<Longrightarrow> parse_fields i s =
     (if s = [] then None
      else if 0 < i \<and> hd s \<noteq> dot then None
      else
        let s' = (if 0 < i then tl s else s);
            (n, c, ok) = dtoi s'
        in if \<not> ok \<or> 255 < n then None
           else if 1 < c \<and> hd s' = CHR ''0'' then None
           else map_option (\<lambda>(ns, r). (n # ns, r)) (parse_fields (Suc i) (drop c s')))"
  by (subst parse_fields.simps) simp

lemmas ipv4_eval = parse_ipv4_def parse_fields_less parse_fields_four
  dtoi_def word_of_octets_def big_def is_digit_def digit_val_def dec_step_def
  cidr_mask_def mask_eq_exp_minus_1

end
