(* ===== verification/Ipv6.thy ===== *)
theory Ipv6
  imports Cidr
begin

unbundle bit_operations_syntax

text \<open>
  The IPv6 branch of Go's \<open>net.ParseCIDR\<close> (Go 1.17 to 1.21): when the
  address part is not IPv4 text, \<open>parseIPv6\<close> reads it. \<open>xtoi\<close> reads a
  hexadecimal prefix of a string (giving up at \<open>big\<close>); the loop of
  \<open>parseIPv6\<close> reads 16-bit groups separated by colons, at most one
  \<open>::\<close> ellipsis, and possibly a final dotted IPv4 address, filling a
  16-byte array; after the loop the bytes read after the ellipsis are moved to
  the end and the gap is zeroed. The model keeps the byte array as the list of
  bytes read so far (its length is Go's index \<open>i\<close>), the ellipsis position
  as an option (Go's \<open>-1\<close> is \<open>None\<close>), and the unread text.
\<close>

subsection \<open>\<open>xtoi\<close>\<close>

definition hex_val :: "char \<Rightarrow> nat option" where
  "hex_val c =
     (let k = (of_char c :: nat) in
      if 48 \<le> k \<and> k \<le> 57 then Some (k - 48)
      else if 97 \<le> k \<and> k \<le> 102 then Some (k - 87)
      else if 65 \<le> k \<and> k \<le> 70 then Some (k - 55)
      else None)"

fun xtoi_loop :: "nat \<Rightarrow> nat \<Rightarrow> string \<Rightarrow> nat \<times> nat \<times> bool" where
  "xtoi_loop n i [] = (if i = 0 then (0, i, False) else (n, i, True))"
| "xtoi_loop n i (c # cs) =
     (case hex_val c of
        None \<Rightarrow> if i = 0 then (0, i, False) else (n, i, True)
      | Some d \<Rightarrow>
          (let n' = n * 16 + d in
           if big \<le> n' then (0, i, False) else xtoi_loop n' (Suc i) cs))"

definition xtoi :: "string \<Rightarrow> nat \<times> nat \<times> bool" where
  "xtoi s = xtoi_loop 0 0 s"

subsection \<open>\<open>parseIPv6\<close>\<close>

text \<open>The four bytes \<open>ip4[12..15]\<close> of a parsed IPv4 address.\<close>

definition ipv4_octets :: "ipv4addr \<Rightarrow> nat list" where
  "ipv4_octets a =
     (let u = unat a in [u div 16777216, u div 65536 mod 256, u div 256 mod 256, u mod 256])"

text \<open>The loop \<open>for i < IPv6len\<close>: one hexadecimal group per round, or the
  final IPv4 part, then \<open>:\<close> and possibly the ellipsis. It returns the bytes,
  the ellipsis position and the unread text at the \<open>break\<close> or when the
  array is full, \<open>None\<close> where Go returns \<open>nil\<close>.\<close>

function ipv6_groups ::
  "nat list \<Rightarrow> nat option \<Rightarrow> string \<Rightarrow> (nat list \<times> nat option \<times> string) option" where
  "ipv6_groups bs ell s =
     (if 16 \<le> length bs then Some (bs, ell, s)
      else
        let (n, c, ok) = xtoi s
        in if \<not> ok \<or> 65535 < n then None
           else if c < length s \<and> s ! c = dot then
             (if ell = None \<and> length bs \<noteq> 12 then None
              else if 16 < length bs + 4 then None
              else (case parse_ipv4 s of
                      None \<Rightarrow> None
                    | Some a \<Rightarrow> Some (bs @ ipv4_octets a, ell, [])))
           else
             let bs' = bs @ [n div 256, n mod 256]; s' = drop c s
             in if s' = [] then Some (bs', ell, [])
                else if hd s' \<noteq> colon \<or> length s' = 1 then None
                else
                  let s'' = tl s'
                  in if hd s'' = colon then
                       (if ell \<noteq> None then None
                        else if tl s'' = [] then Some (bs', Some (length bs'), [])
                        else ipv6_groups bs' (Some (length bs')) (tl s''))
                     else ipv6_groups bs' ell s'')"
  by pat_completeness auto
termination
  by (relation "measure (\<lambda>(bs, ell, s). 16 - length bs)") auto

declare ipv6_groups.simps [simp del]

text \<open>After the loop: the whole text must be used; fewer than 16 bytes need
  an ellipsis, which is expanded into zero bytes; 16 bytes allow none.\<close>

definition ipv6_finish :: "(nat list \<times> nat option \<times> string) option \<Rightarrow> nat list option" where
  "ipv6_finish r =
     (case r of
        None \<Rightarrow> None
      | Some (bs, ell, rest) \<Rightarrow>
          if rest \<noteq> [] then None
          else if length bs < 16 then
            (case ell of
               None \<Rightarrow> None
             | Some e \<Rightarrow> Some (take e bs @ replicate (16 - length bs) 0 @ drop e bs))
          else if ell \<noteq> None then None
          else Some bs)"

definition parse_ipv6 :: "string \<Rightarrow> nat list option" where
  "parse_ipv6 s =
     (if 2 \<le> length s \<and> s ! 0 = colon \<and> s ! 1 = colon then
        (if drop 2 s = [] then Some (replicate 16 0)
         else ipv6_finish (ipv6_groups [] (Some 0) (drop 2 s)))
      else ipv6_finish (ipv6_groups [] None s))"

subsection \<open>128-bit addresses and masks\<close>

definition word_of_bytes :: "nat list \<Rightarrow> 128 word" where
  "word_of_bytes bs = of_nat (foldl (\<lambda>acc b. acc * 256 + b) 0 bs)"

record ipnet6 =
  net6_ip :: "128 word"
  net6_mask :: "128 word"

text \<open>\<open>CIDRMask(n, 128)\<close>.\<close>

definition cidr_mask6 :: "nat \<Rightarrow> 128 word" where
  "cidr_mask6 n = NOT (mask (128 - n))"

subsection \<open>Lemmas\<close>

lemma ipv6_groups_full: "16 \<le> length bs \<Longrightarrow> ipv6_groups bs ell s = Some (bs, ell, s)"
  by (subst ipv6_groups.simps) simp

text \<open>One round of the loop, for evaluation on literal text.\<close>

lemma ipv6_groups_less:
  "length bs < 16 \<Longrightarrow> ipv6_groups bs ell s =
     (let (n, c, ok) = xtoi s
      in if \<not> ok \<or> 65535 < n then None
         else if c < length s \<and> s ! c = dot then
           (if ell = None \<and> length bs \<noteq> 12 then None
            else if 16 < length bs + 4 then None
            else (case parse_ipv4 s of
                    None \<Rightarrow> None
                  | Some a \<Rightarrow> Some (bs @ ipv4_octets a, ell, [])))
         else
           let bs' = bs @ [n div 256, n mod 256]; s' = drop c s
           in if s' = [] then Some (bs', ell, [])
              else if hd s' \<noteq> colon \<or> length s' = 1 then None
              else
                let s'' = tl s'
                in if hd s'' = colon then
                     (if ell \<noteq> None then None
                      else if tl s'' = [] then Some (bs', Some (length bs'), [])
                      else ipv6_groups bs' (Some (length bs')) (tl s''))
                   else ipv6_groups bs' ell s'')"
  by (subst ipv6_groups.simps) simp

lemma cidr_mask6_0 [simp]: "cidr_mask6 0 = 0"
  by (simp add: cidr_mask6_def mask_eq_exp_minus_1)

lemmas ipv6_eval = parse_ipv6_def ipv6_finish_def ipv6_groups_less ipv6_groups_full xtoi_def
  hex_val_def ipv4_octets_def word_of_bytes_def cidr_mask6_def mask_eq_exp_minus_1 big_def Let_def
  replicate_numeral

subsection \<open>The bytes of a parsed address\<close>

text \<open>One round of the loop either ends it with an IPv4 part or a last group,
  or reads a group and goes on; every group is at most \<open>0xFFFF\<close>.\<close>

lemma ipv4_octets_bytes: "length (ipv4_octets a) = 4 \<and> (\<forall>b \<in> set (ipv4_octets a). b < 256)"
proof -
  have "unat a < 4294967296" using unsigned_less [of a] by simp
  then show ?thesis by (simp add: ipv4_octets_def Let_def)
qed

lemma ipv6_groups_round:
  assumes "length bs < 16" "ipv6_groups bs ell s = Some res" "xtoi s = (n, c, ok)"
  shows "n \<le> 65535 \<and>
         ((\<exists>a. res = (bs @ ipv4_octets a, ell, []) \<and> length bs + 4 \<le> 16) \<or>
          (\<exists>ell'. res = (bs @ [n div 256, n mod 256], ell', [])) \<or>
          (\<exists>ell' s'. ipv6_groups (bs @ [n div 256, n mod 256]) ell' s' = Some res))"
  using assms by (auto simp: ipv6_groups_less Let_def split: if_splits option.splits)

lemma ipv6_groups_bytes:
  "ipv6_groups bs ell s = Some (bs', ell', r) \<Longrightarrow> even (length bs) \<Longrightarrow> length bs \<le> 16 \<Longrightarrow>
   \<forall>b \<in> set bs. b < 256 \<Longrightarrow>
   even (length bs') \<and> length bs' \<le> 16 \<and> (\<forall>b \<in> set bs'. b < 256)"
proof (induction "16 - length bs" arbitrary: bs ell s rule: less_induct)
  case less
  show ?case
  proof (cases "16 \<le> length bs")
    case True
    with less.prems show ?thesis by (simp add: ipv6_groups_full)
  next
    case False
    then have le: "length bs \<le> 14" using less.prems(2) by presburger
    obtain n c ok where x: "xtoi s = (n, c, ok)" by (cases "xtoi s") auto
    have n: "n div 256 < 256" if "n \<le> 65535" using that by simp
    from ipv6_groups_round [OF _ less.prems(1) x] False
    consider (v4) a where "(bs', ell', r) = (bs @ ipv4_octets a, ell, [])" "length bs + 4 \<le> 16" "n \<le> 65535"
      | (last) e where "(bs', ell', r) = (bs @ [n div 256, n mod 256], e, [])" "n \<le> 65535"
      | (more) e s' where "ipv6_groups (bs @ [n div 256, n mod 256]) e s' = Some (bs', ell', r)" "n \<le> 65535"
      by force
    then show ?thesis
    proof cases
      case v4
      then show ?thesis using less.prems ipv4_octets_bytes [of a] by auto
    next
      case last
      then show ?thesis using less.prems le n by auto
    next
      case more
      show ?thesis
        by (rule less.hyps [OF _ more(1)]) (use less.prems le n more(2) in auto)
    qed
  qed
qed

lemma foldl_bytes_less:
  fixes bs :: "nat list"
  shows "\<forall>b \<in> set bs. b < 256 \<Longrightarrow> acc < 256 ^ k \<Longrightarrow>
   foldl (\<lambda>acc b. acc * 256 + b) acc bs < 256 ^ (k + length bs)"
proof (induction bs arbitrary: acc k)
  case Nil
  then show ?case by simp
next
  case (Cons b bs)
  have "acc * 256 + b < 256 ^ Suc k"
  proof -
    have "acc * 256 + b < acc * 256 + 256" using Cons.prems(1) by simp
    also have "\<dots> \<le> 256 ^ k * 256" using Cons.prems(2) by simp
    finally show ?thesis by simp
  qed
  with Cons.IH [of "acc * 256 + b" "Suc k"] Cons.prems(1) show ?case by simp
qed

lemma parse_ipv6_bytes:
  "parse_ipv6 s = Some bs \<Longrightarrow> length bs = 16 \<and> (\<forall>b \<in> set bs. b < 256)"
proof -
  have fin: "length bs = 16 \<and> (\<forall>b \<in> set bs. b < 256)"
    if "ipv6_finish (ipv6_groups [] e t) = Some bs" for e t
  proof -
    from that obtain bs' ell' where g: "ipv6_groups [] e t = Some (bs', ell', [])"
      and f: "ipv6_finish (Some (bs', ell', [])) = Some bs"
      by (auto simp: ipv6_finish_def split: option.splits prod.splits if_splits)
    from ipv6_groups_bytes [OF g] have "length bs' \<le> 16" "\<forall>b \<in> set bs'. b < 256" by simp_all
    with f show ?thesis
      by (auto simp: ipv6_finish_def split: option.splits if_splits) (blast dest: in_set_takeD in_set_dropD)+
  qed
  assume "parse_ipv6 s = Some bs"
  then show ?thesis using fin by (auto simp: parse_ipv6_def split: if_splits)
qed
text \<open>C26: whatever IPv6 text \<open>parseIPv6\<close> accepts, the
  loop and the ellipsis expansion fill exactly the 16 bytes of the address,
  each below 256, so the 128-bit address read from them does not wrap: its
  value is the big-endian number of the bytes.\<close>

theorem parse_ipv6_word:
  assumes "parse_ipv6 s = Some bs"
  shows "length bs = 16 \<and> (\<forall>b \<in> set bs. b < 256) \<and>
         unat (word_of_bytes bs) = foldl (\<lambda>acc b. acc * 256 + b) 0 bs"
proof -
  have b: "length bs = 16" "\<forall>b \<in> set bs. b < 256" using parse_ipv6_bytes [OF assms] by simp_all
  then have "foldl (\<lambda>acc b. acc * 256 + b) 0 bs < 256 ^ (0 + 16)"
    using foldl_bytes_less [of bs 0 0] by simp
  then have "foldl (\<lambda>acc b. acc * 256 + b) 0 bs < 2 ^ LENGTH(128)" by simp
  with b show ?thesis by (simp add: word_of_bytes_def unsigned_of_nat take_bit_nat_eq_self)
qed

end
