(* ===== verification/Prefix.thy ===== *)
theory Prefix
  imports Ipv6
begin

unbundle bit_operations_syntax

text \<open>
  \<open>net.ParseCIDR\<close> as \<open>loadConfig\<close> calls it (src/setup.go, line 187) and
  \<open>(*net.IPNet).Contains\<close> as the query path applies it to an IPv4 client
  (Go 1.17 to 1.21). \<open>ParseCIDR\<close> splits at the first \<open>/\<close>, reads the
  address as IPv4 text, else as IPv6 text, reads the length with \<open>dtoi\<close>
  and masks the address: an IPv4 network keeps 4-byte address and mask
  (\<open>Net4\<close>), an IPv6 network 16-byte ones (\<open>Net6\<close>), even for an
  IPv4-mapped address such as \<open>::ffff:10.0.0.0\<close>. \<open>Contains\<close> first
  reduces the network's address with \<open>To4\<close>: an IPv4-mapped IPv6 network
  is compared with an IPv4 client on its last four bytes under the last four
  bytes of its mask; any other IPv6 network has the wrong length and contains
  no IPv4 client.
\<close>

datatype cidr_net = Net4 ipnet | Net6 ipnet6

definition index_byte :: "char \<Rightarrow> string \<Rightarrow> nat option" where
  "index_byte c s = (if c \<in> set s then Some (length (takeWhile (\<lambda>x. x \<noteq> c) s)) else None)"

definition parse_cidr :: "string \<Rightarrow> cidr_net option" where
  "parse_cidr s =
     (case index_byte slash s of
        None \<Rightarrow> None
      | Some i \<Rightarrow>
          let addr = take i s; msk = drop (Suc i) s;
              (n, j, ok) = dtoi msk
          in (case parse_ipv4 addr of
                Some a \<Rightarrow>
                  if \<not> ok \<or> j \<noteq> length msk \<or> 32 < n then None
                  else Some (Net4 \<lparr>net_ip = a AND cidr_mask n, net_mask = cidr_mask n\<rparr>)
              | None \<Rightarrow>
                  (case parse_ipv6 addr of
                     None \<Rightarrow> None
                   | Some bs \<Rightarrow>
                       if \<not> ok \<or> j \<noteq> length msk \<or> 128 < n then None
                       else Some (Net6 \<lparr>net6_ip = word_of_bytes bs AND cidr_mask6 n,
                                        net6_mask = cidr_mask6 n\<rparr>))))"

text \<open>\<open>IP.To4\<close> of a 16-byte address succeeds when its first ten bytes are
  zero and the next two are \<open>0xff\<close>.\<close>

definition v4_mapped :: "128 word \<Rightarrow> bool" where
  "v4_mapped w \<longleftrightarrow> drop_bit 32 w = 0xFFFF"

definition net_contains :: "cidr_net \<Rightarrow> ipv4addr \<Rightarrow> bool" where
  "net_contains net ip \<longleftrightarrow>
     (case net of
        Net4 n \<Rightarrow> net_ip n AND net_mask n = ip AND net_mask n
      | Net6 n \<Rightarrow>
          v4_mapped (net6_ip n) \<and>
          (ucast (net6_ip n) :: ipv4addr) AND ucast (net6_mask n) = ip AND ucast (net6_mask n))"

subsection \<open>Lemmas\<close>

lemma parse_cidr_string:
  assumes "n \<le> 32"
  shows "parse_cidr (cidr_string a n) =
           Some (Net4 \<lparr>net_ip = a AND cidr_mask n, net_mask = cidr_mask n\<rparr>)"
proof -
  have "\<forall>x \<in> set (ipv4_string a). x \<noteq> slash" using slash_notin_ipv4_string by blast
  then have i: "index_byte slash (cidr_string a n) = Some (length (ipv4_string a))"
    by (simp add: index_byte_def cidr_string_def takeWhile_append2)
  have "n < big" using assms by (simp add: big_def)
  then have "dtoi (dec_string n) = (n, length (dec_string n), True)"
    using dtoi_dec_string [of n "[]"] by simp
  with i assms show ?thesis
    by (simp add: parse_cidr_def cidr_string_def parse_ipv4_string)
qed

text \<open>What \<open>ParseCIDR\<close> returns is a masked address with its CIDR mask, of
  at most 32 bits for IPv4 text and at most 128 bits for IPv6 text.\<close>

lemma parse_cidr_shape:
  assumes "parse_cidr s = Some net"
  shows "(\<exists>a n. n \<le> 32 \<and> net = Net4 \<lparr>net_ip = a AND cidr_mask n, net_mask = cidr_mask n\<rparr>) \<or>
         (\<exists>b n. n \<le> 128 \<and> net = Net6 \<lparr>net6_ip = b AND cidr_mask6 n, net6_mask = cidr_mask6 n\<rparr>)"
proof -
  obtain i where i: "index_byte slash s = Some i"
    using assms by (auto simp: parse_cidr_def split: option.splits)
  obtain n j ok where d: "dtoi (drop (Suc i) s) = (n, j, ok)"
    by (cases "dtoi (drop (Suc i) s)") auto
  show ?thesis
  proof (cases "parse_ipv4 (take i s)")
    case (Some a)
    with assms i d have "n \<le> 32" and "net = Net4 \<lparr>net_ip = a AND cidr_mask n, net_mask = cidr_mask n\<rparr>"
      by (auto simp: parse_cidr_def Let_def split: if_splits)
    then show ?thesis by blast
  next
    case None
    with assms i d obtain bs where "parse_ipv6 (take i s) = Some bs"
      by (auto simp: parse_cidr_def Let_def split: option.splits)
    with None assms i d have "n \<le> 128" and
      "net = Net6 \<lparr>net6_ip = word_of_bytes bs AND cidr_mask6 n, net6_mask = cidr_mask6 n\<rparr>"
      by (auto simp: parse_cidr_def Let_def split: if_splits)
    then show ?thesis by blast
  qed
qed

lemma drop_bit_and_not_mask:
  "k \<le> m \<Longrightarrow> drop_bit m (b AND NOT (mask k) :: 'a::len word) = drop_bit m b"
  by (auto simp: bit_eq_iff bit_drop_bit_eq bit_and_iff bit_not_iff bit_mask_iff dest: bit_imp_le_length)

lemma v4_mapped_masked:
  assumes "n \<le> 128"
  shows "v4_mapped (b AND cidr_mask6 n) \<longleftrightarrow> 96 \<le> n \<and> v4_mapped b"
proof (cases "96 \<le> n")
  case True
  then have "drop_bit 32 (b AND NOT (mask (128 - n))) = drop_bit 32 b"
    by (intro drop_bit_and_not_mask) simp
  with True show ?thesis by (simp only: v4_mapped_def cidr_mask6_def) simp
next
  case False
  have "\<not> bit (b AND NOT (mask (128 - n))) 32" using False by (auto simp: bit_and_iff bit_not_iff bit_mask_iff)
  then have "\<not> bit (drop_bit 32 (b AND NOT (mask (128 - n)))) 0"
    by (simp only: bit_drop_bit_eq comp_def add_0_right not_False_eq_True)
  moreover have "bit (0xFFFF :: 128 word) 0" by simp
  ultimately have "drop_bit 32 (b AND NOT (mask (128 - n))) \<noteq> 0xFFFF" by metis
  with False show ?thesis by (simp add: v4_mapped_def cidr_mask6_def)
qed

lemma ucast_cidr_mask6:
  assumes "96 \<le> n" "n \<le> 128"
  shows "(ucast (cidr_mask6 n) :: ipv4addr) = NOT (mask (128 - n))"
  using assms by (auto simp: bit_eq_iff bit_ucast_iff cidr_mask6_def bit_not_iff bit_mask_iff)

lemma ucast_and_128:
  "(ucast (b AND c :: 128 word) :: ipv4addr) = ucast b AND ucast c"
  by (simp add: bit_eq_iff bit_ucast_iff bit_and_iff)

lemmas cidr_eval = ipv4_eval ipv6_eval parse_cidr_def index_byte_def net_contains_def v4_mapped_def

text \<open>C24: an IPv4 client is inside a parsed IPv4 prefix of
  length n exactly when its first n bits are those of the prefix's address.
  It is inside a parsed IPv6 prefix of length m only when the prefix is
  IPv4-mapped, and then m is at least 96 and the client's first m - 96 bits are
  those of the embedded IPv4 address: any other IPv6 prefix, even \<open>::/0\<close>,
  contains no IPv4 client.\<close>

theorem net_contains_prefix:
  "(net_contains (Net4 \<lparr>net_ip = a AND cidr_mask n, net_mask = cidr_mask n\<rparr>) x \<longleftrightarrow>
      drop_bit (32 - n) x = drop_bit (32 - n) a) \<and>
   (m \<le> 128 \<longrightarrow>
      (net_contains (Net6 \<lparr>net6_ip = b AND cidr_mask6 m, net6_mask = cidr_mask6 m\<rparr>) x \<longleftrightarrow>
         96 \<le> m \<and> v4_mapped b \<and> drop_bit (128 - m) x = drop_bit (128 - m) (ucast b)))"
proof (intro conjI impI)
  have "(a AND NOT (mask (32 - n))) AND NOT (mask (32 - n)) = a AND NOT (mask (32 - n))"
    by (simp add: and.assoc)
  then show "net_contains (Net4 \<lparr>net_ip = a AND cidr_mask n, net_mask = cidr_mask n\<rparr>) x \<longleftrightarrow>
      drop_bit (32 - n) x = drop_bit (32 - n) a"
    by (simp add: net_contains_def cidr_mask_def and_not_mask_eq_iff eq_commute)
next
  assume m: "m \<le> 128"
  show "net_contains (Net6 \<lparr>net6_ip = b AND cidr_mask6 m, net6_mask = cidr_mask6 m\<rparr>) x \<longleftrightarrow>
         96 \<le> m \<and> v4_mapped b \<and> drop_bit (128 - m) x = drop_bit (128 - m) (ucast b)"
  proof (cases "96 \<le> m")
    case True
    let ?k = "128 - m"
    have "((ucast b :: ipv4addr) AND NOT (mask ?k)) AND NOT (mask ?k) = ucast b AND NOT (mask ?k)"
      by (simp add: and.assoc)
    then show ?thesis using True m
      by (simp add: net_contains_def v4_mapped_masked ucast_and_128 ucast_cidr_mask6
          and_not_mask_eq_iff eq_commute)
  next
    case False
    then show ?thesis using m by (simp add: net_contains_def v4_mapped_masked)
  qed
qed


end
