(* ===== verification/Views.thy ===== *)
theory Views
  imports Prefix
begin

text \<open>
  The state the plugin keeps: the \<open>Views\<close> handler value that \<open>parse\<close>
  builds (src/setup.go, lines 86-133), that \<open>loadConfig\<close> refreshes
  (lines 182-236) and that the query path reads. Its field types are the ones
  the code fills in: the client and record source locators with their schemas,
  the reload interval (a Go \<open>time.Duration\<close>, signed nanoseconds), the list
  of client ACLs and the map from view name to its zones. The raw documents
  the sources deliver are the \<open>RawClientACL\<close> and \<open>RawRecord\<close> structs of
  lines 27-42. The handler's \<open>Next\<close> and \<open>Upstream\<close> fields are not read by
  the modelled code and are omitted.
\<close>

datatype schema = SchemaHTTP | SchemaYAML

record raw_client_acl =
  raw_acl_name :: string
  cidr_prefixes :: "string list"

record raw_zone_record =
  raw_rr_name :: string
  raw_ttl :: u32
  raw_type :: string
  raw_value :: string

record raw_record =
  raw_set_name :: string
  raw_records :: "raw_zone_record list"

record client_acl =
  acl_name :: string
  cidr_nets :: "cidr_net list"

record zone =
  zone_name :: string
  zone_ttl :: u32
  zone_type :: u16
  zone_value :: string

record zones =
  zone_names :: "string list"
  zone_map :: "string \<rightharpoonup> zone"

record views =
  client :: string
  client_schema :: schema
  record_source :: string
  record_schema :: schema
  reload_interval :: int
  client_acls :: "client_acl list"
  client_zones :: "string \<rightharpoonup> zones"

text \<open>The resource-record type codes of \<open>github.com/miekg/dns\<close>; the zero
  value of \<open>uint16\<close> (\<open>dns.TypeNone\<close>) marks a type the code did not
  recognise.\<close>

definition type_A :: u16 where "type_A = 1"
definition type_AAAA :: u16 where "type_AAAA = 28"
definition type_CNAME :: u16 where "type_CNAME = 5"
definition type_TXT :: u16 where "type_TXT = 16"
definition type_None :: u16 where "type_None = 0"

lemmas rr_type_codes = type_A_def type_AAAA_def type_CNAME_def type_TXT_def type_None_def

end
