(* ===== verification/Setup.thy ===== *)
theory Setup
  imports Views
begin

text \<open>
  Plugin setup (src/setup.go): \<open>schemaCheck\<close> (lines 290-297) classifies a
  source locator, and \<open>parse\<close> (lines 77-134) reads the plugin's block of
  the Corefile. The Corefile arrives as the caddy controller delivers it: one
  block per occurrence of the \<open>views\<close> directive (\<open>c.Next()\<close>), each a list
  of lines (\<open>c.NextBlock()\<close>), each line its first token (\<open>c.Val()\<close>) and
  the remaining tokens (\<open>c.RemainingArgs()\<close>). \<open>time.ParseDuration\<close> is a
  parameter \<open>pd\<close> here: it maps a token to a signed duration in nanoseconds,
  or to \<open>None\<close> on an error. The theory \<open>Duration\<close> models the library
  function, and \<open>parse (parse_duration fr)\<close> is the composition the code
  runs.

  Errors are values. A Go panic is one too: indexing
  \<open>c.RemainingArgs()[0]\<close> on a line without arguments panics with an index
  out of range, which the model records as \<open>Index_out_of_range\<close> rather
  than as an error the function returns.
\<close>

datatype setup_error =
    Unknown_schema string
  | Unknown_argument string
  | Missing_argument string
  | Duration_error string
  | Index_out_of_range

type_synonym corefile_line = "string \<times> string list"

definition default_reload_interval :: int where
  "default_reload_interval = 30 * 1000000000"

subsection \<open>\<open>schemaCheck\<close>\<close>

definition schema_check :: "string \<Rightarrow> setup_error + schema" where
  "schema_check str =
     (if has_prefix str ''http://'' \<or> has_prefix str ''https://'' then Inr SchemaHTTP
      else if has_suffix str ''.yaml'' \<or> has_suffix str ''.yml'' then Inr SchemaYAML
      else Inl (Unknown_schema str))"

subsection \<open>\<open>parse\<close>\<close>

text \<open>The local variables of \<open>parse\<close> while it reads the block: the client
  and record locators with their schemas (the empty string and \<open>None\<close> until
  a line sets them) and the handler value \<open>v\<close>, of which only the reload
  interval is written inside the loop.\<close>

record parse_state =
  ps_client :: string
  ps_client_schema :: "schema option"
  ps_record :: string
  ps_record_schema :: "schema option"
  ps_interval :: int

definition parse_init :: parse_state where
  "parse_init =
     \<lparr>ps_client = [], ps_client_schema = None, ps_record = [], ps_record_schema = None,
      ps_interval = default_reload_interval\<rparr>"

text \<open>One line of the block: the \<open>switch c.Val()\<close>.\<close>

fun parse_line ::
  "(string \<Rightarrow> int option) \<Rightarrow> parse_state \<Rightarrow> corefile_line \<Rightarrow> setup_error + parse_state" where
  "parse_line parse_duration st (key, args) =
     (if key = ''client'' then
        (case args of
           [] \<Rightarrow> Inl Index_out_of_range
         | a # _ \<Rightarrow>
             (case schema_check a of
                Inl e \<Rightarrow> Inl e
              | Inr sc \<Rightarrow> Inr (st\<lparr>ps_client := a, ps_client_schema := Some sc\<rparr>)))
      else if key = ''record'' then
        (case args of
           [] \<Rightarrow> Inl Index_out_of_range
         | a # _ \<Rightarrow>
             (case schema_check a of
                Inl e \<Rightarrow> Inl e
              | Inr sc \<Rightarrow> Inr (st\<lparr>ps_record := a, ps_record_schema := Some sc\<rparr>)))
      else if key = ''reload'' then
        (case args of
           [] \<Rightarrow> Inl Index_out_of_range
         | a # _ \<Rightarrow>
             (case parse_duration a of
                None \<Rightarrow> Inl (Duration_error a)
              | Some d \<Rightarrow> Inr (st\<lparr>ps_interval := d\<rparr>)))
      else Inl (Unknown_argument key))"

text \<open>The two nested loops \<open>for c.Next() { for c.NextBlock() { ... } }\<close>;
  the first error returns at once.\<close>

fun parse_lines ::
  "(string \<Rightarrow> int option) \<Rightarrow> parse_state \<Rightarrow> corefile_line list \<Rightarrow> setup_error + parse_state" where
  "parse_lines pd st [] = Inr st"
| "parse_lines pd st (l # ls) =
     (case parse_line pd st l of Inl e \<Rightarrow> Inl e | Inr st' \<Rightarrow> parse_lines pd st' ls)"

fun parse_blocks ::
  "(string \<Rightarrow> int option) \<Rightarrow> parse_state \<Rightarrow> corefile_line list list \<Rightarrow> setup_error + parse_state" where
  "parse_blocks pd st [] = Inr st"
| "parse_blocks pd st (b # bs) =
     (case parse_lines pd st b of Inl e \<Rightarrow> Inl e | Inr st' \<Rightarrow> parse_blocks pd st' bs)"

text \<open>After the loops: the required locators, then the handler. The check
  \<open>if err != nil\<close> after the loops never fires (every assignment of
  \<open>err\<close> is followed by a return on error, and the \<open>reload\<close> case declares
  its own \<open>err\<close>), so the model has no branch for it. The handler starts with
  no ACLs and no zones (Go's nil slice and nil map). A locator is set only
  together with its schema (\<open>parse_inv\<close>), so the schemas are present
  whenever both locators are.\<close>

definition parse :: "(string \<Rightarrow> int option) \<Rightarrow> corefile_line list list \<Rightarrow> setup_error + views" where
  "parse pd blocks =
     (case parse_blocks pd parse_init blocks of
        Inl e \<Rightarrow> Inl e
      | Inr st \<Rightarrow>
          if ps_client st = [] then Inl (Missing_argument ''client'')
          else if ps_record st = [] then Inl (Missing_argument ''record'')
          else
            Inr \<lparr>client = ps_client st, client_schema = the (ps_client_schema st),
                 record_source = ps_record st, record_schema = the (ps_record_schema st),
                 reload_interval = ps_interval st,
                 client_acls = [], client_zones = Map.empty\<rparr>)"

subsection \<open>Well-formedness of the parse state\<close>

text \<open>What the loop keeps true: a schema is recorded exactly when a locator
  was set, and it is the one \<open>schemaCheck\<close> gives for that locator.\<close>

definition parse_inv :: "parse_state \<Rightarrow> bool" where
  "parse_inv st \<longleftrightarrow>
     (case ps_client_schema st of
        None \<Rightarrow> ps_client st = [] | Some sc \<Rightarrow> schema_check (ps_client st) = Inr sc) \<and>
     (case ps_record_schema st of
        None \<Rightarrow> ps_record st = [] | Some sc \<Rightarrow> schema_check (ps_record st) = Inr sc)"

subsection \<open>Properties of \<open>parse\<close>\<close>

lemma parse_lines_append:
  "parse_lines pd st (xs @ ys) =
     (case parse_lines pd st xs of Inl e \<Rightarrow> Inl e | Inr st' \<Rightarrow> parse_lines pd st' ys)"
  by (induction xs arbitrary: st) (simp_all split: sum.split)

lemma parse_blocks_concat: "parse_blocks pd st bs = parse_lines pd st (concat bs)"
  by (induction bs arbitrary: st) (simp_all add: parse_lines_append split: sum.split)

lemma parse_lines_snoc_Inr:
  "parse_lines pd st (ls @ [l]) = Inr st'' \<longleftrightarrow>
     (\<exists>st'. parse_lines pd st ls = Inr st' \<and> parse_line pd st' l = Inr st'')"
  by (auto simp: parse_lines_append split: sum.splits)

text \<open>What one successful line changes.\<close>

lemma parse_line_Inr:
  assumes "parse_line pd st (k, args) = Inr st'"
  shows "args \<noteq> []"
    and "ps_client st' = (if k = ''client'' then hd args else ps_client st)"
    and "ps_client_schema st' =
           (if k = ''client'' then Some (projr (schema_check (hd args))) else ps_client_schema st)"
    and "ps_record st' = (if k = ''record'' then hd args else ps_record st)"
    and "ps_record_schema st' =
           (if k = ''record'' then Some (projr (schema_check (hd args))) else ps_record_schema st)"
    and "ps_interval st' = (if k = ''reload'' then the (pd (hd args)) else ps_interval st)"
    and "k = ''client'' \<or> k = ''record'' \<Longrightarrow> schema_check (hd args) = Inr (projr (schema_check (hd args)))"
  using assms by (auto split: if_splits list.splits sum.splits option.splits)


lemma parse_lines_last:
  "parse_lines pd st ls = Inr st' \<Longrightarrow>
     ps_client st' =
       (case last_with fst ''client'' ls of None \<Rightarrow> ps_client st | Some l \<Rightarrow> hd (snd l)) \<and>
     ps_record st' =
       (case last_with fst ''record'' ls of None \<Rightarrow> ps_record st | Some l \<Rightarrow> hd (snd l)) \<and>
     ps_interval st' =
       (case last_with fst ''reload'' ls of None \<Rightarrow> ps_interval st | Some l \<Rightarrow> the (pd (hd (snd l))))"
proof (induction ls arbitrary: st' rule: rev_induct)
  case Nil
  then show ?case by simp
next
  case (snoc l ls)
  obtain k args where l: "l = (k, args)" by (cases l)
  from snoc.prems obtain st1 where st1: "parse_lines pd st ls = Inr st1"
    and step: "parse_line pd st1 (k, args) = Inr st'"
    by (auto simp: parse_lines_snoc_Inr l)
  from snoc.IH [OF st1] parse_line_Inr [OF step] l show ?case by simp
qed


lemma parse_inv_init: "parse_inv parse_init"
  by (simp add: parse_inv_def parse_init_def)

lemma parse_line_inv:
  assumes "parse_inv st" and "parse_line pd st l = Inr st'"
  shows "parse_inv st'"
proof -
  obtain k args where l: "l = (k, args)" by (cases l)
  from assms show ?thesis
    unfolding l by (auto simp: parse_inv_def split: if_splits list.splits sum.splits option.splits)
qed

lemma parse_lines_inv: "parse_inv st \<Longrightarrow> parse_lines pd st ls = Inr st' \<Longrightarrow> parse_inv st'"
  by (induction ls arbitrary: st) (auto split: sum.splits intro: parse_line_inv)

lemma parse_Inr:
  assumes "parse pd bs = Inr v"
  obtains st where "parse_lines pd parse_init (concat bs) = Inr st" and "parse_inv st"
    and "ps_client st \<noteq> []" and "ps_record st \<noteq> []"
    and "v = \<lparr>client = ps_client st, client_schema = the (ps_client_schema st),
              record_source = ps_record st, record_schema = the (ps_record_schema st),
              reload_interval = ps_interval st, client_acls = [], client_zones = Map.empty\<rparr>"
proof -
  from assms obtain st where st: "parse_lines pd parse_init (concat bs) = Inr st"
    by (auto simp: parse_def parse_blocks_concat split: sum.splits)
  then have inv: "parse_inv st" using parse_inv_init parse_lines_inv by blast
  from assms st have "ps_client st \<noteq> []" and "ps_record st \<noteq> []"
    by (auto simp: parse_def parse_blocks_concat split: if_splits)
  moreover from assms st inv this have "v = \<lparr>client = ps_client st, client_schema = the (ps_client_schema st),
              record_source = ps_record st, record_schema = the (ps_record_schema st),
              reload_interval = ps_interval st, client_acls = [], client_zones = Map.empty\<rparr>"
    by (auto simp: parse_def parse_blocks_concat parse_inv_def split: option.splits)
  ultimately show ?thesis using that st inv by blast
qed

text \<open>An error on a line after lines that parsed is the error of \<open>parse\<close>.\<close>

lemma parse_stops_at_error:
  assumes "parse_lines pd parse_init (concat pre @ ls) = Inr st" and "parse_line pd st l = Inl e"
  shows "parse pd (pre @ (ls @ l # rest) # post) = Inl e"
proof -
  have c: "concat (pre @ (ls @ l # rest) # post) = (concat pre @ ls) @ l # (rest @ concat post)"
    by simp
  have "parse_lines pd parse_init ((concat pre @ ls) @ l # (rest @ concat post)) = Inl e"
    by (subst parse_lines_append) (simp add: assms)
  then show ?thesis by (simp add: parse_def parse_blocks_concat c)
qed

lemma schema_check_ne: "schema_check s = Inr sc \<Longrightarrow> s \<noteq> []"
  by (auto simp: schema_check_def has_prefix_def has_suffix_def)

text \<open>A locator line that parsed leaves a non-empty locator.\<close>

lemma parse_lines_locators_set:
  "parse_lines pd st ls = Inr st' \<Longrightarrow>
     (last_with fst ''client'' ls \<noteq> None \<longrightarrow> ps_client st' \<noteq> []) \<and>
     (last_with fst ''record'' ls \<noteq> None \<longrightarrow> ps_record st' \<noteq> [])"
proof (induction ls arbitrary: st' rule: rev_induct)
  case Nil
  then show ?case by simp
next
  case (snoc l ls)
  obtain k args where l: "l = (k, args)" by (cases l)
  from snoc.prems obtain st1 where st1: "parse_lines pd st ls = Inr st1"
    and step: "parse_line pd st1 (k, args) = Inr st'"
    by (auto simp: parse_lines_snoc_Inr l)
  from snoc.IH [OF st1] parse_line_Inr [OF step] l show ?case
    by (auto dest: schema_check_ne)
qed

text \<open>C31: a successful \<open>parse\<close> yields a handler whose
  client and record locators are ones \<open>schemaCheck\<close> accepts, with the schemas
  it returned for them, and whose ACL list and zone map are still empty.\<close>

theorem parse_wellformed:
  assumes "parse pd bs = Inr v"
  shows "schema_check (client v) = Inr (client_schema v) \<and>
         schema_check (record_source v) = Inr (record_schema v) \<and>
         client_acls v = [] \<and> client_zones v = Map.empty"
proof -
  obtain st where "parse_inv st" and "ps_client st \<noteq> []" and "ps_record st \<noteq> []"
    and v: "v = \<lparr>client = ps_client st, client_schema = the (ps_client_schema st),
              record_source = ps_record st, record_schema = the (ps_record_schema st),
              reload_interval = ps_interval st, client_acls = [], client_zones = Map.empty\<rparr>"
    using parse_Inr [OF assms] by metis
  then show ?thesis by (auto simp: parse_inv_def split: option.splits)
qed

text \<open>C32: in a successful \<open>parse\<close> the client and record
  locators come from the last \<open>client\<close> and \<open>record\<close> lines of the block
  (both must occur), and the reload interval from the last \<open>reload\<close> line,
  30 seconds when there is none.\<close>

theorem parse_settings:
  assumes "parse pd bs = Inr v"
  shows "(\<exists>l. last_with fst ''client'' (concat bs) = Some l \<and> client v = hd (snd l)) \<and>
         (\<exists>l. last_with fst ''record'' (concat bs) = Some l \<and> record_source v = hd (snd l)) \<and>
         reload_interval v =
           (case last_with fst ''reload'' (concat bs) of
              None \<Rightarrow> default_reload_interval | Some l \<Rightarrow> the (pd (hd (snd l))))"
proof -
  obtain st where st: "parse_lines pd parse_init (concat bs) = Inr st"
    and "ps_client st \<noteq> []" and "ps_record st \<noteq> []"
    and v: "v = \<lparr>client = ps_client st, client_schema = the (ps_client_schema st),
              record_source = ps_record st, record_schema = the (ps_record_schema st),
              reload_interval = ps_interval st, client_acls = [], client_zones = Map.empty\<rparr>"
    using parse_Inr [OF assms] by metis
  with parse_lines_last [OF st] show ?thesis
    by (auto simp: parse_init_def split: option.splits)
qed

text \<open>C33: a \<open>client\<close>, \<open>record\<close> or
  \<open>reload\<close> line without an argument, reached after lines that parsed, makes
  \<open>parse\<close> index \<open>c.RemainingArgs()[0]\<close> out of range: a panic, not the
  configuration error the spec asks for.\<close>

theorem parse_empty_argument_panics:
  assumes "parse_lines pd parse_init (concat pre @ ls) = Inr st"
    and "k \<in> {''client'', ''record'', ''reload''}"
  shows "parse pd (pre @ (ls @ (k, []) # rest) # post) = Inl Index_out_of_range"
  using assms(2) by (auto intro: parse_stops_at_error [OF assms(1)])

text \<open>C34: after lines that parsed, a \<open>client\<close> or
  \<open>record\<close> locator that is neither an HTTP URL nor a YAML file name, a
  \<open>reload\<close> argument that is not a duration, and an unknown directive each
  end \<open>parse\<close> with their own error, whatever follows.\<close>

theorem parse_line_errors:
  assumes "parse_lines pd parse_init (concat pre @ ls) = Inr st"
  shows "(k \<in> {''client'', ''record''} \<and> \<not> has_prefix a ''http://'' \<and> \<not> has_prefix a ''https://'' \<and>
          \<not> has_suffix a ''.yaml'' \<and> \<not> has_suffix a ''.yml'' \<longrightarrow>
            parse pd (pre @ (ls @ (k, a # as) # rest) # post) = Inl (Unknown_schema a)) \<and>
         (pd a = None \<longrightarrow>
            parse pd (pre @ (ls @ (''reload'', a # as) # rest) # post) = Inl (Duration_error a)) \<and>
         (k \<notin> {''client'', ''record'', ''reload''} \<longrightarrow>
            parse pd (pre @ (ls @ (k, as) # rest) # post) = Inl (Unknown_argument k))"
  by (auto intro!: parse_stops_at_error [OF assms] simp: schema_check_def)

text \<open>A block whose lines all parse but that has
  no \<open>client\<close> line, or no \<open>record\<close> line, is refused with the missing
  argument named.\<close>

theorem parse_missing_locator:
  assumes "parse_lines pd parse_init (concat bs) = Inr st"
  shows "(last_with fst ''client'' (concat bs) = None \<longrightarrow> parse pd bs = Inl (Missing_argument ''client'')) \<and>
         (last_with fst ''client'' (concat bs) \<noteq> None \<and> last_with fst ''record'' (concat bs) = None \<longrightarrow>
            parse pd bs = Inl (Missing_argument ''record''))"
  using parse_lines_last [OF assms] parse_lines_locators_set [OF assms] assms
  by (auto simp: parse_def parse_blocks_concat parse_init_def split: option.splits)

end
