(* ===== verification/Names.thy ===== *)
theory Names
  imports Prelude
begin

text \<open>
  Name normalisation as \<open>loadConfig\<close> (src/setup.go, lines 225 and 228) calls
  it: \<open>plugin.Host(s).Normalize()\<close> of CoreDNS. That library function strips
  a transport prefix (\<open>parse.Transport\<close>), splits off a trailing
  \<open>:port\<close> (\<open>SplitHostPort\<close>, whose error makes the host empty) and then
  applies \<open>Name.Normalize\<close>, which is \<open>strings.ToLower(dns.Fqdn(s))\<close>.
  \<open>dns.Fqdn\<close> appends a dot unless the name already ends in an unescaped
  dot (\<open>dns.IsFqdn\<close> counts the backslashes before the final dot).
  Case mapping is Go's on ASCII letters. \<open>SplitHostPort\<close> (the four-result
  version of CoreDNS up to 1.8.3) also checks the host with
  \<open>dns.IsDomainName\<close> of miekg/dns (\<open>is_domain_name\<close>): every label,
  escapes counted as one byte, below 64 bytes, no empty label, no leading dot
  except in the root name, at most 255 bytes of wire format. Its rewriting of a
  CIDR text into a reverse zone (\<open>dns.ReverseAddr\<close>, \<open>dns.NextLabel\<close>) is
  not modelled: the model treats every host that passes the checks as a plain
  name, which differs from the code only for a host that is CIDR text.
\<close>

subsection \<open>ASCII case mapping (\<open>strings.ToLower\<close>, \<open>strings.ToUpper\<close>)\<close>

definition ascii_lower :: "char \<Rightarrow> char" where
  "ascii_lower c =
     (if 65 \<le> (of_char c :: nat) \<and> (of_char c :: nat) \<le> 90
      then char_of (of_char c + (32::nat)) else c)"

definition ascii_upper :: "char \<Rightarrow> char" where
  "ascii_upper c =
     (if 97 \<le> (of_char c :: nat) \<and> (of_char c :: nat) \<le> 122
      then char_of (of_char c - (32::nat)) else c)"

definition to_lower :: "string \<Rightarrow> string" where
  "to_lower s = map ascii_lower s"

definition to_upper :: "string \<Rightarrow> string" where
  "to_upper s = map ascii_upper s"

subsection \<open>\<open>dns.IsFqdn\<close> and \<open>dns.Fqdn\<close>\<close>

text \<open>The number of backslashes that end a string; an odd number escapes a
  following dot.\<close>

definition trailing_backslashes :: "string \<Rightarrow> nat" where
  "trailing_backslashes s = length (takeWhile (\<lambda>c. c = backslash) (rev s))"

definition is_fqdn :: "string \<Rightarrow> bool" where
  "is_fqdn s \<longleftrightarrow> s \<noteq> [] \<and> last s = dot \<and> even (trailing_backslashes (butlast s))"

definition fqdn :: "string \<Rightarrow> string" where
  "fqdn s = (if is_fqdn s then s else s @ [dot])"

definition name_normalize :: "string \<Rightarrow> string" where
  "name_normalize s = to_lower (fqdn s)"

subsection \<open>\<open>parse.Transport\<close> and \<open>SplitHostPort\<close>\<close>

definition transports :: "string list" where
  "transports = [''tls'', ''dns'', ''grpc'', ''https'']"

fun strip_transport :: "string list \<Rightarrow> string \<Rightarrow> string" where
  "strip_transport [] s = s"
| "strip_transport (t # ts) s =
     (let p = t @ ''://'' in
      if take (length p) s = p then drop (length p) s else strip_transport ts s)"

text \<open>\<open>strings.LastIndex(s, ":")\<close>, with \<open>None\<close> for Go's \<open>-1\<close>.\<close>

definition last_index :: "char \<Rightarrow> string \<Rightarrow> nat option" where
  "last_index c s =
     (if c \<in> set s then Some (length s - Suc (length (takeWhile (\<lambda>x. x \<noteq> c) (rev s))))
      else None)"

text \<open>Whether \<open>strconv.Atoi\<close> succeeds: an optional sign, at least one decimal
  digit and nothing else, within the range of \<open>int64\<close>
  (\<open>2^63 = 9223372036854775808\<close>).\<close>

definition atoi_ok :: "string \<Rightarrow> bool" where
  "atoi_ok s =
     (let (neg, t) = (case s of
                        [] \<Rightarrow> (False, [])
                      | c # r \<Rightarrow> if c = CHR ''+'' then (False, r)
                                else if c = CHR ''-'' then (True, r) else (False, s))
      in t \<noteq> [] \<and> list_all is_digit t \<and>
         (if neg then digits_value t \<le> 9223372036854775808
          else digits_value t < 9223372036854775808))"

text \<open>\<open>dns.IsDomainName\<close>: the loop over the bytes of \<open>Fqdn(s)\<close> with the
  wire offset \<open>off\<close>, the index \<open>begin\<close> where the current label starts
  (advanced past escapes, so that \<open>i - begin\<close> counts an escape as one
  byte), the index \<open>i\<close> of the next byte, whether the previous byte was a
  dot, and \<open>len(s)\<close>. A backslash escapes the next byte or a \<open>\DDD\<close>
  triple. The label count Go also returns is not used by the caller.\<close>

fun idn_loop :: "nat \<Rightarrow> nat \<Rightarrow> nat \<Rightarrow> bool \<Rightarrow> nat \<Rightarrow> string \<Rightarrow> bool" where
  "idn_loop off begin i was_dot n [] = True"
| "idn_loop off begin i was_dot n (c # cs) =
     (if c = backslash then
        (if 256 < off + 1 then False
         else if 3 \<le> length cs \<and> list_all is_digit (take 3 cs)
         then idn_loop off (begin + 3) (i + 4) False n (drop 3 cs)
         else idn_loop off (Suc begin) (i + 2) False n (tl cs))
      else if c = dot then
        (if i = 0 \<and> 1 < n then False
         else if was_dot then False
         else if 64 \<le> i - begin then False
         else if 256 < off + 1 + (i - begin) then False
         else idn_loop (off + 1 + (i - begin)) (Suc i) (Suc i) True n cs)
      else idn_loop off begin (Suc i) False n cs)"

definition is_domain_name :: "string \<Rightarrow> bool" where
  "is_domain_name s \<longleftrightarrow> s \<noteq> [] \<and> idn_loop 0 0 0 False (length (fqdn s)) (fqdn s)"

text \<open>The host part \<open>SplitHostPort\<close> returns, \<open>None\<close> on its errors: data
  expected after the last colon (this includes the empty string), a host of
  more than 255 bytes and a host that is not a domain name.\<close>

definition split_host_port :: "string \<Rightarrow> string option" where
  "split_host_port s =
     (if s = [] \<or> last s = colon then None
      else
        let host = (case last_index colon s of
                      None \<Rightarrow> s
                    | Some i \<Rightarrow> if atoi_ok (drop (Suc i) s) then take i s else s)
        in if 255 < length host then None
           else if \<not> is_domain_name host then None
           else Some host)"

text \<open>\<open>plugin.Host(s).Normalize()\<close>: the error of \<open>SplitHostPort\<close> is
  ignored and leaves the empty host, which normalises to the root \<open>"."\<close>.\<close>

definition host_normalize :: "string \<Rightarrow> string" where
  "host_normalize s =
     name_normalize
       (case split_host_port (strip_transport transports s) of None \<Rightarrow> [] | Some h \<Rightarrow> h)"

subsection \<open>Case mapping and qualification\<close>

lemma of_char_ascii_lower:
  "(of_char (ascii_lower c) :: nat) =
     (if 65 \<le> (of_char c :: nat) \<and> (of_char c :: nat) \<le> 90 then of_char c + 32 else of_char c)"
proof (cases "65 \<le> (of_char c :: nat) \<and> (of_char c :: nat) \<le> 90")
  case True
  then have "(of_char c :: nat) + 32 < 256" by simp
  with True show ?thesis by (simp add: ascii_lower_def)
qed (auto simp add: ascii_lower_def)

lemma ascii_lower_idem [simp]: "ascii_lower (ascii_lower c) = ascii_lower c"
proof (cases "65 \<le> (of_char c :: nat) \<and> (of_char c :: nat) \<le> 90")
  case True
  then have "(of_char (ascii_lower c) :: nat) = of_char c + 32"
    by (simp add: of_char_ascii_lower)
  with True show ?thesis by (simp add: ascii_lower_def [of "ascii_lower c"])
next
  case False
  then show ?thesis by (auto simp add: ascii_lower_def)
qed

lemma ascii_lower_upper [simp]: "ascii_lower (ascii_upper c) = ascii_lower c"
proof (cases "97 \<le> (of_char c :: nat) \<and> (of_char c :: nat) \<le> 122")
  case True
  then have "(of_char c :: nat) - 32 < 256" by linarith
  with True have "(of_char (ascii_upper c) :: nat) = of_char c - 32"
    by (simp add: ascii_upper_def)
  moreover from True have "65 \<le> (of_char c :: nat) - 32 \<and> (of_char c :: nat) - 32 \<le> 90"
    by linarith
  ultimately have "ascii_lower (ascii_upper c) = char_of ((of_char c :: nat) - 32 + 32)"
    by (simp add: ascii_lower_def [of "ascii_upper c"])
  also from True have "\<dots> = c" by simp
  also from True have "c = ascii_lower c" by (simp add: ascii_lower_def)
  finally show ?thesis .
next
  case False
  then show ?thesis by (auto simp add: ascii_upper_def)
qed

lemma ascii_lower_eq_nonletter:
  assumes "\<not> (65 \<le> (of_char c :: nat) \<and> (of_char c :: nat) \<le> 90)"
    and "\<not> (97 \<le> (of_char c :: nat) \<and> (of_char c :: nat) \<le> 122)"
  shows "ascii_lower x = c \<longleftrightarrow> x = c"
proof
  assume eq: "ascii_lower x = c"
  show "x = c"
  proof (cases "65 \<le> (of_char x :: nat) \<and> (of_char x :: nat) \<le> 90")
    case True
    then have "(of_char c :: nat) = of_char x + 32"
      using eq of_char_ascii_lower [of x] by simp
    with True assms(2) show ?thesis by simp
  next
    case False
    with eq show ?thesis by (simp add: ascii_lower_def)
  qed
next
  assume "x = c"
  with assms(1) show "ascii_lower x = c" by (auto simp add: ascii_lower_def)
qed

lemma ascii_lower_eq_dot [simp]: "ascii_lower x = dot \<longleftrightarrow> x = dot"
  and ascii_lower_eq_backslash [simp]: "ascii_lower x = backslash \<longleftrightarrow> x = backslash"
  and ascii_lower_eq_colon [simp]: "ascii_lower x = colon \<longleftrightarrow> x = colon"
  by (simp_all add: ascii_lower_eq_nonletter)

lemma dot_eq_ascii_lower [simp]: "dot = ascii_lower x \<longleftrightarrow> x = dot"
  and backslash_eq_ascii_lower [simp]: "backslash = ascii_lower x \<longleftrightarrow> x = backslash"
  and colon_eq_ascii_lower [simp]: "colon = ascii_lower x \<longleftrightarrow> x = colon"
  by (metis ascii_lower_eq_dot, metis ascii_lower_eq_backslash, metis ascii_lower_eq_colon)

lemma of_char_ascii_upper:
  "(of_char (ascii_upper c) :: nat) =
     (if 97 \<le> (of_char c :: nat) \<and> (of_char c :: nat) \<le> 122 then of_char c - 32 else of_char c)"
proof (cases "97 \<le> (of_char c :: nat) \<and> (of_char c :: nat) \<le> 122")
  case True
  then have "(of_char c :: nat) - 32 < 256" by linarith
  with True show ?thesis by (simp add: ascii_upper_def)
qed (auto simp add: ascii_upper_def)

lemma ascii_upper_idem [simp]: "ascii_upper (ascii_upper c) = ascii_upper c"
proof (cases "97 \<le> (of_char c :: nat) \<and> (of_char c :: nat) \<le> 122")
  case True
  then have "(of_char (ascii_upper c) :: nat) = of_char c - 32"
    by (simp add: of_char_ascii_upper)
  moreover from True have "(of_char c :: nat) - 32 < 97"
    by linarith
  ultimately show ?thesis by (simp add: ascii_upper_def [of "ascii_upper c"])
next
  case False
  then show ?thesis by (auto simp add: ascii_upper_def)
qed

lemma ascii_upper_lower [simp]: "ascii_upper (ascii_lower c) = ascii_upper c"
proof (cases "65 \<le> (of_char c :: nat) \<and> (of_char c :: nat) \<le> 90")
  case True
  then have "(of_char (ascii_lower c) :: nat) = of_char c + 32"
    by (simp add: of_char_ascii_lower)
  moreover from True have "97 \<le> (of_char c :: nat) + 32 \<and> (of_char c :: nat) + 32 \<le> 122"
    by linarith
  ultimately have "ascii_upper (ascii_lower c) = char_of ((of_char c :: nat) + 32 - 32)"
    by (simp add: ascii_upper_def [of "ascii_lower c"])
  also have "\<dots> = c" by simp
  also from True have "c = ascii_upper c" by (simp add: ascii_upper_def)
  finally show ?thesis .
next
  case False
  then show ?thesis by (auto simp add: ascii_lower_def)
qed

lemma to_upper_to_lower [simp]: "to_upper (to_lower s) = to_upper s"
  by (simp add: to_lower_def to_upper_def)

lemma to_upper_idem [simp]: "to_upper (to_upper s) = to_upper s"
  by (simp add: to_upper_def)

lemma length_to_lower [simp]: "length (to_lower s) = length s"
  by (simp add: to_lower_def)

lemma to_lower_eq_Nil_iff [simp]: "to_lower s = [] \<longleftrightarrow> s = []"
  by (simp add: to_lower_def)

lemma to_lower_append [simp]: "to_lower (s @ t) = to_lower s @ to_lower t"
  by (simp add: to_lower_def)

lemma to_lower_Nil [simp]: "to_lower [] = []" and to_lower_dot [simp]: "to_lower [dot] = [dot]"
  by (simp_all add: to_lower_def ascii_lower_def)

lemma to_lower_idem [simp]: "to_lower (to_lower s) = to_lower s"
  by (simp add: to_lower_def)

lemma to_lower_to_upper [simp]: "to_lower (to_upper s) = to_lower s"
  by (simp add: to_lower_def to_upper_def)

lemma colon_in_to_lower [simp]: "colon \<in> set (to_lower s) \<longleftrightarrow> colon \<in> set s"
  by (auto simp add: to_lower_def image_iff)

lemma trailing_backslashes_to_lower [simp]:
  "trailing_backslashes (to_lower s) = trailing_backslashes s"
proof -
  have "(\<lambda>c. c = backslash) \<circ> ascii_lower = (\<lambda>c. c = backslash)"
    by (simp add: fun_eq_iff)
  then show ?thesis
    by (simp add: trailing_backslashes_def to_lower_def rev_map takeWhile_map)
qed

lemma last_to_lower: "s \<noteq> [] \<Longrightarrow> last (to_lower s) = ascii_lower (last s)"
  unfolding to_lower_def by (rule List.last_map)

lemma is_fqdn_to_lower [simp]: "is_fqdn (to_lower s) \<longleftrightarrow> is_fqdn s"
proof (cases "s = []")
  case False
  then have "last (to_lower s) = ascii_lower (last s)" by (rule last_to_lower)
  moreover have "butlast (to_lower s) = to_lower (butlast s)"
    by (simp add: to_lower_def map_butlast)
  ultimately show ?thesis using False by (simp add: is_fqdn_def)
qed (simp add: is_fqdn_def)

lemma is_fqdn_snoc_dot: "is_fqdn (s @ [dot]) \<longleftrightarrow> even (trailing_backslashes s)"
  by (simp add: is_fqdn_def)

lemma is_fqdn_fqdn: "is_fqdn s \<or> even (trailing_backslashes s) \<Longrightarrow> is_fqdn (fqdn s)"
  by (auto simp add: fqdn_def is_fqdn_snoc_dot)

lemma name_normalize_idem:
  "is_fqdn s \<or> even (trailing_backslashes s) \<Longrightarrow>
     name_normalize (name_normalize s) = name_normalize s"
  using is_fqdn_fqdn [of s] by (simp add: name_normalize_def fqdn_def [of "to_lower (fqdn s)"])

lemma strip_transport_no_colon: "colon \<notin> set s \<Longrightarrow> strip_transport ts s = s"
proof (induction ts)
  case (Cons t ts)
  have "colon \<in> set (t @ ''://'')" by simp
  then have "take (length (t @ ''://'')) s \<noteq> t @ ''://''"
    using Cons.prems in_set_takeD by metis
  with Cons show ?case by (simp add: Let_def)
qed simp

lemma split_host_port_no_colon:
  assumes "colon \<notin> set s" and "s \<noteq> []" and "length s \<le> 255" and "is_domain_name s"
  shows "split_host_port s = Some s"
proof -
  from assms(1,2) have "last s \<noteq> colon" using last_in_set by metis
  with assms show ?thesis by (simp add: split_host_port_def last_index_def)
qed

lemma host_normalize_plain:
  "colon \<notin> set s \<Longrightarrow> s \<noteq> [] \<Longrightarrow> length s \<le> 255 \<Longrightarrow> is_domain_name s \<Longrightarrow>
   host_normalize s = name_normalize s"
  by (simp add: host_normalize_def strip_transport_no_colon split_host_port_no_colon)

text \<open>A host that is not a domain name makes \<open>SplitHostPort\<close> fail, and
  \<open>Normalize\<close> returns the root name.\<close>

lemma host_normalize_not_domain:
  assumes "colon \<notin> set s" "\<not> is_domain_name s"
  shows "host_normalize s = [dot]"
proof -
  have "split_host_port s = None"
  proof (cases "s = []")
    case False
    then have "last s \<noteq> colon" using assms(1) last_in_set by metis
    with assms show ?thesis by (simp add: split_host_port_def last_index_def)
  qed (simp add: split_host_port_def)
  then show ?thesis
    using assms(1) by (simp add: host_normalize_def strip_transport_no_colon name_normalize_def
        fqdn_def is_fqdn_def)
qed

subsection \<open>\<open>IsDomainName\<close> looks at escapes and dots only\<close>

lemma is_digit_ascii_lower [simp]: "is_digit (ascii_lower c) \<longleftrightarrow> is_digit c"
  by (auto simp: is_digit_def of_char_ascii_lower)

lemma to_lower_Cons: "to_lower (c # cs) = ascii_lower c # to_lower cs"
  and drop_to_lower: "drop k (to_lower cs) = to_lower (drop k cs)"
  and take_to_lower: "take k (to_lower cs) = to_lower (take k cs)"
  and tl_to_lower: "tl (to_lower cs) = to_lower (tl cs)"
  and list_all_digit_to_lower: "list_all is_digit (to_lower cs) \<longleftrightarrow> list_all is_digit cs"
  by (simp_all add: to_lower_def drop_map take_map map_tl list_all_iff)

lemma idn_loop_to_lower:
  "idn_loop off b i w n (to_lower xs) = idn_loop off b i w n xs"
proof (induction off b i w n xs rule: idn_loop.induct)
  case (2 off b i w n c cs)
  consider "c = backslash" | "c = dot" | "c \<noteq> backslash" "c \<noteq> dot" by blast
  then show ?case
  proof cases
    case 1
    then show ?thesis using "2.IH"(1,2)
      by (simp add: to_lower_Cons drop_to_lower take_to_lower tl_to_lower list_all_digit_to_lower
          split: if_split)
  next
    case 2
    then show ?thesis using "2.IH"(3) by (simp add: to_lower_Cons split: if_split)
  next
    case 3
    then show ?thesis using "2.IH"(4) by (simp add: to_lower_Cons)
  qed
qed simp

lemma is_domain_name_root: "is_domain_name [dot]"
  by (simp add: is_domain_name_def fqdn_def is_fqdn_def trailing_backslashes_def)

lemma host_normalize_root: "host_normalize [dot] = [dot]"
  using host_normalize_plain [OF _ _ _ is_domain_name_root]
  by (simp add: name_normalize_def fqdn_def is_fqdn_def trailing_backslashes_def)

lemma fqdn_to_lower: "fqdn (to_lower s) = to_lower (fqdn s)"
  by (simp add: fqdn_def)

lemma is_domain_name_to_lower [simp]: "is_domain_name (to_lower s) \<longleftrightarrow> is_domain_name s"
  by (simp add: is_domain_name_def fqdn_to_lower idn_loop_to_lower)

lemma is_domain_name_variant: "to_lower t = to_lower s \<Longrightarrow> is_domain_name t \<longleftrightarrow> is_domain_name s"
  by (metis is_domain_name_to_lower)

lemma colon_notin_fqdn: "colon \<notin> set s \<Longrightarrow> colon \<notin> set (fqdn s)"
  by (simp add: fqdn_def)

lemma length_fqdn: "length (fqdn s) \<le> Suc (length s)"
  by (simp add: fqdn_def)

subsection \<open>What normalisation guarantees\<close>

text \<open>On a name with no colon, of fewer than 255 bytes, that does not end in a
  dot and does not end in an odd run of backslashes, every case variant, with or
  without a final dot, normalises to the lower-case name with one final dot.\<close>

lemma host_normalize_variant:
  assumes s: "colon \<notin> set s" "s \<noteq> []" "length s < 255" "last s \<noteq> dot"
      "even (trailing_backslashes s)"
    and t: "to_lower t = to_lower s"
  shows "host_normalize t = (if is_domain_name s then to_lower s @ [dot] else [dot])"
    and "host_normalize (t @ [dot]) = (if is_domain_name s then to_lower s @ [dot] else [dot])"
proof -
  have len: "length t = length s" using t length_to_lower by metis
  have col: "colon \<notin> set t" using t s(1) colon_in_to_lower by metis
  have ne: "t \<noteq> []" using len s(2) by auto
  have tb: "trailing_backslashes t = trailing_backslashes s"
    using t trailing_backslashes_to_lower by metis
  have "ascii_lower (last t) = ascii_lower (last s)"
    using t ne s(2) last_to_lower by metis
  with s(4) have lt: "last t \<noteq> dot" by (metis ascii_lower_eq_dot)
  then have nf: "\<not> is_fqdn t" by (simp add: is_fqdn_def)
  from tb s(5) have f: "is_fqdn (t @ [dot])" by (simp add: is_fqdn_snoc_dot)
  have dn: "is_domain_name t \<longleftrightarrow> is_domain_name s" by (rule is_domain_name_variant [OF t])
  have "fqdn (t @ [dot]) = fqdn t" using nf f by (simp add: fqdn_def)
  then have dn': "is_domain_name (t @ [dot]) \<longleftrightarrow> is_domain_name s"
    using dn ne by (simp add: is_domain_name_def)
  have col': "colon \<notin> set (t @ [dot])" using col by simp
  show "host_normalize t = (if is_domain_name s then to_lower s @ [dot] else [dot])"
  proof (cases "is_domain_name s")
    case True
    with dn nf col ne len s(3) t show ?thesis
      by (simp add: host_normalize_plain name_normalize_def fqdn_def)
  qed (use dn col host_normalize_not_domain in auto)
  show "host_normalize (t @ [dot]) = (if is_domain_name s then to_lower s @ [dot] else [dot])"
  proof (cases "is_domain_name s")
    case True
    with dn' f col len s(3) t show ?thesis
      by (simp add: host_normalize_plain name_normalize_def fqdn_def)
  qed (use dn' col' host_normalize_not_domain in auto)
qed

text \<open>Normalisation is idempotent on names with no colon, of fewer than 255
  bytes, that are already fully qualified or do not end in an odd run of
  backslashes.\<close>

lemma host_normalize_idem:
  assumes "colon \<notin> set s" and "length s < 255"
    and "is_fqdn s \<or> even (trailing_backslashes s)"
  shows "host_normalize (host_normalize s) = host_normalize s"
proof (cases "s = []")
  case True
  have "host_normalize [] = [dot]"
    by (simp add: host_normalize_def strip_transport_no_colon split_host_port_def
        name_normalize_def fqdn_def is_fqdn_def)
  moreover note host_normalize_root
  ultimately show ?thesis using True by simp
next
  case ne: False
  show ?thesis
  proof (cases "is_domain_name s")
    case False
    then show ?thesis using host_normalize_not_domain [OF assms(1) False] host_normalize_root by simp
  next
    case True
  let ?n = "name_normalize s"
  have n: "host_normalize s = ?n"
    using assms(1,2) ne True by (simp add: host_normalize_plain)
  have "colon \<notin> set ?n" and "?n \<noteq> []" and "length ?n \<le> 255"
    using assms(1,2) ne colon_notin_fqdn [of s] length_fqdn [of s]
    by (simp_all add: name_normalize_def fqdn_def)
  moreover have "is_domain_name ?n"
  proof -
    have ff: "fqdn (fqdn s) = fqdn s" using assms(3) is_fqdn_fqdn by (simp add: fqdn_def [of "fqdn s"])
    have "fqdn s \<noteq> []" using ne by (simp add: fqdn_def)
    then have "is_domain_name (fqdn s)" using True ff by (simp add: is_domain_name_def)
    then show ?thesis by (simp add: name_normalize_def)
  qed
  ultimately have "host_normalize ?n = name_normalize ?n"
    by (simp add: host_normalize_plain)
  with n assms(3) show ?thesis by (simp add: name_normalize_idem)
  qed
qed

subsection \<open>Ports and the length limit\<close>

lemma no_transport_before_port:
  assumes "colon \<notin> set s" "colon \<notin> set t" "list_all is_digit ds"
  shows "take (length (t @ ''://'')) (s @ colon # ds) \<noteq> t @ ''://''"
proof
  assume eq: "take (length (t @ ''://'')) (s @ colon # ds) = t @ ''://''"
  consider "length s < length t" | "length t < length s" | "length s = length t" by linarith
  then show False
  proof cases
    case 1
    then have "(s @ colon # ds) ! length s = t ! length s"
      using take_eq_nth [OF eq, of "length s"] by (simp add: nth_append)
    with 1 assms(2) show False by (simp add: nth_append)
  next
    case 2
    then have "(s @ colon # ds) ! length t = colon"
      using take_eq_nth [OF eq, of "length t"] by (simp add: nth_append)
    with 2 assms(1) show False by (simp add: nth_append) (metis nth_mem)
  next
    case 3
    have "length (take (length (t @ ''://'')) (s @ colon # ds)) = length (t @ ''://'')"
      using eq by simp
    then have "length t + 3 \<le> length s + Suc (length ds)" by simp
    with 3 obtain d ds' where ds: "ds = d # ds'" by (cases ds) auto
    have "(s @ colon # ds) ! (length t + 1) = slash"
      using take_eq_nth [OF eq, of "length t + 1"] by (simp add: nth_append)
    then have "d = slash" using 3 ds by (simp add: nth_append)
    with assms(3) ds show False by (simp add: is_digit_def)
  qed
qed

lemma strip_transport_port:
  assumes "colon \<notin> set s" "\<forall>t \<in> set ts. colon \<notin> set t" "list_all is_digit ds"
  shows "strip_transport ts (s @ colon # ds) = s @ colon # ds"
  using assms(2) no_transport_before_port [OF assms(1) _ assms(3)]
  by (induction ts) (simp_all add: Let_def)


text \<open>A name of more than 255 bytes makes
  \<open>SplitHostPort\<close> fail; \<open>Normalize\<close> ignores the error and returns the
  root name, so all such names collide on \<open>"."\<close>.\<close>

theorem host_normalize_too_long:
  assumes "colon \<notin> set s" "255 < length s"
  shows "host_normalize s = [dot]"
proof -
  have "s \<noteq> []" using assms(2) by auto
  then show ?thesis
    using assms by (simp add: host_normalize_def strip_transport_no_colon split_host_port_def
        last_index_def name_normalize_def fqdn_def is_fqdn_def)
qed

lemmas names_eval = host_normalize_def name_normalize_def fqdn_def is_fqdn_def
  trailing_backslashes_def to_lower_def ascii_lower_def split_host_port_def last_index_def
  transports_def atoi_ok_def digits_value_def dec_step_def digit_val_def is_digit_def char_of_eq_iff
  is_domain_name_def

end
