(* ===== verification/Loader.thy ===== *)
theory Loader
  imports Views Names
begin

unbundle bit_operations_syntax

text \<open>
  The refresh, \<open>loadConfig\<close> (src/setup.go, lines 154-237). It fetches the
  client document and the record document, logs a fetch error and goes on,
  then rebuilds the ACL list (lines 182-200: every group kept, each unparsable
  prefix dropped with a warning) and the map from view name to zones (lines
  202-236: names normalised, the record type string mapped to a type code,
  later records overwriting earlier ones of the same name, later record sets
  overwriting earlier ones of the same view).

  The fetches are I/O (\<open>parseFromYAML\<close>, \<open>parseFromHTTP\<close>, lines 239-288).
  They are the environment of the model: for a schema and a locator, the error
  the fetch returned, if any, and what it had decoded into \<open>out\<close> by then.
  A failed read leaves \<open>out\<close> empty; a failed decode may leave a part.
\<close>

datatype log_entry = Log_error string | Log_warning string string

type_synonym 'a fetched = "string option \<times> 'a list"

record load_env =
  fetch_clients :: "schema \<Rightarrow> string \<Rightarrow> raw_client_acl fetched"
  fetch_records :: "schema \<Rightarrow> string \<Rightarrow> raw_record fetched"

subsection \<open>Client ACLs (lines 182-200)\<close>

text \<open>The inner loop over one group's prefixes: a prefix \<open>net.ParseCIDR\<close>
  rejects is logged and skipped (\<open>continue\<close>).\<close>

fun parse_prefixes :: "string \<Rightarrow> string list \<Rightarrow> cidr_net list \<times> log_entry list" where
  "parse_prefixes name [] = ([], [])"
| "parse_prefixes name (cidr # cs) =
     (let (nets, ws) = parse_prefixes name cs in
      case parse_cidr cidr of
        None \<Rightarrow> (nets, Log_warning name cidr # ws)
      | Some net \<Rightarrow> (net # nets, ws))"

definition build_acl :: "raw_client_acl \<Rightarrow> client_acl \<times> log_entry list" where
  "build_acl rc =
     (let (nets, ws) = parse_prefixes (raw_acl_name rc) (cidr_prefixes rc)
      in (\<lparr>acl_name = raw_acl_name rc, cidr_nets = nets\<rparr>, ws))"

text \<open>The outer loop, appending one ACL per raw group, in order.\<close>

fun build_acls :: "raw_client_acl list \<Rightarrow> client_acl list \<times> log_entry list" where
  "build_acls [] = ([], [])"
| "build_acls (rc # rcs) =
     (let (a, ws) = build_acl rc; (as, ws') = build_acls rcs in (a # as, ws @ ws'))"

subsection \<open>Zones (lines 202-236)\<close>

text \<open>\<open>strings.ToUpper\<close> and the \<open>switch\<close> on the type string; an
  unrecognised type leaves \<open>rrtype\<close> at its zero value.\<close>

definition rrtype_of :: "string \<Rightarrow> u16" where
  "rrtype_of s =
     (let t = to_upper s in
      if t = ''A'' then type_A
      else if t = ''AAAA'' then type_AAAA
      else if t = ''CNAME'' then type_CNAME
      else if t = ''TXT'' then type_TXT
      else type_None)"

text \<open>The \<open>Zone\<close> literal of lines 224-229: name and value both go
  through \<open>plugin.Host(..).Normalize()\<close>.\<close>

definition mk_zone :: "raw_zone_record \<Rightarrow> zone" where
  "mk_zone rr =
     \<lparr>zone_name = host_normalize (raw_rr_name rr), zone_ttl = raw_ttl rr,
      zone_type = rrtype_of (raw_type rr), zone_value = host_normalize (raw_value rr)\<rparr>"

definition empty_zones :: zones where
  "empty_zones = \<lparr>zone_names = [], zone_map = Map.empty\<rparr>"

text \<open>One iteration of the loop over a record set's records: append the name
  to \<open>Names\<close>, store the zone under it in \<open>Z\<close>.\<close>

definition add_zone :: "zones \<Rightarrow> raw_zone_record \<Rightarrow> zones" where
  "add_zone zs rr =
     (let r = mk_zone rr in
      \<lparr>zone_names = zone_names zs @ [zone_name r], zone_map = (zone_map zs)(zone_name r \<mapsto> r)\<rparr>)"

definition build_zones :: "raw_zone_record list \<Rightarrow> zones" where
  "build_zones rrs = fold (\<lambda>rr zs. add_zone zs rr) rrs empty_zones"

text \<open>\<open>v.ClientZones[r.Name] = zones\<close> for every raw record set, in order,
  into a fresh map.\<close>

definition build_client_zones :: "raw_record list \<Rightarrow> string \<rightharpoonup> zones" where
  "build_client_zones rs = fold (\<lambda>r m. m(raw_set_name r \<mapsto> build_zones (raw_records r))) rs Map.empty"

subsection \<open>\<open>loadConfig\<close>\<close>

definition log_fetch_error :: "string option \<Rightarrow> log_entry list" where
  "log_fetch_error e = (case e of None \<Rightarrow> [] | Some msg \<Rightarrow> [Log_error msg])"

text \<open>Lines 168-236, after the two fetches: log their errors, then replace
  the ACL list and the zone map by what was decoded, whether or not a fetch
  failed.\<close>

definition apply_load ::
  "views \<Rightarrow> raw_client_acl fetched \<Rightarrow> raw_record fetched \<Rightarrow> views \<times> log_entry list" where
  "apply_load v fc fr =
     (let (acls, warnings) = build_acls (snd fc)
      in (v\<lparr>client_acls := acls, client_zones := build_client_zones (snd fr)\<rparr>,
          log_fetch_error (fst fc) @ log_fetch_error (fst fr) @ warnings))"

text \<open>The whole of \<open>loadConfig\<close>: the two \<open>switch\<close>es on the schemas
  select the fetch (the schemas are set by \<open>parse\<close>, so one case always
  matches).\<close>

definition load_config :: "load_env \<Rightarrow> views \<Rightarrow> views \<times> log_entry list" where
  "load_config env v =
     apply_load v (fetch_clients env (client_schema v) (client v))
       (fetch_records env (record_schema v) (record_source v))"

subsection \<open>The loops in closed form\<close>

lemma parse_prefixes_eq:
  "parse_prefixes name ps =
     (List.map_filter parse_cidr ps, map (Log_warning name) (filter (\<lambda>p. parse_cidr p = None) ps))"
  by (induction ps) (auto split: option.splits)

lemma build_acl_eq:
  "build_acl rc =
     (\<lparr>acl_name = raw_acl_name rc, cidr_nets = List.map_filter parse_cidr (cidr_prefixes rc)\<rparr>,
      map (Log_warning (raw_acl_name rc)) (filter (\<lambda>p. parse_cidr p = None) (cidr_prefixes rc)))"
  by (simp add: build_acl_def parse_prefixes_eq)

lemma acl_name_build_acl [simp]: "acl_name (fst (build_acl rc)) = raw_acl_name rc"
  by (simp add: build_acl_eq)

lemma build_acls_eq:
  "build_acls rcs = (map (fst \<circ> build_acl) rcs, concat (map (snd \<circ> build_acl) rcs))"
  by (induction rcs) (auto simp: split_def Let_def)

lemma fold_add_zone:
  "fold (\<lambda>rr zs. add_zone zs rr) rrs zs0 =
     \<lparr>zone_names = zone_names zs0 @ map (zone_name \<circ> mk_zone) rrs,
      zone_map = fold (\<lambda>rr m. m(zone_name (mk_zone rr) \<mapsto> mk_zone rr)) rrs (zone_map zs0)\<rparr>"
  by (induction rrs arbitrary: zs0) (simp_all add: add_zone_def Let_def)

lemma mk_zone_sel [simp]:
  "zone_name (mk_zone rr) = host_normalize (raw_rr_name rr)"
  "zone_ttl (mk_zone rr) = raw_ttl rr"
  "zone_type (mk_zone rr) = rrtype_of (raw_type rr)"
  "zone_value (mk_zone rr) = host_normalize (raw_value rr)"
  by (simp_all add: mk_zone_def)

lemma zone_names_build_zones: "zone_names (build_zones rrs) = map (zone_name \<circ> mk_zone) rrs"
  by (simp add: build_zones_def fold_add_zone empty_zones_def)

lemma zone_map_build_zones:
  "zone_map (build_zones rrs) n = map_option mk_zone (last_with (\<lambda>rr. zone_name (mk_zone rr)) n rrs)"
  by (simp add: build_zones_def fold_add_zone empty_zones_def fold_map_upd_lookup
      split: option.split)

lemma dom_zone_map_build_zones:
  "dom (zone_map (build_zones rrs)) = set (zone_names (build_zones rrs))"
  by (simp add: build_zones_def fold_add_zone empty_zones_def fold_map_upd_dom image_comp)

lemma build_client_zones_lookup:
  "build_client_zones rs g = map_option (build_zones \<circ> raw_records) (last_with raw_set_name g rs)"
  by (simp add: build_client_zones_def fold_map_upd_lookup split: option.split)

lemma apply_load_state:
  "fst (apply_load v fc fr) =
     v\<lparr>client_acls := map (fst \<circ> build_acl) (snd fc), client_zones := build_client_zones (snd fr)\<rparr>"
  by (simp add: apply_load_def build_acls_eq)

lemma apply_load_log:
  "snd (apply_load v fc fr) =
     log_fetch_error (fst fc) @ log_fetch_error (fst fr) @ concat (map (snd \<circ> build_acl) (snd fc))"
  by (simp add: apply_load_def build_acls_eq)

subsection \<open>Properties of the refresh\<close>

text \<open>C12: when two raw records of a record set
  normalise to the same name and no record after the second does, the set
  keeps only the second: the later entry silently overwrites the earlier, so a
  name cannot carry both an A and an AAAA record.\<close>

theorem build_zones_last_write_wins:
  assumes "host_normalize (raw_rr_name r1) = n" and "host_normalize (raw_rr_name r2) = n"
    and "\<forall>z \<in> set zs. host_normalize (raw_rr_name z) \<noteq> n"
  shows "zone_map (build_zones (xs @ r1 # ys @ r2 # zs)) n = Some (mk_zone r2)"
  using assms by (simp add: zone_map_build_zones last_with_later)

text \<open>C14: the ordered name list of a record set is the
  list of the normalised names of its raw records, in order and with
  repetitions, and its names are exactly the keys of the set's record map.\<close>

theorem build_zones_names:
  "zone_names (build_zones rrs) = map (\<lambda>rr. host_normalize (raw_rr_name rr)) rrs \<and>
   dom (zone_map (build_zones rrs)) = set (zone_names (build_zones rrs))"
  by (simp add: zone_names_build_zones dom_zone_map_build_zones comp_def)

text \<open>C13: when two raw record sets
  carry the same view name and no later set does, the view's zones are built
  from the second set alone; the first is discarded, not merged.\<close>

theorem build_client_zones_later_set_replaces:
  assumes "raw_set_name r1 = g" and "raw_set_name r2 = g"
    and "\<forall>r \<in> set zs. raw_set_name r \<noteq> g"
  shows "build_client_zones (xs @ r1 # ys @ r2 # zs) g = Some (build_zones (raw_records r2))"
  using assms by (simp add: build_client_zones_lookup last_with_later)

text \<open>C20: a prefix that does not parse is dropped
  from its group with one warning naming the group and the prefix; the group's
  other prefixes are parsed as if it were absent.\<close>

theorem build_acl_skips_malformed:
  assumes "parse_cidr bad = None"
  shows "cidr_nets (fst (build_acl \<lparr>raw_acl_name = nm, cidr_prefixes = ps @ bad # qs\<rparr>)) =
           cidr_nets (fst (build_acl \<lparr>raw_acl_name = nm, cidr_prefixes = ps @ qs\<rparr>)) \<and>
         snd (build_acl \<lparr>raw_acl_name = nm, cidr_prefixes = ps @ bad # qs\<rparr>) =
           snd (build_acl \<lparr>raw_acl_name = nm, cidr_prefixes = ps\<rparr>) @ Log_warning nm bad #
           snd (build_acl \<lparr>raw_acl_name = nm, cidr_prefixes = qs\<rparr>)"
  using assms by (simp add: build_acl_eq map_filter_def)

text \<open>C22: the text a.b.c.d/n of any address and
  prefix length n up to 32 is loaded, without warning, as the network of that
  address masked to its first n bits with the n-bit mask.\<close>

theorem parse_prefixes_roundtrip:
  assumes "\<forall>(a, n) \<in> set ps. n \<le> 32"
  shows "parse_prefixes nm (map (\<lambda>(a, n). cidr_string a n) ps) =
           (map (\<lambda>(a, n). Net4 \<lparr>net_ip = a AND cidr_mask n, net_mask = cidr_mask n\<rparr>) ps, [])"
  using assms by (induction ps) (auto simp: parse_cidr_string)

text \<open>C23: every network of every ACL after a refresh
  is canonical: its mask is a CIDR mask, of at most 32 leading ones for an
  IPv4 network and at most 128 for an IPv6 network, and its address has no
  bit outside the mask.\<close>

theorem loaded_nets_canonical:
  assumes "acl \<in> set (client_acls (fst (apply_load v fc fr)))" and "net \<in> set (cidr_nets acl)"
  shows "(case net of
            Net4 n \<Rightarrow> net_ip n AND net_mask n = net_ip n \<and> (\<exists>k \<le> 32. net_mask n = cidr_mask k)
          | Net6 n \<Rightarrow> net6_ip n AND net6_mask n = net6_ip n \<and> (\<exists>k \<le> 128. net6_mask n = cidr_mask6 k))"
proof -
  from assms obtain p where "parse_cidr p = Some net"
    by (auto simp: apply_load_state build_acl_eq in_set_map_filter)
  then consider (v4) a n where "net = Net4 \<lparr>net_ip = a AND cidr_mask n, net_mask = cidr_mask n\<rparr>" "n \<le> 32"
    | (v6) b n where "net = Net6 \<lparr>net6_ip = b AND cidr_mask6 n, net6_mask = cidr_mask6 n\<rparr>" "n \<le> 128"
    using parse_cidr_shape by blast
  then show ?thesis by cases (auto simp: and.assoc)
qed


text \<open>The record type is read
  case-insensitively and is one of A, AAAA, CNAME, TXT or the zero code of an
  unrecognised type.\<close>

theorem rrtype_of_case_insensitive:
  "rrtype_of (to_lower s) = rrtype_of s \<and> rrtype_of (to_upper s) = rrtype_of s \<and>
   rrtype_of s \<in> {type_A, type_AAAA, type_CNAME, type_TXT, type_None}"
  by (simp add: rrtype_of_def Let_def)





text \<open>A refresh logs the error of the client fetch,
  then that of the record fetch, then one warning per malformed prefix, in
  document order, naming its group; nothing else (an unknown record type is
  stored without a warning).\<close>

theorem load_config_log:
  "snd (load_config env v) =
     log_fetch_error (fst (fetch_clients env (client_schema v) (client v))) @
     log_fetch_error (fst (fetch_records env (record_schema v) (record_source v))) @
     concat (map (\<lambda>rc. map (Log_warning (raw_acl_name rc)) (filter (\<lambda>p. parse_cidr p = None) (cidr_prefixes rc)))
                 (snd (fetch_clients env (client_schema v) (client v))))"
  by (simp add: load_config_def apply_load_log build_acl_eq comp_def)

end
