(* ===== verification/Resolver.thy ===== *)
theory Resolver
  imports Loader
begin

text \<open>
  The query path, \<open>ServeDNS\<close> of the views handler. Its source (views.go)
  is not part of src/; it is modelled from the spec (section 4.4): find the
  first ACL, in declaration order, one of whose networks contains the client
  address (\<open>(*net.IPNet).Contains\<close>); take the zones stored under that ACL's
  name; normalise the query name as the records were normalised; answer with
  the record of that name when its type is the query type and is a known type;
  otherwise decline (\<open>plugin.NextOrFailure\<close>: the next handler of the chain
  answers). The answer carries the record's type, TTL and value; rendering it
  as a DNS message is the transport's work and is not modelled.
\<close>

datatype answer = Answer u16 u32 string | Not_handled

definition acl_matches :: "client_acl \<Rightarrow> ipv4addr \<Rightarrow> bool" where
  "acl_matches acl ip \<longleftrightarrow> list_ex (\<lambda>net. net_contains net ip) (cidr_nets acl)"

fun match_acl :: "client_acl list \<Rightarrow> ipv4addr \<Rightarrow> string option" where
  "match_acl [] ip = None"
| "match_acl (acl # acls) ip = (if acl_matches acl ip then Some (acl_name acl) else match_acl acls ip)"

definition resolve :: "views \<Rightarrow> ipv4addr \<Rightarrow> string \<Rightarrow> u16 \<Rightarrow> answer" where
  "resolve v ip qname qtype =
     (case match_acl (client_acls v) ip of
        None \<Rightarrow> Not_handled
      | Some g \<Rightarrow>
          (case client_zones v g of
             None \<Rightarrow> Not_handled
           | Some zs \<Rightarrow>
               (case zone_map zs (host_normalize qname) of
                  None \<Rightarrow> Not_handled
                | Some z \<Rightarrow>
                    if zone_type z = type_None \<or> zone_type z \<noteq> qtype then Not_handled
                    else Answer (zone_type z) (zone_ttl z) (zone_value z))))"

text \<open>Vocabulary of the statements below: a raw group contains an address
  when one of its prefix texts parses to a network that contains it.\<close>

definition raw_group_contains :: "raw_client_acl \<Rightarrow> ipv4addr \<Rightarrow> bool" where
  "raw_group_contains rc ip \<longleftrightarrow>
     (\<exists>p \<in> set (cidr_prefixes rc). \<exists>net. parse_cidr p = Some net \<and> net_contains net ip)"

subsection \<open>First match and lookup\<close>

lemma match_acl_None: "match_acl acls ip = None \<longleftrightarrow> (\<forall>a \<in> set acls. \<not> acl_matches a ip)"
  by (induction acls) auto

lemma match_acl_find: "match_acl acls ip = map_option acl_name (find (\<lambda>a. acl_matches a ip) acls)"
  by (induction acls) auto

lemma acl_matches_build_acl: "acl_matches (fst (build_acl rc)) ip \<longleftrightarrow> raw_group_contains rc ip"
proof -
  have "set (cidr_nets (fst (build_acl rc))) =
      {net. \<exists>p \<in> set (cidr_prefixes rc). parse_cidr p = Some net}"
    by (auto simp: build_acl_eq in_set_map_filter)
  then show ?thesis by (auto simp: acl_matches_def list_ex_iff raw_group_contains_def)
qed

lemma resolve_apply_load:
  "resolve (fst (apply_load v fc fr)) ip q t =
     (case match_acl (map (fst \<circ> build_acl) (snd fc)) ip of
        None \<Rightarrow> Not_handled
      | Some g \<Rightarrow>
          (case last_with raw_set_name g (snd fr) of
             None \<Rightarrow> Not_handled
           | Some r \<Rightarrow>
               (case last_with (\<lambda>rr. host_normalize (raw_rr_name rr)) (host_normalize q) (raw_records r) of
                  None \<Rightarrow> Not_handled
                | Some rr \<Rightarrow>
                    if rrtype_of (raw_type rr) = type_None \<or> rrtype_of (raw_type rr) \<noteq> t then Not_handled
                    else Answer (rrtype_of (raw_type rr)) (raw_ttl rr) (host_normalize (raw_value rr)))))"
  by (simp add: resolve_def apply_load_state build_client_zones_lookup zone_map_build_zones
      split: option.split)

lemma match_acl_build_acls:
  "match_acl (map (fst \<circ> build_acl) rcs) ip =
     map_option raw_acl_name (find (\<lambda>rc. raw_group_contains rc ip) rcs)"
  by (induction rcs) (auto simp: acl_matches_build_acl)

text \<open>Everything \<open>simp\<close> needs to run a refresh and a query on concrete
  documents.\<close>

lemmas resolve_eval = load_config_def apply_load_def build_acl_def build_client_zones_def
  build_zones_def add_zone_def empty_zones_def mk_zone_def rrtype_of_def resolve_def acl_matches_def
  cidr_eval names_eval to_upper_def ascii_upper_def rr_type_codes Let_def

subsection \<open>Queries against a refreshed snapshot\<close>

text \<open>C3: after a refresh, a client address is assigned to
  the first group, in the order of the client document, that has a valid prefix
  containing it: declaration order decides between overlapping groups, and
  groups whose prefixes were all malformed are skipped.\<close>

theorem load_first_group:
  assumes "i < length rcs" and "raw_group_contains (rcs ! i) ip"
    and "\<forall>j < i. \<not> raw_group_contains (rcs ! j) ip"
  shows "match_acl (client_acls (fst (apply_load v (e, rcs) fr))) ip = Some (raw_acl_name (rcs ! i))"
  using assms by (auto simp: apply_load_state match_acl_build_acls find_Some_iff)

text \<open>C4: after a refresh, a query from an address
  that no valid prefix of any group contains is declined, whatever its name and
  type.\<close>

theorem load_no_group_declines:
  assumes "\<forall>rc \<in> set rcs. \<not> raw_group_contains rc ip"
  shows "resolve (fst (apply_load v (e, rcs) fr)) ip q t = Not_handled"
proof -
  have "match_acl (map (fst \<circ> build_acl) rcs) ip = None"
    using assms by (simp add: match_acl_None acl_matches_build_acl)
  then show ?thesis by (simp add: resolve_apply_load)
qed

text \<open>C2: after a refresh, a query is answered exactly
  when the first group containing the client has a record set of its name,
  that set's last record whose normalised name is the normalised query name
  has a known type equal to the query type; the answer is that record's type,
  TTL and normalised value. Every other query is declined.\<close>

theorem load_resolve_answer:
  "resolve (fst (apply_load v fc fr)) ip q t = Answer t' ttl val \<longleftrightarrow>
     (\<exists>rc r rr. find (\<lambda>rc. raw_group_contains rc ip) (snd fc) = Some rc \<and>
        last_with raw_set_name (raw_acl_name rc) (snd fr) = Some r \<and>
        last_with (\<lambda>rr. host_normalize (raw_rr_name rr)) (host_normalize q) (raw_records r) = Some rr \<and>
        rrtype_of (raw_type rr) = t \<and> t \<noteq> type_None \<and>
        t' = t \<and> ttl = raw_ttl rr \<and> val = host_normalize (raw_value rr))"
  by (auto simp: resolve_apply_load match_acl_build_acls split: option.splits if_splits)

text \<open>C6: a refresh whose client fetch fails
  before decoding anything does not keep the previous snapshot, as the spec
  requires: it empties the ACL list, and every query is declined until the
  next successful refresh.\<close>

theorem load_failed_refresh_declines:
  assumes "fst (fetch_clients env (client_schema v) (client v)) \<noteq> None
             \<and> snd (fetch_clients env (client_schema v) (client v)) = []"
  shows "client_acls (fst (load_config env v)) = [] \<and>
         resolve (fst (load_config env v)) ip q t = Not_handled"
  using assms
  by (simp add: load_config_def apply_load_state resolve_def)

text \<open>C5: a record of an unrecognised type is
  stored and never answered, and as the last record of its name it hides
  every earlier record of that name: the query is declined for every type.\<close>

theorem load_unknown_type_hides:
  assumes "find (\<lambda>rc. raw_group_contains rc ip) (snd fc) = Some rc"
    and "last_with raw_set_name (raw_acl_name rc) (snd fr) = Some r"
    and "raw_records r = rrs @ rr # zs" and "host_normalize (raw_rr_name rr) = host_normalize q"
    and "\<forall>z \<in> set zs. host_normalize (raw_rr_name z) \<noteq> host_normalize q"
    and "rrtype_of (raw_type rr) = type_None"
  shows "resolve (fst (apply_load v fc fr)) ip q t = Not_handled"
  using assms by (simp add: resolve_apply_load match_acl_build_acls last_with_last)

end
