(* ===== verification/Publish.thy ===== *)
theory Publish
  imports Setup Resolver
begin

text \<open>
  How the refresh reaches the query path, and the goroutine that drives it.

  \<open>loadConfig\<close> does not build a snapshot off to the side: it writes the
  handler's fields in place (src/setup.go): \<open>v.ClientACLs = []*ClientACL{}\<close>
  (line 182), one \<open>append\<close> per group (line 196), \<open>v.ClientZones =
  make(...)\<close> (line 202) and one map store per record set (line 235). The
  query path reads the same fields with no lock. A reader is therefore any
  state between two of these writes. The model lists the writes of one refresh
  (\<open>load_writes\<close>), executes them one by one (\<open>apply_write\<close>) and names
  the states a reader can see (\<open>visible_states\<close>). The spec's design (section
  5) publishes a fully built snapshot with one atomic store; it is modelled as
  the single write \<open>Publish_snapshot\<close>.

  \<open>reload\<close> (lines 136-152) starts a goroutine that creates a ticker and
  then loops on a \<open>select\<close> between the closed channel and the ticker;
  \<open>setup\<close> (lines 47-71) runs one \<open>loadConfig\<close> on startup and closes the
  channel on shutdown. The goroutine is an inductive step relation: Go's
  \<open>select\<close> picks at random among the ready cases, so after shutdown a tick
  may still be taken.
\<close>

subsection \<open>The writes of one refresh\<close>

datatype write_op =
    Set_acls "client_acl list"
  | Append_acl client_acl
  | Set_zones "string \<rightharpoonup> zones"
  | Put_zones string zones
  | Publish_snapshot "client_acl list" "string \<rightharpoonup> zones"

fun apply_write :: "views \<Rightarrow> write_op \<Rightarrow> views" where
  "apply_write v (Set_acls acls) = v\<lparr>client_acls := acls\<rparr>"
| "apply_write v (Append_acl acl) = v\<lparr>client_acls := client_acls v @ [acl]\<rparr>"
| "apply_write v (Set_zones m) = v\<lparr>client_zones := m\<rparr>"
| "apply_write v (Put_zones g zs) = v\<lparr>client_zones := (client_zones v)(g \<mapsto> zs)\<rparr>"
| "apply_write v (Publish_snapshot acls m) = v\<lparr>client_acls := acls, client_zones := m\<rparr>"

definition run_writes :: "views \<Rightarrow> write_op list \<Rightarrow> views" where
  "run_writes v ws = fold (\<lambda>w v. apply_write v w) ws v"

text \<open>The shared-state writes of \<open>loadConfig\<close> for the decoded documents,
  in program order.\<close>

definition load_writes :: "raw_client_acl list \<Rightarrow> raw_record list \<Rightarrow> write_op list" where
  "load_writes rcs rs =
     [Set_acls []] @ map (\<lambda>rc. Append_acl (fst (build_acl rc))) rcs @
     [Set_zones Map.empty] @ map (\<lambda>r. Put_zones (raw_set_name r) (build_zones (raw_records r))) rs"

text \<open>The spec's refresh: build everything, then one store.\<close>

definition atomic_writes :: "raw_client_acl list \<Rightarrow> raw_record list \<Rightarrow> write_op list" where
  "atomic_writes rcs rs = [Publish_snapshot (fst (build_acls rcs)) (build_client_zones rs)]"

text \<open>What a reader running concurrently with the writes can see: the state
  after any prefix of them.\<close>

definition visible_states :: "views \<Rightarrow> write_op list \<Rightarrow> views list" where
  "visible_states v ws = map (\<lambda>k. run_writes v (take k ws)) [0..<Suc (length ws)]"

subsection \<open>The reload goroutine\<close>

datatype reload_phase = Running | Exited | Panicked

record reload_state =
  rl_views :: views
  rl_started :: bool
  rl_closed :: bool
  rl_phase :: reload_phase
  rl_loads :: nat

text \<open>\<open>setup\<close> calls \<open>v.reload()\<close> before registering the startup hook;
  the goroutine's first action, \<open>time.NewTicker(v.ReloadInterval)\<close>, panics
  on a non-positive interval.\<close>

definition reload_init :: "views \<Rightarrow> reload_state" where
  "reload_init v =
     \<lparr>rl_views = v, rl_started = False, rl_closed = False,
      rl_phase = (if reload_interval v \<le> 0 then Panicked else Running), rl_loads = 0\<rparr>"

text \<open>\<open>setup\<close> (lines 47-71): a parse error is returned (wrapped by
  \<open>plugin.Error\<close>, which the model leaves out); otherwise the goroutine is
  started on the parsed handler, and the hooks and the handler are
  registered.\<close>

definition setup_views ::
  "(string \<Rightarrow> int option) \<Rightarrow> corefile_line list list \<Rightarrow> setup_error + reload_state" where
  "setup_views pd blocks = (case parse pd blocks of Inl e \<Rightarrow> Inl e | Inr v \<Rightarrow> Inr (reload_init v))"

inductive reload_step :: "reload_state \<Rightarrow> reload_state \<Rightarrow> bool" where
  startup: "\<not> rl_started s \<Longrightarrow>
     reload_step s (s\<lparr>rl_started := True, rl_views := fst (load_config env (rl_views s))\<rparr>)"
| tick: "rl_phase s = Running \<Longrightarrow>
     reload_step s (s\<lparr>rl_views := fst (load_config env (rl_views s)), rl_loads := Suc (rl_loads s)\<rparr>)"
| stop: "rl_phase s = Running \<Longrightarrow> rl_closed s \<Longrightarrow> reload_step s (s\<lparr>rl_phase := Exited\<rparr>)"
| shutdown: "\<not> rl_closed s \<Longrightarrow> reload_step s (s\<lparr>rl_closed := True\<rparr>)"

inductive reload_reachable :: "views \<Rightarrow> reload_state \<Rightarrow> bool" for v where
  init: "reload_reachable v (reload_init v)"
| step: "reload_reachable v s \<Longrightarrow> reload_step s s' \<Longrightarrow> reload_reachable v s'"

inductive_cases reload_step_cases: "reload_step s s'"

text \<open>What the goroutine keeps true: the parsed settings never change (a
  refresh writes only the ACLs and the zones), it returns only after the
  channel was closed, and it has panicked exactly when the interval is not
  positive, in which case no tick ever ran.\<close>

definition reload_inv :: "views \<Rightarrow> reload_state \<Rightarrow> bool" where
  "reload_inv v s \<longleftrightarrow>
     client (rl_views s) = client v \<and> client_schema (rl_views s) = client_schema v \<and>
     record_source (rl_views s) = record_source v \<and> record_schema (rl_views s) = record_schema v \<and>
     reload_interval (rl_views s) = reload_interval v \<and>
     (rl_phase s = Exited \<longrightarrow> rl_closed s) \<and>
     (rl_phase s = Panicked \<longleftrightarrow> reload_interval v \<le> 0) \<and>
     (rl_phase s = Panicked \<longrightarrow> rl_loads s = 0)"

subsection \<open>Executing the writes\<close>

lemma run_writes_Nil [simp]: "run_writes v [] = v"
  by (simp add: run_writes_def)

lemma run_writes_Cons [simp]: "run_writes v (w # ws) = run_writes (apply_write v w) ws"
  by (simp add: run_writes_def)

lemma run_writes_append: "run_writes v (ws @ ws') = run_writes (run_writes v ws) ws'"
  by (simp add: run_writes_def)

lemma run_writes_appends:
  "run_writes v (map (\<lambda>x. Append_acl (f x)) xs) = v\<lparr>client_acls := client_acls v @ map f xs\<rparr>"
  by (induction xs arbitrary: v) simp_all

lemma run_writes_puts:
  "run_writes v (map (\<lambda>x. Put_zones (k x) (g x)) xs) =
     v\<lparr>client_zones := fold (\<lambda>x m. m(k x \<mapsto> g x)) xs (client_zones v)\<rparr>"
  by (induction xs arbitrary: v) simp_all

lemma length_load_writes: "length (load_writes rcs rs) = length rcs + length rs + 2"
  by (simp add: load_writes_def)

lemma visible_states_iff:
  "s \<in> set (visible_states v ws) \<longleftrightarrow> (\<exists>k \<le> length ws. s = run_writes v (take k ws))"
proof -
  have "set [0..<Suc (length ws)] = {k. k \<le> length ws}" by auto
  then show ?thesis by (auto simp: visible_states_def simp del: upt_Suc)
qed

text \<open>The two windows of a refresh: after line 182 (no ACLs) and after
  line 202 with every ACL appended (no zones).\<close>

lemma load_writes_first:
  "run_writes v (take 1 (load_writes rcs rs)) = v\<lparr>client_acls := []\<rparr>"
  by (simp add: load_writes_def)

lemma load_writes_zones_reset:
  "run_writes v (take (length rcs + 2) (load_writes rcs rs)) =
     v\<lparr>client_acls := map (fst \<circ> build_acl) rcs, client_zones := Map.empty\<rparr>"
proof -
  have "take (length rcs + 2) (load_writes rcs rs) =
      ([Set_acls []] @ map (\<lambda>rc. Append_acl (fst (build_acl rc))) rcs) @ [Set_zones Map.empty]"
    by (simp add: load_writes_def)
  then show ?thesis
    by (simp add: run_writes_append run_writes_appends comp_def)
qed

lemma resolve_no_acls: "resolve (v\<lparr>client_acls := []\<rparr>) ip q t = Not_handled"
  by (simp add: resolve_def)

lemma resolve_no_zones: "resolve (v\<lparr>client_zones := Map.empty\<rparr>) ip q t = Not_handled"
  by (simp add: resolve_def split: option.split)

subsection \<open>The reload goroutine\<close>

lemma load_config_settings [simp]:
  "client (fst (load_config env v)) = client v \<and>
   client_schema (fst (load_config env v)) = client_schema v \<and>
   record_source (fst (load_config env v)) = record_source v \<and>
   record_schema (fst (load_config env v)) = record_schema v \<and>
   reload_interval (fst (load_config env v)) = reload_interval v"
  by (simp add: load_config_def apply_load_state)

lemma reload_step_settings:
  "reload_step s s' \<Longrightarrow>
     client (rl_views s') = client (rl_views s) \<and> record_source (rl_views s') = record_source (rl_views s) \<and>
     client_schema (rl_views s') = client_schema (rl_views s) \<and>
     record_schema (rl_views s') = record_schema (rl_views s) \<and>
     reload_interval (rl_views s') = reload_interval (rl_views s)"
  by (erule reload_step.cases) simp_all

lemma reload_inv_init: "reload_inv v (reload_init v)"
  by (simp add: reload_inv_def reload_init_def)

lemma reload_inv_step: "reload_inv v s \<Longrightarrow> reload_step s s' \<Longrightarrow> reload_inv v s'"
  by (erule reload_step.cases) (auto simp: reload_inv_def)

subsection \<open>Properties of the refresh as readers see it\<close>


text \<open>C9: a query served while any
  refresh runs can see the handler with no ACL at all, and later the handler
  with every new ACL but no zone; in both states every query is declined,
  whatever the old and the new snapshot answer.\<close>

theorem refresh_exposes_declining_states:
  "v\<lparr>client_acls := []\<rparr> \<in> set (visible_states v (load_writes rcs rs)) \<and>
   v\<lparr>client_acls := map (fst \<circ> build_acl) rcs, client_zones := Map.empty\<rparr>
     \<in> set (visible_states v (load_writes rcs rs)) \<and>
   resolve (v\<lparr>client_acls := []\<rparr>) ip q t = Not_handled \<and>
   resolve (v\<lparr>client_acls := map (fst \<circ> build_acl) rcs, client_zones := Map.empty\<rparr>) ip q t = Not_handled"
proof -
  have "v\<lparr>client_acls := []\<rparr> \<in> set (visible_states v (load_writes rcs rs))"
    unfolding visible_states_iff using load_writes_first [of v rcs rs]
    by (intro exI [of _ 1]) (simp add: length_load_writes)
  moreover have "v\<lparr>client_acls := map (fst \<circ> build_acl) rcs, client_zones := Map.empty\<rparr>
      \<in> set (visible_states v (load_writes rcs rs))"
    unfolding visible_states_iff using load_writes_zones_reset [of v rcs rs]
    by (intro exI [of _ "length rcs + 2"]) (simp add: length_load_writes)
  ultimately show ?thesis
    using resolve_no_acls resolve_no_zones [of "v\<lparr>client_acls := map (fst \<circ> build_acl) rcs\<rparr>"]
    by simp
qed


subsection \<open>Properties of the reload goroutine\<close>

text \<open>C37: in every state the goroutine reaches, the
  parsed settings are unchanged, it has returned only after shutdown closed
  its channel, and it has panicked exactly when the interval is not positive,
  without any tick-driven load.\<close>

theorem reload_reachable_inv: "reload_reachable v s \<Longrightarrow> reload_inv v s"
  by (induction rule: reload_reachable.induct) (auto intro: reload_inv_init reload_inv_step)

text \<open>C38: once shutdown has closed the channel (and the startup load has
  run), each step of the goroutine either returns or takes a tick and runs
  \<open>loadConfig\<close> again, and any number of such loads can still happen:
  closing the channel does not stop the refreshes, since Go's \<open>select\<close>
  may keep choosing the ticker.\<close>

theorem reload_after_shutdown:
  assumes "reload_reachable v s" "rl_closed s" "rl_started s" "rl_phase s = Running"
  shows "(\<forall>s'. reload_step s s' \<longrightarrow> s' = s\<lparr>rl_phase := Exited\<rparr> \<or>
            (\<exists>env. s' = s\<lparr>rl_views := fst (load_config env (rl_views s)), rl_loads := Suc (rl_loads s)\<rparr>)) \<and>
         (\<forall>n. \<exists>s'. reload_step\<^sup>*\<^sup>* s s' \<and> rl_closed s' \<and> rl_phase s' = Running \<and>
                   rl_loads s' = rl_loads s + n)"
proof (intro conjI allI impI)
  fix s' assume "reload_step s s'"
  then show "s' = s\<lparr>rl_phase := Exited\<rparr> \<or>
      (\<exists>env. s' = s\<lparr>rl_views := fst (load_config env (rl_views s)), rl_loads := Suc (rl_loads s)\<rparr>)"
    using assms(2,3) by (cases rule: reload_step.cases) auto
next
  fix n
  show "\<exists>s'. reload_step\<^sup>*\<^sup>* s s' \<and> rl_closed s' \<and> rl_phase s' = Running \<and> rl_loads s' = rl_loads s + n"
  proof (induction n)
    case 0
    show ?case using assms(2,4) by auto
  next
    case (Suc n)
    then obtain s' where s': "reload_step\<^sup>*\<^sup>* s s'" "rl_closed s'" "rl_phase s' = Running"
      "rl_loads s' = rl_loads s + n" by blast
    obtain env :: load_env where True by simp
    let ?t = "s'\<lparr>rl_views := fst (load_config env (rl_views s')), rl_loads := Suc (rl_loads s')\<rparr>"
    have "reload_step s' ?t" by (rule reload_step.tick [OF s'(3)])
    with s' have "reload_step\<^sup>*\<^sup>* s ?t \<and> rl_closed ?t \<and> rl_phase ?t = Running \<and>
        rl_loads ?t = rl_loads s + Suc n"
      by (auto intro: rtranclp.rtrancl_into_rtrancl)
    then show ?case by blast
  qed
qed

text \<open>C39: from every reachable state in which the
  goroutine has not panicked, it can still return without running another
  load: shutdown closes the channel and \<open>select\<close> may take that case. A
  goroutine that has panicked never leaves that state and never loads
  again.\<close>

theorem reload_can_exit:
  assumes "reload_reachable v s"
  shows "(rl_phase s \<noteq> Panicked \<longrightarrow>
           (\<exists>s'. reload_step\<^sup>*\<^sup>* s s' \<and> rl_phase s' = Exited \<and> rl_loads s' = rl_loads s \<and>
                 rl_views s' = rl_views s)) \<and>
         (rl_phase s = Panicked \<longrightarrow>
           (\<forall>s'. reload_step\<^sup>*\<^sup>* s s' \<longrightarrow> rl_phase s' = Panicked \<and> rl_loads s' = rl_loads s))"
proof (rule conjI; intro impI allI)
  assume np: "rl_phase s \<noteq> Panicked"
  show "\<exists>s'. reload_step\<^sup>*\<^sup>* s s' \<and> rl_phase s' = Exited \<and> rl_loads s' = rl_loads s \<and>
      rl_views s' = rl_views s"
  proof (cases "rl_phase s")
    case Running
    let ?c = "s\<lparr>rl_closed := True\<rparr>"
    have c: "reload_step\<^sup>*\<^sup>* s ?c"
    proof (cases "rl_closed s")
      case True
      then have "?c = s" by (cases s) simp
      then show ?thesis by simp
    qed (auto intro: reload_step.shutdown)
    have "reload_step ?c (?c\<lparr>rl_phase := Exited\<rparr>)"
      using Running by (intro reload_step.stop) simp_all
    with c have "reload_step\<^sup>*\<^sup>* s (?c\<lparr>rl_phase := Exited\<rparr>)"
      by (rule rtranclp.rtrancl_into_rtrancl)
    then show ?thesis by fastforce
  qed (use np in auto)
next
  fix s' assume p: "rl_phase s = Panicked" and r: "reload_step\<^sup>*\<^sup>* s s'"
  from r p show "rl_phase s' = Panicked \<and> rl_loads s' = rl_loads s"
    by (induction rule: rtranclp_induct) (auto elim: reload_step.cases)
qed

text \<open>C40: \<open>setup\<close> accepts a \<open>reload\<close> duration that is zero or
  negative; the goroutine then panics in \<open>time.NewTicker\<close> and no periodic
  refresh ever runs.\<close>

theorem nonpositive_reload_never_reloads:
  assumes "schema_check c = Inr cs" "schema_check r = Inr rs" "pd d = Some n" "n \<le> 0"
  shows "\<exists>v. setup_views pd [[(''client'', [c]), (''record'', [r]), (''reload'', [d])]] = Inr (reload_init v) \<and>
             rl_phase (reload_init v) = Panicked \<and> (\<forall>s. reload_reachable v s \<longrightarrow> rl_loads s = 0)"
proof -
  let ?v = "\<lparr>client = c, client_schema = cs, record_source = r, record_schema = rs,
             reload_interval = n, client_acls = [], client_zones = Map.empty\<rparr>"
  have "parse pd [[(''client'', [c]), (''record'', [r]), (''reload'', [d])]] = Inr ?v"
    using assms schema_check_ne [OF assms(1)] schema_check_ne [OF assms(2)]
    by (simp add: parse_def parse_init_def)
  then have "setup_views pd [[(''client'', [c]), (''record'', [r]), (''reload'', [d])]] = Inr (reload_init ?v)"
    by (simp add: setup_views_def)
  moreover have "reload_reachable ?v s \<Longrightarrow> reload_inv ?v s" for s
    by (induction rule: reload_reachable.induct) (auto intro: reload_inv_init reload_inv_step)
  ultimately show ?thesis
    using assms(4) by (auto simp: reload_init_def reload_inv_def)
qed

end
