(* ===== verification/Fetch.thy ===== *)
theory Fetch
  imports Loader
begin

text \<open>
  The two fetches of \<open>loadConfig\<close>: \<open>parseFromYAML\<close> (src/setup.go lines
  239-251) and \<open>parseFromHTTP\<close> (lines 253-288), and the \<open>switch\<close> on the
  schema that picks one (lines 161-166 and 172-177). Each is a chain of
  library calls, each of which may fail; the first error is returned and the
  rest is skipped. The library calls are primitives of an I/O world
  (\<open>io_world\<close>): \<open>ioutil.ReadFile\<close>, \<open>url.Parse\<close> with \<open>u.String()\<close>,
  \<open>http.NewRequest\<close>, the server's answer and how long it takes,
  \<open>ioutil.ReadAll\<close> of the body, and \<open>yaml.Unmarshal\<close>/\<open>json.Unmarshal\<close>
  into the list, which return an optional error together with what they
  decoded (a decoder may fill part of the list before it fails). The
  \<open>http.Client\<close> is built with a 60-second timeout (lines 268-270): a
  server that does not answer within it makes \<open>client.Do\<close> fail.
  \<open>world_env\<close> turns a world into the environment \<open>load_env\<close> that
  \<open>load_config\<close> reads, so the refresh can be run against concrete I/O
  behaviour.
\<close>

record http_response =
  resp_status :: nat
  resp_body :: string

record io_world =
  read_file :: "string \<Rightarrow> string + string"
  url_parse :: "string \<Rightarrow> string + string"
  new_request :: "string \<Rightarrow> string option"
  http_latency :: "string \<Rightarrow> nat option"
  http_answer :: "string \<Rightarrow> string + http_response"
  read_all :: "http_response \<Rightarrow> string + string"
  yaml_clients :: "string \<Rightarrow> raw_client_acl fetched"
  json_clients :: "string \<Rightarrow> raw_client_acl fetched"
  yaml_records :: "string \<Rightarrow> raw_record fetched"
  json_records :: "string \<Rightarrow> raw_record fetched"

text \<open>\<open>Timeout: time.Duration(60) * time.Second\<close>, in seconds.\<close>

definition http_timeout :: nat where
  "http_timeout = 60"

definition timeout_error :: string where
  "timeout_error = ''Client.Timeout exceeded while awaiting headers''"

text \<open>\<open>client.Do(req)\<close> for a client with the given timeout: a server that
  never answers (\<open>None\<close>) or answers later than the timeout gives the
  timeout error.\<close>

definition client_do :: "io_world \<Rightarrow> nat \<Rightarrow> string \<Rightarrow> string + http_response" where
  "client_do w timeout u =
     (case http_latency w u of
        None \<Rightarrow> Inl timeout_error
      | Some t \<Rightarrow> if timeout < t then Inl timeout_error else http_answer w u)"

definition parse_from_yaml ::
  "(string \<Rightarrow> 'a fetched) \<Rightarrow> io_world \<Rightarrow> string \<Rightarrow> 'a fetched" where
  "parse_from_yaml unmarshal w filename =
     (case read_file w filename of
        Inl e \<Rightarrow> (Some e, [])
      | Inr file \<Rightarrow> unmarshal file)"

definition parse_from_http ::
  "(string \<Rightarrow> 'a fetched) \<Rightarrow> io_world \<Rightarrow> string \<Rightarrow> 'a fetched" where
  "parse_from_http unmarshal w endpoint =
     (case url_parse w endpoint of
        Inl e \<Rightarrow> (Some e, [])
      | Inr u \<Rightarrow>
          (case new_request w u of
             Some e \<Rightarrow> (Some e, [])
           | None \<Rightarrow>
               (case client_do w http_timeout u of
                  Inl e \<Rightarrow> (Some e, [])
                | Inr resp \<Rightarrow>
                    (case read_all w resp of
                       Inl e \<Rightarrow> (Some e, [])
                     | Inr body \<Rightarrow> unmarshal body))))"

text \<open>The \<open>switch v.ClientSchema\<close> and \<open>switch v.RecordSchema\<close> of
  \<open>loadConfig\<close>.\<close>

definition fetch_by_schema ::
  "(string \<Rightarrow> 'a fetched) \<Rightarrow> (string \<Rightarrow> 'a fetched) \<Rightarrow> io_world \<Rightarrow> schema \<Rightarrow> string \<Rightarrow> 'a fetched" where
  "fetch_by_schema yaml json w sc loc =
     (case sc of
        SchemaYAML \<Rightarrow> parse_from_yaml yaml w loc
      | SchemaHTTP \<Rightarrow> parse_from_http json w loc)"

definition world_env :: "io_world \<Rightarrow> load_env" where
  "world_env w =
     \<lparr>fetch_clients = fetch_by_schema (yaml_clients w) (json_clients w) w,
      fetch_records = fetch_by_schema (yaml_records w) (json_records w) w\<rparr>"

subsection \<open>The fetches as \<open>loadConfig\<close> sees them\<close>

lemma world_env_fetch [simp]:
  "fetch_clients (world_env w) sc loc = fetch_by_schema (yaml_clients w) (json_clients w) w sc loc"
  "fetch_records (world_env w) sc loc = fetch_by_schema (yaml_records w) (json_records w) w sc loc"
  by (simp_all add: world_env_def)

text \<open>A fetch that fails before decoding decodes nothing; \<open>loadConfig\<close>
  then installs no ACL and logs the error first.\<close>

lemma load_config_client_fetch_fails:
  assumes "fetch_clients env (client_schema v) (client v) = (Some e, [])"
  shows "client_acls (fst (load_config env v)) = [] \<and> hd (snd (load_config env v)) = Log_error e"
  using assms by (simp add: load_config_def apply_load_state apply_load_log log_fetch_error_def)

lemma client_do_in_time:
  "http_latency w u = Some t \<Longrightarrow> t \<le> timeout \<Longrightarrow> client_do w timeout u = http_answer w u"
  by (simp add: client_do_def)

text \<open>C8: the HTTP fetch never looks at the response status: when the server
  answers within the timeout, whatever it answers (a 404 or 500 page
  included) is read and handed to \<open>json.Unmarshal\<close> as the document.\<close>

theorem http_status_ignored:
  assumes "url_parse w ep = Inr u" "new_request w u = None" "http_latency w u = Some t" "t \<le> 60"
    and "http_answer w u = Inr resp" "read_all w resp = Inr body"
  shows "parse_from_http unmarshal w ep = unmarshal body"
  using assms by (simp add: parse_from_http_def client_do_in_time http_timeout_def)

text \<open>C7: a client-group server that does not answer within 60 seconds makes
  the HTTP fetch fail with the timeout error, so the refresh ends (it is not
  blocked), but it installs no ACL at all instead of keeping the previous
  ones, and logs the timeout.\<close>

theorem stalled_server_blanks_acls:
  assumes "client_schema v = SchemaHTTP" "url_parse w (client v) = Inr u" "new_request w u = None"
    and "\<forall>t. http_latency w u = Some t \<longrightarrow> 60 < t"
  shows "fetch_clients (world_env w) (client_schema v) (client v) = (Some timeout_error, []) \<and>
         client_acls (fst (load_config (world_env w) v)) = [] \<and>
         hd (snd (load_config (world_env w) v)) = Log_error timeout_error"
proof -
  have "client_do w http_timeout u = Inl timeout_error"
    using assms(4) by (cases "http_latency w u") (auto simp: client_do_def http_timeout_def)
  then have "fetch_clients (world_env w) (client_schema v) (client v) = (Some timeout_error, [])"
    using assms(1-3) by (simp add: fetch_by_schema_def parse_from_http_def)
  then show ?thesis using load_config_client_fetch_fails by blast
qed

text \<open>A client file that cannot be read makes the YAML fetch fail with
  the read error; the refresh installs no ACL and logs that error.\<close>

theorem unreadable_file_blanks_acls:
  assumes "client_schema v = SchemaYAML" "read_file w (client v) = Inl e"
  shows "fetch_clients (world_env w) (client_schema v) (client v) = (Some e, []) \<and>
         client_acls (fst (load_config (world_env w) v)) = [] \<and>
         hd (snd (load_config (world_env w) v)) = Log_error e"
proof -
  have "fetch_clients (world_env w) (client_schema v) (client v) = (Some e, [])"
    using assms by (simp add: fetch_by_schema_def parse_from_yaml_def)
  then show ?thesis using load_config_client_fetch_fails by blast
qed

end
