(* ===== verification/Duration.thy ===== *)
theory Duration
  imports Cidr
begin

text \<open>
  \<open>time.ParseDuration\<close> as \<open>parse\<close> calls it on the argument of a
  \<open>reload\<close> line (src/setup.go, line 108), after the Go 1.15 to 1.21
  standard library. The text is an optional sign and a sequence of
  components \<open>[0-9]*(\.[0-9]*)?unit\<close>; each component's value is
  accumulated in a \<open>uint64\<close> with explicit overflow checks against
  \<open>1<<63\<close>, and the sum is turned into a signed \<open>Duration\<close> (nanoseconds,
  \<open>int64\<close>). The model keeps every \<open>uint64\<close> as a \<open>64 word\<close>, so that
  each addition and multiplication wraps exactly where Go's would; the result
  is read with \<open>sint\<close>. An error is a value of \<open>duration_error\<close>, one
  constructor per message of the library: invalid duration (bad syntax or
  overflow), missing unit, unknown unit; \<open>parse_duration\<close>, the function
  \<open>parse\<close> is given, forgets which.

  The contribution of a fraction, \<open>uint64(float64(f) * (float64(unit) /
  scale))\<close>, is computed in \<open>float64\<close>; HOL has no IEEE arithmetic here,
  so this one conversion is a parameter \<open>fr\<close> of the model, applied to the
  fraction digits' value \<open>f\<close>, the unit and the number \<open>k\<close> of digits in
  \<open>scale = 10^k\<close>. Everything else is computed exactly as Go does.
\<close>

type_synonym frac_conv = "64 word \<Rightarrow> 64 word \<Rightarrow> nat \<Rightarrow> 64 word"

datatype duration_error = Invalid_duration | Missing_unit | Unknown_unit string

text \<open>\<open>unitMap\<close>; the two spellings of microseconds are the UTF-8 bytes of
  U+00B5 and U+03BC followed by \<open>s\<close>.\<close>

definition unit_map :: "(string \<times> 64 word) list" where
  "unit_map =
     [(''ns'', 1), (''us'', 1000),
      ([CHR 0xC2, CHR 0xB5, CHR ''s''], 1000),
      ([CHR 0xCE, CHR 0xBC, CHR ''s''], 1000),
      (''ms'', 1000000), (''s'', 1000000000), (''m'', 60000000000), (''h'', 3600000000000)]"

text \<open>\<open>leadingInt\<close>: the leading decimal digits, \<open>None\<close> (\<open>errLeadingInt\<close>)
  when the value would exceed \<open>1<<63\<close>; the first argument is the value
  accumulated so far (0 at the call).\<close>

fun leading_int :: "64 word \<Rightarrow> string \<Rightarrow> (64 word \<times> string) option" where
  "leading_int x [] = Some (x, [])"
| "leading_int x (c # cs) =
     (if \<not> is_digit c then Some (x, c # cs)
      else if 0x8000000000000000 div 10 < x then None
      else
        let x' = x * 10 + of_nat (digit_val c)
        in if 0x8000000000000000 < x' then None else leading_int x' cs)"

text \<open>\<open>leadingFraction\<close>: the digits after the point; once the value would
  overflow it stops accumulating (and stops scaling) but still consumes the
  digits. It returns the value, the number of digits accumulated and the
  rest.\<close>

fun leading_fraction :: "64 word \<Rightarrow> nat \<Rightarrow> bool \<Rightarrow> string \<Rightarrow> 64 word \<times> nat \<times> string" where
  "leading_fraction x k ovf [] = (x, k, [])"
| "leading_fraction x k ovf (c # cs) =
     (if \<not> is_digit c then (x, k, c # cs)
      else if ovf then leading_fraction x k True cs
      else if 0x7FFFFFFFFFFFFFFF div 10 < x then leading_fraction x k True cs
      else
        let y = x * 10 + of_nat (digit_val c)
        in if 0x8000000000000000 < y then leading_fraction x k True cs
           else leading_fraction y (Suc k) False cs)"

definition unit_end :: "char \<Rightarrow> bool" where
  "unit_end c \<longleftrightarrow> c = dot \<or> is_digit c"

text \<open>The loop \<open>for s != ""\<close>: one component per round, added to the
  running sum \<open>d\<close>.\<close>

function duration_loop :: "frac_conv \<Rightarrow> 64 word \<Rightarrow> string \<Rightarrow> duration_error + 64 word" where
  "duration_loop fr d s =
     (if s = [] then Inr d
      else if \<not> unit_end (hd s) then Inl Invalid_duration
      else
        (case leading_int 0 s of
           None \<Rightarrow> Inl Invalid_duration
         | Some (v, s1) \<Rightarrow>
             let pre = (length s1 \<noteq> length s);
                 (f, k, s2, post) =
                   (if s1 \<noteq> [] \<and> hd s1 = dot then
                      (case leading_fraction 0 0 False (tl s1) of
                         (f, k, r) \<Rightarrow> (f, k, r, length r \<noteq> length (tl s1)))
                    else (0, 0, s1, False))
             in if \<not> pre \<and> \<not> post then Inl Invalid_duration
                else
                  let i = length (takeWhile (\<lambda>c. \<not> unit_end c) s2)
                  in if i = 0 then Inl Missing_unit
                     else
                       (case map_of unit_map (take i s2) of
                          None \<Rightarrow> Inl (Unknown_unit (take i s2))
                        | Some u \<Rightarrow>
                            if 0x8000000000000000 div u < v then Inl Invalid_duration
                            else
                              let v' = v * u;
                                  v'' = (if 0 < f then v' + fr f u k else v')
                              in if 0 < f \<and> 0x8000000000000000 < v'' then Inl Invalid_duration
                                 else
                                   let d' = d + v''
                                   in if 0x8000000000000000 < d' then Inl Invalid_duration
                                      else duration_loop fr d' (drop i s2))))"
  by pat_completeness auto
termination
proof -
  have li: "length r \<le> length s" if "leading_int x s = Some (v, r)" for x s v r
    using that by (induction x s rule: leading_int.induct) (auto simp: Let_def split: if_splits)
  have lf: "length (snd (snd (leading_fraction x k ov s))) \<le> length s" for x k ov s
    by (induction x k ov s rule: leading_fraction.induct) (auto simp: Let_def intro: le_SucI)
  have fr: "length r \<le> length y"
    if "(f, k, r, b) = (if y \<noteq> [] \<and> hd y = dot then
            (case leading_fraction 0 0 False (tl y) of (f, k, r) \<Rightarrow> (f, k, r, length r \<noteq> length (tl y)))
          else (0, 0, y, False))" for f k r b y
    using that lf [of 0 0 False "tl y"] by (auto split: if_splits prod.splits)
  have tw: "length (drop (length (takeWhile P r)) r) < length r" if "takeWhile P r \<noteq> []" for P and r :: string
    using that by (cases r) auto
  show ?thesis
    apply (relation "measure (\<lambda>(fr, d, s). length s)")
     apply simp
    apply (simp only: in_measure split_conv)
    apply clarify
    apply (drule li)
    apply (drule fr)+
    apply (drule tw)
    apply linarith
    done
qed

declare duration_loop.simps [simp del]

text \<open>\<open>ParseDuration\<close>: the sign, the special case \<open>"0"\<close>, the loop, and
  the conversion to \<open>Duration\<close>; a negative sum may reach \<open>-(1<<63)\<close>.\<close>

definition parse_duration_result :: "frac_conv \<Rightarrow> string \<Rightarrow> duration_error + int" where
  "parse_duration_result fr orig =
     (let (neg, s) = (case orig of
                        [] \<Rightarrow> (False, [])
                      | c # r \<Rightarrow>
                          if c = CHR ''-'' \<or> c = CHR ''+'' then (c = CHR ''-'', r) else (False, orig))
      in if s = ''0'' then Inr 0
         else if s = [] then Inl Invalid_duration
         else
           (case duration_loop fr 0 s of
              Inl e \<Rightarrow> Inl e
            | Inr d \<Rightarrow>
                if neg then Inr (sint (- d))
                else if 0x7FFFFFFFFFFFFFFF < d then Inl Invalid_duration
                else Inr (sint d)))"

text \<open>The duration or nothing, as \<open>parse\<close> uses the result: every error
  returns from \<open>parse\<close> unchanged.\<close>

definition parse_duration :: "frac_conv \<Rightarrow> string \<Rightarrow> int option" where
  "parse_duration fr s = (case parse_duration_result fr s of Inl _ \<Rightarrow> None | Inr d \<Rightarrow> Some d)"

text \<open>The error's text: \<open>quote\<close> of the time package puts the text in double
  quotes, escapes \<open>"\<close> and \<open>\\\<close> with a backslash and writes every byte
  below \<open>0x20\<close> or from \<open>0x80\<close> on as \<open>\\xHH\<close> (lower-case hex). Go
  loops over runes, but escapes each byte of a multi-byte rune and each
  byte of invalid UTF-8 in the same way, so a loop over bytes computes the
  same text.\<close>

definition lowerhex :: string where
  "lowerhex = ''0123456789abcdef''"

definition quote_char :: "char \<Rightarrow> string" where
  "quote_char c =
     (let n = of_char c :: nat in
      if 128 \<le> n \<or> n < 32 then [backslash, CHR ''x'', lowerhex ! (n div 16), lowerhex ! (n mod 16)]
      else if c = CHR 0x22 \<or> c = backslash then [backslash, c]
      else [c])"

definition time_quote :: "string \<Rightarrow> string" where
  "time_quote s = CHR 0x22 # concat (map quote_char s) @ [CHR 0x22]"

fun duration_error_text :: "string \<Rightarrow> duration_error \<Rightarrow> string" where
  "duration_error_text orig Invalid_duration = ''time: invalid duration '' @ time_quote orig"
| "duration_error_text orig Missing_unit = ''time: missing unit in duration '' @ time_quote orig"
| "duration_error_text orig (Unknown_unit u) =
     ''time: unknown unit '' @ time_quote u @ '' in duration '' @ time_quote orig"

text \<open>The abstract reading of a duration: a list of integer components, each a
  count and a unit of \<open>unitMap\<close>, written one after the other, and the
  number of nanoseconds it denotes.\<close>

definition duration_text :: "(nat \<times> string) list \<Rightarrow> string" where
  "duration_text cs = concat (map (\<lambda>(n, u). dec_string n @ u) cs)"

definition duration_value :: "(nat \<times> string) list \<Rightarrow> nat" where
  "duration_value cs = sum_list (map (\<lambda>(n, u). n * unat (the (map_of unit_map u))) cs)"


subsection \<open>Evaluation\<close>

lemma duration_loop_Nil: "duration_loop fr d [] = Inr d"
  by (simp add: duration_loop.simps)

lemma duration_loop_Cons:
  "duration_loop fr d (c # cs) =
     (if \<not> unit_end c then Inl Invalid_duration
      else
        (case leading_int 0 (c # cs) of
           None \<Rightarrow> Inl Invalid_duration
         | Some (v, s1) \<Rightarrow>
             let pre = (length s1 \<noteq> length (c # cs));
                 (f, k, s2, post) =
                   (if s1 \<noteq> [] \<and> hd s1 = dot then
                      (case leading_fraction 0 0 False (tl s1) of
                         (f, k, r) \<Rightarrow> (f, k, r, length r \<noteq> length (tl s1)))
                    else (0, 0, s1, False))
             in if \<not> pre \<and> \<not> post then Inl Invalid_duration
                else
                  let i = length (takeWhile (\<lambda>c. \<not> unit_end c) s2)
                  in if i = 0 then Inl Missing_unit
                     else
                       (case map_of unit_map (take i s2) of
                          None \<Rightarrow> Inl (Unknown_unit (take i s2))
                        | Some u \<Rightarrow>
                            if 0x8000000000000000 div u < v then Inl Invalid_duration
                            else
                              let v' = v * u;
                                  v'' = (if 0 < f then v' + fr f u k else v')
                              in if 0 < f \<and> 0x8000000000000000 < v'' then Inl Invalid_duration
                                 else
                                   let d' = d + v''
                                   in if 0x8000000000000000 < d' then Inl Invalid_duration
                                      else duration_loop fr d' (drop i s2))))"
  by (subst duration_loop.simps) simp

lemmas duration_eval = parse_duration_def parse_duration_result_def duration_loop_Nil duration_loop_Cons unit_map_def
  unit_end_def is_digit_def digit_val_def Let_def

subsection \<open>Integer components\<close>

text \<open>Word arithmetic of the loops: below the checks no \<open>uint64\<close> operation
  wraps, so the words read as the natural numbers Go means.\<close>

lemma unat_of_nat_64: "n < 2 ^ 64 \<Longrightarrow> unat (word_of_nat n :: 64 word) = n"
  by (simp add: unsigned_of_nat take_bit_nat_eq_self)

lemma sint_of_nat_64: "m < 2 ^ 63 \<Longrightarrow> sint (word_of_nat m :: 64 word) = int m"
  by (simp add: signed_of_nat signed_take_bit_int_eq_self)

lemma sint_uminus_of_nat_64: "m \<le> 2 ^ 63 \<Longrightarrow> sint (- word_of_nat m :: 64 word) = - int m"
proof -
  assume m: "m \<le> 2 ^ 63"
  have e: "(- word_of_nat m :: 64 word) = word_of_int (- int m)" by simp
  have "int m \<le> 2 ^ 63" using m by simp
  then have "- (2 ^ 63) \<le> - int m" by linarith
  moreover have "- int m < 2 ^ 63" by (rule le_less_trans [of _ 0]) simp_all
  ultimately show ?thesis
    by (simp only: e signed_of_int) (simp add: signed_take_bit_int_eq_self)
qed

lemma unat_dec_step_word:
  fixes x :: "64 word"
  assumes "unat x \<le> 922337203685477580" "d < 10"
  shows "unat (x * 10 + of_nat d) = unat x * 10 + d"
proof -
  have e: "x * 10 + of_nat d = word_of_nat (unat x * 10 + d)" by simp
  show ?thesis by (subst e, rule unat_of_nat_64) (use assms in simp)
qed

text \<open>\<open>leadingInt\<close> on a run of digits reads their decimal value, or fails
  when it exceeds \<open>1<<63\<close>.\<close>

lemma leading_int_digits:
  fixes x :: "64 word"
  assumes "\<forall>c \<in> set ds. is_digit c" "rest = [] \<or> \<not> is_digit (hd rest)" "unat x \<le> 2 ^ 63"
  shows "leading_int x (ds @ rest) =
           (if foldl dec_step (unat x) ds \<le> 2 ^ 63 then Some (of_nat (foldl dec_step (unat x) ds), rest)
            else None)"
  using assms
proof (induction ds arbitrary: x)
  case Nil
  then show ?case by (cases rest) auto
next
  case (Cons c ds)
  have c: "is_digit c" "digit_val c < 10" using Cons.prems(1) by (auto simp: is_digit_def digit_val_def)
  have ge: "dec_step (unat x) c \<le> foldl dec_step (dec_step (unat x) c) ds" by (rule foldl_dec_step_ge)
  show ?case
  proof (cases "922337203685477580 < unat x")
    case True
    then have "2 ^ 63 < dec_step (unat x) c" by (simp add: dec_step_def)
    with True ge c show ?thesis by (simp add: word_less_nat_alt unat_div)
  next
    case False
    let ?x' = "x * 10 + of_nat (digit_val c)"
    have u: "unat ?x' = dec_step (unat x) c" using False c unat_dec_step_word by (simp add: dec_step_def)
    show ?thesis
    proof (cases "2 ^ 63 < unat ?x'")
      case True
      with False ge c u show ?thesis by (simp add: word_less_nat_alt unat_div Let_def)
    next
      case F2: False
      then have "leading_int ?x' (ds @ rest) =
          (if foldl dec_step (unat ?x') ds \<le> 2 ^ 63 then Some (of_nat (foldl dec_step (unat ?x') ds), rest)
           else None)"
        using Cons.IH Cons.prems by simp
      with False F2 c u show ?thesis by (simp add: word_less_nat_alt unat_div Let_def)
    qed
  qed
qed

lemma unit_map_unit:
  assumes "map_of unit_map u = Some w"
  shows "u \<noteq> [] \<and> (\<forall>c \<in> set u. \<not> unit_end c) \<and> 1 \<le> unat w \<and> unat w \<le> 3600000000000"
proof -
  have "(u, w) \<in> set unit_map" using assms by (rule map_of_SomeD)
  then show ?thesis by (auto simp: unit_map_def unit_end_def is_digit_def)
qed

text \<open>One round of the loop on a component \<open>n\<close> and a unit: the overflow
  checks reduce to \<open>n * unit \<le> 2^63\<close> and to the running sum staying
  within \<open>2^63\<close>, except that a sum of exactly \<open>2^64\<close> wraps to 0 and
  passes the check.\<close>

lemma duration_loop_component:
  assumes "map_of unit_map u = Some w" "rest = [] \<or> unit_end (hd rest)" "unat d \<le> 2 ^ 63"
  shows "duration_loop fr d (dec_string n @ u @ rest) =
           (if n * unat w \<le> 2 ^ 63 \<and> unat d + n * unat w \<le> 2 ^ 63
            then duration_loop fr (word_of_nat (unat d + n * unat w)) rest
            else if n * unat w \<le> 2 ^ 63 \<and> unat d + n * unat w = 2 ^ 64 then duration_loop fr 0 rest
            else Inl Invalid_duration)"
proof -
  from unit_map_unit [OF assms(1)] have u: "u \<noteq> []" "\<forall>c \<in> set u. \<not> unit_end c"
    and w: "1 \<le> unat w" "unat w \<le> 3600000000000" by auto
  have nd: "\<not> is_digit (hd (u @ rest))" "hd (u @ rest) \<noteq> dot" "u @ rest \<noteq> []"
    using u by (auto simp: unit_end_def)
  obtain c cs where cs: "dec_string n @ u @ rest = c # cs" by (cases "dec_string n") auto
  have c: "unit_end c"
    using cs dec_string_digits [of n] by (cases "dec_string n") (auto simp: unit_end_def)
  have li: "leading_int 0 (dec_string n @ u @ rest) =
      (if n \<le> 2 ^ 63 then Some (of_nat n, u @ rest) else None)"
    using leading_int_digits [of "dec_string n" "u @ rest" 0] dec_string_digits [of n] nd
    by (simp add: digits_value_dec_string [unfolded digits_value_def])
  have tw: "takeWhile (\<lambda>c. \<not> unit_end c) (u @ rest) = u"
    using u assms(2) by (cases rest) (auto simp: takeWhile_append2 takeWhile_eq_all_conv)
  show ?thesis
  proof (cases "n \<le> 2 ^ 63")
    case False
    then have "\<not> n * unat w \<le> 2 ^ 63" using w by (metis le_trans mult_le_mono2 mult.right_neutral not_le)
    with False show ?thesis
      using duration_loop_Cons [of fr d c cs] c li by (simp add: cs [symmetric])
  next
    case True
    have dv: "(0x8000000000000000 div w < (word_of_nat n :: 64 word)) \<longleftrightarrow> \<not> n * unat w \<le> 2 ^ 63"
    proof -
      have "(0x8000000000000000 div w < (word_of_nat n :: 64 word)) \<longleftrightarrow> 2 ^ 63 div unat w < n"
        using True by (simp add: word_less_nat_alt unat_div unat_of_nat_64)
      also have "\<dots> \<longleftrightarrow> 2 ^ 63 < n * unat w" using w by (simp add: div_less_iff_less_mult)
      finally show ?thesis by linarith
    qed
    show ?thesis
    proof (cases "n * unat w \<le> 2 ^ 63")
      case False
      then show ?thesis
        using duration_loop_Cons [of fr d c cs] c li True nd dv
        by (simp add: cs [symmetric] tw u(1) assms(1) Let_def)
    next
      case v: True
      have e: "d + (word_of_nat n :: 64 word) * w = word_of_nat (unat d + n * unat w)" by simp
      have s: "unat d + n * unat w \<le> 2 ^ 64" using v assms(3) by simp
      have body: "duration_loop fr d (dec_string n @ u @ rest) =
          (if 0x8000000000000000 < (word_of_nat (unat d + n * unat w) :: 64 word) then Inl Invalid_duration
           else duration_loop fr (word_of_nat (unat d + n * unat w)) rest)"
        using duration_loop_Cons [of fr d c cs] c li True nd dv v
        by (simp add: cs [symmetric] tw u(1) assms(1) Let_def e [symmetric])
      show ?thesis
      proof (cases "unat d + n * unat w = 2 ^ 64")
        case True
        then have z: "(word_of_nat (unat d + n * unat w) :: 64 word) = 0" by simp
        from body have "duration_loop fr d (dec_string n @ u @ rest) =
            (if 0x8000000000000000 < (0 :: 64 word) then Inl Invalid_duration else duration_loop fr 0 rest)"
          unfolding z .
        with True v show ?thesis by simp
      next
        case False
        with s have "unat d + n * unat w < 2 ^ 64" by linarith
        then have "unat (word_of_nat (unat d + n * unat w) :: 64 word) = unat d + n * unat w"
          by (rule unat_of_nat_64)
        with False v body show ?thesis by (simp add: word_less_nat_alt)
      qed
    qed
  qed
qed

lemma duration_loop_integer:
  assumes "map_of unit_map u = Some w"
  shows "duration_loop fr 0 (dec_string n @ u) =
           (if n * unat w \<le> 2 ^ 63 then Inr (word_of_nat (n * unat w)) else Inl Invalid_duration)"
  using duration_loop_component [OF assms, of "[]" 0 fr n] by (simp add: duration_loop_Nil)

text \<open>The sign and the special case \<open>"0"\<close> for a text that starts with a
  digit.\<close>

lemma parse_duration_sign:
  assumes "s \<noteq> []" "is_digit (hd s)" "s \<noteq> ''0''"
  shows "parse_duration fr s =
           (case duration_loop fr 0 s of
              Inl _ \<Rightarrow> None
            | Inr d \<Rightarrow> if 0x7FFFFFFFFFFFFFFF < d then None else Some (sint d))"
    and "parse_duration fr (CHR ''-'' # s) =
           (case duration_loop fr 0 s of Inl _ \<Rightarrow> None | Inr d \<Rightarrow> Some (sint (- d)))"
proof -
  obtain c cs where s: "s = c # cs" using assms(1) by (cases s) auto
  then have "c \<noteq> CHR ''-'' \<and> c \<noteq> CHR ''+''" using assms(2) by (auto simp: is_digit_def)
  with s assms(3) show "parse_duration fr s =
           (case duration_loop fr 0 s of
              Inl _ \<Rightarrow> None
            | Inr d \<Rightarrow> if 0x7FFFFFFFFFFFFFFF < d then None else Some (sint d))"
    by (auto simp: parse_duration_def parse_duration_result_def split: sum.split)
  from s assms(3) show "parse_duration fr (CHR ''-'' # s) =
           (case duration_loop fr 0 s of Inl _ \<Rightarrow> None | Inr d \<Rightarrow> Some (sint (- d)))"
    by (auto simp: parse_duration_def parse_duration_result_def split: sum.split)
qed

text \<open>C29: a duration written as a decimal number and one
  unit of \<open>unitMap\<close> is that many units in nanoseconds when the product is
  below \<open>2^63\<close> and an error otherwise; with a minus sign it is the negated
  product, which may reach \<open>-2^63\<close>. So \<open>ParseDuration\<close> never wraps on
  a single component, and it accepts zero and negative durations.\<close>

theorem parse_duration_integer:
  assumes "map_of unit_map u = Some w"
  shows "parse_duration fr (dec_string n @ u) =
           (if n * unat w < 2 ^ 63 then Some (int (n * unat w)) else None) \<and>
         parse_duration fr (CHR ''-'' # dec_string n @ u) =
           (if n * unat w \<le> 2 ^ 63 then Some (- int (n * unat w)) else None)"
proof -
  let ?s = "dec_string n @ u" and ?m = "n * unat w"
  have u: "u \<noteq> []" using unit_map_unit [OF assms] by simp
  have d: "?s \<noteq> []" "is_digit (hd ?s)"
    using dec_string_digits [of n] by (cases "dec_string n"; simp)+
  have "length ?s \<noteq> 1" using u by (cases "dec_string n") auto
  then have z: "?s \<noteq> ''0''" by (auto dest: arg_cong [where f = length])
  have big: "(0x7FFFFFFFFFFFFFFF < (word_of_nat ?m :: 64 word)) \<longleftrightarrow> \<not> ?m < 2 ^ 63" if "?m \<le> 2 ^ 63"
  proof -
    have "unat (word_of_nat ?m :: 64 word) = ?m" by (rule unat_of_nat_64) (use that in simp)
    then show ?thesis by (simp only: word_less_nat_alt) (simp, presburger)
  qed
  show ?thesis
    using parse_duration_sign [OF d z, of fr] duration_loop_integer [OF assms, of fr n]
    by (auto simp: big sint_of_nat_64 sint_uminus_of_nat_64 simp del: of_nat_mult)
qed

lemma duration_text_Cons: "duration_text ((n, u) # cs) = dec_string n @ u @ duration_text cs"
  by (simp add: duration_text_def)

lemma duration_text_start: "duration_text cs = [] \<or> unit_end (hd (duration_text cs))"
proof (cases cs)
  case (Cons c cs')
  obtain n u where "c = (n, u)" by (cases c)
  with Cons show ?thesis
    using dec_string_digits [of n] by (cases "dec_string n") (auto simp: duration_text_Cons unit_end_def)
qed (simp add: duration_text_def)

text \<open>A sequence of integer components whose sum stays within \<open>2^63\<close> is
  added up without wrap-around.\<close>

lemma duration_loop_components:
  assumes "\<forall>(n, u) \<in> set cs. u \<in> dom (map_of unit_map)" "unat d + duration_value cs \<le> 2 ^ 63"
  shows "duration_loop fr d (duration_text cs) = Inr (word_of_nat (unat d + duration_value cs))"
  using assms
proof (induction cs arbitrary: d)
  case Nil
  then show ?case by (simp add: duration_text_def duration_value_def duration_loop_Nil)
next
  case (Cons c cs)
  obtain n u where c: "c = (n, u)" by (cases c)
  with Cons.prems(1) obtain w where w: "map_of unit_map u = Some w" by auto
  have v: "duration_value ((n, u) # cs) = n * unat w + duration_value cs"
    using w by (simp add: duration_value_def)
  let ?d = "word_of_nat (unat d + n * unat w) :: 64 word"
  have le: "n * unat w \<le> 2 ^ 63" "unat d + n * unat w \<le> 2 ^ 63" "unat d \<le> 2 ^ 63"
    using Cons.prems(2) c v by simp_all
  then have ud: "unat ?d = unat d + n * unat w" by (intro unat_of_nat_64) simp
  have "duration_loop fr d (duration_text (c # cs)) = duration_loop fr ?d (duration_text cs)"
    using duration_loop_component [OF w duration_text_start le(3), of fr n] le
    by (simp add: c duration_text_Cons)
  also have "\<dots> = Inr (word_of_nat (unat ?d + duration_value cs))"
    using Cons.IH [of ?d] Cons.prems c v ud by simp
  finally show ?case using c v ud by (simp add: add.assoc)
qed

text \<open>C28: \<open>ParseDuration\<close> implements the arithmetic
  reading of a duration: a text of integer components whose total is at
  most \<open>2^63\<close> nanoseconds denotes that total, an error when it is exactly
  \<open>2^63\<close>, and with a minus sign the negated total. The bound cannot be
  dropped: beyond it the \<open>uint64\<close> sum may wrap.\<close>

theorem parse_duration_refines:
  assumes "cs \<noteq> []" "\<forall>(n, u) \<in> set cs. u \<in> dom (map_of unit_map)" "duration_value cs \<le> 2 ^ 63"
  shows "parse_duration fr (duration_text cs) =
           (if duration_value cs < 2 ^ 63 then Some (int (duration_value cs)) else None) \<and>
         parse_duration fr (CHR ''-'' # duration_text cs) = Some (- int (duration_value cs))"
proof -
  let ?s = "duration_text cs" and ?m = "duration_value cs"
  obtain n u cs' where cs: "cs = (n, u) # cs'" using assms(1) by (cases cs) auto
  with assms(2) have "u \<noteq> []" using unit_map_unit by fastforce
  then have d: "?s \<noteq> []" "is_digit (hd ?s)" "length ?s \<noteq> 1"
    using dec_string_digits [of n] by (cases "dec_string n"; simp add: cs duration_text_Cons)+
  then have z: "?s \<noteq> ''0''" by (auto dest: arg_cong [where f = length])
  have loop: "duration_loop fr 0 ?s = Inr (word_of_nat ?m)"
    using duration_loop_components [OF assms(2), of 0 fr] assms(3) by simp
  have big: "(0x7FFFFFFFFFFFFFFF < (word_of_nat ?m :: 64 word)) \<longleftrightarrow> \<not> ?m < 2 ^ 63"
  proof -
    have "unat (word_of_nat ?m :: 64 word) = ?m" by (rule unat_of_nat_64) (use assms(3) in simp)
    then show ?thesis by (simp only: word_less_nat_alt) (simp, presburger)
  qed
  show ?thesis
    using parse_duration_sign [OF d(1,2) z, of fr] loop assms(3)
    by (auto simp: big sint_of_nat_64 sint_uminus_of_nat_64 simp del: of_nat_mult)
qed


end
