(* ===== verification/Logging.thy ===== *)
theory Logging
  imports Publish Duration
begin

text \<open>
  What the plugin writes and returns as text (src/setup.go). The logger is
  \<open>clog.NewWithPlugin("views")\<close> (line 23) of CoreDNS's \<open>plugin/pkg/log\<close>:
  \<open>log.Error(err)\<close> (lines 169, 179) writes the level \<open>[ERROR] \<close>, the
  plugin prefix \<open>plugin/views: \<close> and \<open>fmt.Sprint(err)\<close>;
  \<open>log.Warningf\<close> (line 189) writes \<open>[WARNING] \<close>, the prefix and the
  formatted message. The model is the text of one log line after the
  logger's timestamp and without the final newline.

  \<open>setup\<close> returns \<open>plugin.Error("views", err)\<close> (line 50), which is
  \<open>fmt.Errorf("%s/%s: %s", "plugin", name, err)\<close>; the messages of
  \<open>err\<close> are those of \<open>parse\<close> (lines 113, 123, 125), of
  \<open>schemaCheck\<close> (line 296) and of \<open>time.ParseDuration\<close> (line 108, the
  \<open>duration_error\<close> of the Duration theory, recomputed from the token
  that failed). The index out of range (lines 95, 101, 107) is a Go runtime
  panic: \<open>setup\<close> does not return, and the process prints the panic
  message.
\<close>

definition plugin_name :: string where
  "plugin_name = ''views''"

text \<open>\<open>pFormat\<close> and the level strings of \<open>plugin/pkg/log\<close>.\<close>

definition p_format :: "string \<Rightarrow> string" where
  "p_format name = ''plugin/'' @ name @ '': ''"

definition level_error :: string where
  "level_error = ''[ERROR] ''"

definition level_warning :: string where
  "level_warning = ''[WARNING] ''"

fun log_text :: "log_entry \<Rightarrow> string" where
  "log_text (Log_error msg) = level_error @ p_format plugin_name @ msg"
| "log_text (Log_warning name cidr) =
     level_warning @ p_format plugin_name @ ''invalid CIDR address: '' @ name @ '' ('' @ cidr @ '')''"

text \<open>The lines one refresh writes, in order.\<close>

definition load_config_output :: "load_env \<Rightarrow> views \<Rightarrow> string list" where
  "load_config_output env v = map log_text (snd (load_config env v))"

subsection \<open>Errors of \<open>setup\<close>\<close>

definition plugin_error :: "string \<Rightarrow> string \<Rightarrow> string" where
  "plugin_error name err = ''plugin/'' @ name @ '': '' @ err"

text \<open>The message of an error \<open>parse\<close> returns, with \<open>time.ParseDuration\<close>
  run as \<open>parse_duration_result fr\<close>.\<close>

fun setup_error_text :: "frac_conv \<Rightarrow> setup_error \<Rightarrow> string" where
  "setup_error_text fr (Unknown_schema s) = ''unknown schema: '' @ s"
| "setup_error_text fr (Unknown_argument k) = ''unknown argument: '' @ k"
| "setup_error_text fr (Missing_argument a) = ''required argument is missing: '' @ [CHR 0x27] @ a @ [CHR 0x27]"
| "setup_error_text fr (Duration_error a) =
     (case parse_duration_result fr a of Inl e \<Rightarrow> duration_error_text a e | Inr _ \<Rightarrow> [])"
| "setup_error_text fr Index_out_of_range = ''runtime error: index out of range [0] with length 0''"

datatype setup_outcome = Setup_ok reload_state | Setup_failed string | Setup_panic string

definition setup_run :: "frac_conv \<Rightarrow> corefile_line list list \<Rightarrow> setup_outcome" where
  "setup_run fr blocks =
     (case setup_views (parse_duration fr) blocks of
        Inr s \<Rightarrow> Setup_ok s
      | Inl Index_out_of_range \<Rightarrow> Setup_panic (''panic: '' @ setup_error_text fr Index_out_of_range)
      | Inl e \<Rightarrow> Setup_failed (plugin_error plugin_name (setup_error_text fr e)))"

subsection \<open>Reading a quoted text back\<close>

text \<open>A decoder for \<open>time_quote\<close>, used to show that the quoted token in
  a duration error determines the token.\<close>

definition hex_val :: "char \<Rightarrow> nat option" where
  "hex_val c = map_of (zip lowerhex [0..<16]) c"

fun unquote_chars :: "string \<Rightarrow> string option" where
  "unquote_chars [] = Some []"
| "unquote_chars (c # cs) =
     (if c \<noteq> backslash then map_option (Cons c) (unquote_chars cs)
      else
        (case cs of
           [] \<Rightarrow> None
         | d # r \<Rightarrow>
             if d = CHR 0x22 \<or> d = backslash then map_option (Cons d) (unquote_chars r)
             else if d \<noteq> CHR ''x'' then None
             else
               (case r of
                  h # l # r' \<Rightarrow>
                    (case (hex_val h, hex_val l) of
                       (Some a, Some b) \<Rightarrow> map_option (Cons (char_of (16 * a + b))) (unquote_chars r')
                     | _ \<Rightarrow> None)
                | _ \<Rightarrow> None)))"

definition time_unquote :: "string \<Rightarrow> string option" where
  "time_unquote s =
     (if 2 \<le> length s \<and> hd s = CHR 0x22 \<and> last s = CHR 0x22 then unquote_chars (butlast (tl s))
      else None)"

subsection \<open>Lemmas\<close>

lemma hex_val_lowerhex: "k < 16 \<Longrightarrow> hex_val (lowerhex ! k) = Some k"
  by (auto simp: hex_val_def lowerhex_def less_Suc_eq numeral_eq_Suc)

lemma char_of_hex: "char_of (16 * (of_char c div 16) + of_char c mod (16::nat)) = c"
  by simp

lemma unquote_quote_char: "unquote_chars (quote_char c @ r) = map_option (Cons c) (unquote_chars r)"
proof -
  let ?n = "of_char c :: nat"
  have lt: "?n div 16 < 16" "?n mod 16 < 16" using nat_of_char_less_256 [of c] by (simp_all add: div_less_iff_less_mult)
  consider "128 \<le> ?n \<or> ?n < 32" | "\<not> (128 \<le> ?n \<or> ?n < 32)" "c = CHR 0x22 \<or> c = backslash"
    | "\<not> (128 \<le> ?n \<or> ?n < 32)" "\<not> (c = CHR 0x22 \<or> c = backslash)" by blast
  then show ?thesis
  proof cases
    case 1
    then show ?thesis
      using hex_val_lowerhex [OF lt(1)] hex_val_lowerhex [OF lt(2)]
      by (simp add: quote_char_def Let_def)
  qed (auto simp: quote_char_def Let_def)
qed

lemma unquote_chars_quote: "unquote_chars (concat (map quote_char s)) = Some s"
  by (induction s) (simp_all add: unquote_quote_char)

lemma parse_lines_duration_error:
  "parse_lines pd st ls = Inl (Duration_error a) \<Longrightarrow> pd a = None"
proof (induction ls arbitrary: st)
  case (Cons l ls)
  obtain key args where l: "l = (key, args)" by (cases l)
  show ?case
  proof (cases "parse_line pd st l")
    case (Inl e)
    with Cons.prems have "e = Duration_error a" by simp
    with Inl l show ?thesis
      by (auto simp: schema_check_def split: if_splits list.splits sum.splits option.splits)
  next
    case (Inr st')
    with Cons show ?thesis by simp
  qed
qed simp

lemma parse_duration_error:
  assumes "parse pd blocks = Inl (Duration_error a)"
  shows "pd a = None"
proof -
  have "parse_blocks pd st bs = Inl (Duration_error a) \<Longrightarrow> pd a = None" for st bs
    by (induction bs arbitrary: st) (auto split: sum.splits dest: parse_lines_duration_error)
  with assms show ?thesis by (auto simp: parse_def split: sum.splits if_splits)
qed

lemma time_quote_parts:
  "2 \<le> length (time_quote s) \<and> hd (time_quote s) = CHR 0x22 \<and> last (time_quote s) = CHR 0x22 \<and>
   butlast (tl (time_quote s)) = concat (map quote_char s)"
  by (simp add: time_quote_def butlast_append)

text \<open>C36: reading back the quoted text of a duration error gives the token
  that \<open>ParseDuration\<close> was called with, whatever its bytes: the message
  identifies the Corefile argument.\<close>

theorem time_quote_roundtrip: "time_unquote (time_quote s) = Some s"
  using time_quote_parts [of s] by (simp add: time_unquote_def unquote_chars_quote)

text \<open>C35: when \<open>parse\<close> stops at a \<open>reload\<close> argument that
  \<open>ParseDuration\<close> rejects, the library reports one of its errors for that
  token and \<open>setup\<close> fails with the message \<open>plugin/views: \<close> followed
  by the library's text for it.\<close>

theorem setup_duration_error_message:
  assumes "parse (parse_duration fr) blocks = Inl (Duration_error a)"
  shows "\<exists>e. parse_duration_result fr a = Inl e \<and>
             setup_run fr blocks = Setup_failed (''plugin/views: '' @ duration_error_text a e)"
proof -
  obtain e where e: "parse_duration_result fr a = Inl e"
    using parse_duration_error [OF assms] by (auto simp: parse_duration_def split: sum.splits)
  then show ?thesis
    using assms
    by (simp add: setup_run_def setup_views_def plugin_error_def plugin_name_def)
qed

text \<open>C21: the lines a refresh writes are, in this order, one
  \<open>[ERROR] plugin/views: \<close> line with the client fetch error and one
  with the record fetch error (each only if the fetch failed), then one
  \<open>[WARNING] plugin/views: invalid CIDR address: group (prefix)\<close> line per
  prefix that does not parse, group by group in document order.\<close>

theorem load_config_output_lines:
  "load_config_output env v =
     [''[ERROR] plugin/views: '' @ m.
        Some m \<leftarrow> [fst (fetch_clients env (client_schema v) (client v)),
                   fst (fetch_records env (record_schema v) (record_source v))]] @
     concat (map (\<lambda>rc. map (\<lambda>p. ''[WARNING] plugin/views: invalid CIDR address: '' @ raw_acl_name rc @
                                    '' ('' @ p @ '')'')
                           (filter (\<lambda>p. parse_cidr p = None) (cidr_prefixes rc)))
                 (snd (fetch_clients env (client_schema v) (client v))))"
  by (simp add: load_config_output_def load_config_log log_fetch_error_def map_concat comp_def
      level_error_def level_warning_def p_format_def plugin_name_def split: option.split)

end
