(* ===== verification/Spec2Isabelle.thy ===== *)
theory Spec2Isabelle
  imports Publish Fetch Logging
begin

text \<open>
  \<^bold>\<open>A model of the views plugin of simpledns.\<close>

  The plugin (src/setup.go, package \<open>views\<close>) is a CoreDNS handler that
  answers a query from the record set of the \<^emph>\<open>view\<close> of the client: an
  ordered list of client groups (named lists of CIDR prefixes) selects, by the
  first group containing the client address, a named record set. Both lists
  are documents (YAML files or HTTP JSON) re-read on a timer. The program has
  four parts, which interact as follows: \<open>setup\<close>/\<open>parse\<close> read the
  Corefile block once; \<open>loadConfig\<close> fetches the two documents and rebuilds
  the handler's ACL list and zone map in place; the \<open>reload\<close> goroutine
  calls \<open>loadConfig\<close> on every tick; \<open>ServeDNS\<close> reads the ACLs and zones
  concurrently with the refresh.

  \<^bold>\<open>Theories and correspondence.\<close>
  \<^item> \<open>Prelude\<close>: machine types (\<open>u16\<close>, \<open>u32\<close>, \<open>ipv4addr\<close> as
    32-bit words), decimal digits, \<open>strings.HasPrefix\<close>/\<open>HasSuffix\<close>
    (\<open>has_prefix\<close>, \<open>has_suffix\<close>) and \<open>last_with\<close>, the last element of
    a list with a given key, which is what a Go map keeps after a loop of
    stores; the lemmas about it carry every last-write-wins statement.
  \<^item> \<open>Cidr\<close>: the Go standard library's IPv4 text parsing as the loader
    calls it through \<open>net.ParseCIDR\<close>: \<open>dtoi\<close>, the field loop of
    \<open>parseIPv4\<close> (\<open>parse_fields\<close>, four fields, leading zeros refused),
    \<open>CIDRMask\<close> (\<open>cidr_mask\<close>); and the printer of a prefix, for the
    round trip. \<open>dtoi\<close> is also written as Go's index loop with its early
    return (\<open>dtoi_go\<close>, a \<open>while_option\<close>), proved to stop and to
    compute the structural \<open>dtoi\<close>.
  \<^item> \<open>Ipv6\<close>: the IPv6 branch: \<open>xtoi\<close>, the group loop of
    \<open>parseIPv6\<close> (\<open>ipv6_groups\<close>: 16-bit groups, one \<open>::\<close>, a final
    dotted IPv4 part) and the ellipsis expansion after it
    (\<open>ipv6_finish\<close>), and \<open>CIDRMask(n, 128)\<close> (\<open>cidr_mask6\<close>).
  \<^item> \<open>Prefix\<close>: \<open>ParseCIDR\<close> itself (\<open>parse_cidr\<close>: split at the
    first slash, IPv4 text else IPv6 text, length by \<open>dtoi\<close>, masking),
    giving a 4-byte (\<open>Net4\<close>) or 16-byte (\<open>Net6\<close>) network, and
    \<open>IPNet.Contains\<close> for an IPv4 client (\<open>net_contains\<close>, with
    \<open>To4\<close> on the network's address: \<open>v4_mapped\<close>).
  \<^item> \<open>Names\<close>: \<open>plugin.Host(s).Normalize()\<close> of CoreDNS
    (\<open>host_normalize\<close>): transport prefix stripped, \<open>SplitHostPort\<close>
    (a last \<open>:\<close> group that \<open>Atoi\<close> reads is a port and dropped; more
    than 255 bytes, or a host that \<open>dns.IsDomainName\<close> rejects
    (\<open>is_domain_name\<close>, \<open>idn_loop\<close>: a label of 64 bytes or more, an
    empty label, more than 255 wire bytes), is an error that gives the root
    name), then \<open>strings.ToLower(dns.Fqdn(..))\<close> with \<open>IsFqdn\<close>'s rule
    on escaped dots.
  \<^item> \<open>Views\<close>: the data: the raw document structs \<open>RawClientACL\<close>,
    \<open>RawRecord\<close> (setup.go lines 26-42) and the handler's types
    (\<open>ClientACL\<close>, \<open>Zone\<close>, \<open>Zones\<close>, \<open>Views\<close>) as records.
  \<^item> \<open>Setup\<close>: \<open>schemaCheck\<close> (lines 290-297) and \<open>parse\<close> (lines
    77-134) over the Corefile block given as a list of lines (directive,
    arguments); errors are values of \<open>setup_error\<close>, and the index out of
    range of \<open>c.RemainingArgs()[0]\<close>, a Go panic, is \<open>Index_out_of_range\<close>.
    \<open>parse\<close> takes the duration parser as a parameter.
  \<^item> \<open>Duration\<close>: \<open>time.ParseDuration\<close>, which \<open>parse\<close> calls on a
    \<open>reload\<close> argument (line 108): \<open>leadingInt\<close> (\<open>leading_int\<close>),
    \<open>leadingFraction\<close>, \<open>unitMap\<close> and the component loop
    (\<open>duration_loop\<close>) with Go's \<open>uint64\<close> values as 64-bit words and
    its overflow checks; \<open>parse_duration_result\<close> with the library's
    three errors (\<open>duration_error\<close>: invalid duration, missing unit, unknown
    unit) and their texts (\<open>duration_error_text\<close>, with the package's
    \<open>quote\<close> as \<open>time_quote\<close>); \<open>parse_duration\<close> keeps the duration or
    nothing. \<open>parse (parse_duration fr)\<close> is what the code runs.
  \<^item> \<open>Loader\<close>: \<open>loadConfig\<close> (lines 154-237): \<open>parse_prefixes\<close>,
    \<open>build_acl\<close>, \<open>build_acls\<close> (lines 182-200), \<open>rrtype_of\<close>,
    \<open>mk_zone\<close>, \<open>add_zone\<close>, \<open>build_zones\<close>, \<open>build_client_zones\<close>
    (lines 202-236), \<open>apply_load\<close> and \<open>load_config\<close>. The refresh reads
    its documents from an environment \<open>load_env\<close>: a function from schema and
    locator to an optional error and the decoded list (possibly partial,
    possibly empty).
  \<^item> \<open>Fetch\<close>: \<open>parseFromYAML\<close> (lines 239-251), \<open>parseFromHTTP\<close>
    (lines 253-288) and the schema switch of \<open>loadConfig\<close>, as chains of
    fallible library calls over an I/O world (\<open>io_world\<close>: file reads, URL
    parsing, request building, the server's answer and its latency, body
    reads, decoders); the HTTP client's 60-second timeout (\<open>client_do\<close>).
    \<open>world_env\<close> gives the environment of \<open>load_config\<close>.
  \<^item> \<open>Resolver\<close>: the query path \<open>resolve\<close>, from the spec (its source,
    views.go, is not in src/): first matching group, its record set,
    normalised name, type check, answer or decline.
  \<^item> \<open>Publish\<close>: the writes of \<open>loadConfig\<close> as a reader sees them
    (\<open>write_op\<close>, \<open>apply_write\<close>, \<open>load_writes\<close>, \<open>visible_states\<close>),
    the spec's atomic publication (\<open>atomic_writes\<close>), and the goroutine of
    \<open>reload\<close> (lines 136-152) with \<open>setup\<close>'s startup and shutdown hooks
    (lines 47-71) as the inductive relation \<open>reload_step\<close>.
  \<^item> \<open>Logging\<close>: the text the plugin writes and returns: the log lines of
    \<open>log.Error\<close> and \<open>log.Warningf\<close> (\<open>log_text\<close>, lines 23, 169, 179,
    189, with CoreDNS's level strings and \<open>pFormat\<close>), the lines of one
    refresh (\<open>load_config_output\<close>), and \<open>setup\<close>'s result
    (\<open>setup_run\<close>, lines 47-51): \<open>plugin.Error("views", err)\<close> with the
    message of each error of \<open>parse\<close> and \<open>schemaCheck\<close>
    (\<open>setup_error_text\<close>), or the runtime panic of an index out of range.
  \<^item> This theory: the spec's concrete scenario (section 8), run end to end.

  \<^bold>\<open>What is proved.\<close>
  \<^item> Queries after a refresh: the first group containing the client decides
    (declaration order, malformed prefixes skipped); no group means decline;
    the exact condition of an answer; a failed fetch empties the handler
    instead of keeping the old snapshot.
  \<^item> Record sets: last write wins per normalised name and per set name;
    names are case- and final-dot-insensitive; normalisation is idempotent on
    ordinary names but not on names ending in a backslash; the record type is
    read case-insensitively; record values are normalised like names, so a
    value that is not a domain name (a TXT text with a 64-byte run without a
    dot, a value with an empty label) is stored as the root name.
  \<^item> Client groups: one ACL per group, malformed prefixes dropped with a
    warning, the text of every IPv4 prefix parses back to its network, every
    loaded network (IPv4 or IPv6) is canonical, IPv4 membership is agreement on
    the first n bits, and an IPv6 prefix contains an IPv4 client only when it
    is IPv4-mapped with a length of at least 96. Accepted IPv6 text always
    fills exactly 16 bytes below 256, so the 128-bit address does not wrap.
  \<^item> Setup: a successful parse is well-formed and takes the last of each
    directive; each error path, including the panic on a missing argument.
    A single-unit duration is read exactly, with an error at \<open>2^63\<close>
    nanoseconds (\<open>-2^63\<close> allowed); zero and negative durations are
    accepted; two components of \<open>2^63\<close> nanoseconds wrap the \<open>uint64\<close>
    sum to a zero duration, and a Corefile with that \<open>reload\<close> value
    panics the reload goroutine.
  \<^item> Messages: a refresh writes exactly one \<open>[ERROR]\<close> line per failed fetch
    and one \<open>[WARNING]\<close> line per malformed prefix, in that order; a
    rejected \<open>reload\<close> argument makes \<open>setup\<close> fail with the library's
    text for that token, and the quoted token in it reads back to the
    argument whatever its bytes.
  \<^item> Fetching: an unreadable file and a server that does not answer within
    the timeout both end the fetch with an error and an empty document, so
    the refresh completes but blanks the ACLs; the HTTP status is never
    checked.
  \<^item> Concurrency: the in-place writes compute the refresh; a reader can see a
    state that declines every query; the spec's atomic store refines the
    refresh and shows only old or new; the goroutine's invariant; after
    shutdown it may still run refreshes, and it can always still return
    unless it panicked; a non-positive interval panics.

  \<^bold>\<open>Bounds and fuel.\<close> No definition needs fuel: every loop of the code is
  over a finite list (structural recursion or \<open>fold\<close>); the IPv4 field loop
  is bounded by its index (at most four fields; termination by the measure
  \<open>4 - i\<close>), the IPv6 group loop by the 16 bytes it fills (every round
  that goes on adds two; measure \<open>16 - length bs\<close>), the duration loop by
  the text it consumes (at least the unit in every round; measure
  \<open>length s\<close>); \<open>dtoi\<close> stops at \<open>big = 0xFFFFFF\<close> as Go does, and its
  Go-shaped \<open>while_option\<close> form stops by the measure "one for a pending
  result plus the unread length". Time appears only as the server latency
  compared with the 60-second timeout. The
  reload goroutine does not terminate by design; it is a relation, not a
  function. Integers keep their Go width where the code stores them: TTLs are
  32-bit and types 16-bit words, IPv4 addresses 32-bit and IPv6 addresses
  128-bit words with bitwise masks;
  the reload interval is an \<open>int\<close> of nanoseconds (a Go \<open>Duration\<close>),
  computed by \<open>ParseDuration\<close> in 64-bit words and read with \<open>sint\<close>.

  \<^bold>\<open>Not modelled.\<close> IPv6 client addresses (the query path of
  views.go is not in src/; \<open>resolve\<close> takes an IPv4 client, and
  \<open>Contains\<close> is modelled for that case only);
  the \<open>float64\<close> product by which \<open>ParseDuration\<close> converts a fraction
  (a parameter \<open>fr\<close> of \<open>parse_duration\<close>: there is no IEEE arithmetic
  in the library theories; every claim holds for every \<open>fr\<close>); the byte-level
  YAML and JSON decoders and the HTTP transport (primitives of the I/O
  world); \<open>defer resp.Body.Close()\<close> (no effect on any result); the
  timestamp and the final newline the logger adds to each line, and the
  goroutine trace after a panic message;
  the reverse-zone form of \<open>Host.Normalize\<close> (it changes only a host
  written as CIDR text); Unicode case mapping (\<open>ToLower\<close> and
  \<open>ToUpper\<close> are modelled on ASCII, which covers DNS names); the plugin
  registration and chaining (\<open>plugin.Register\<close>, \<open>AddPlugin\<close>: they
  hand the handler to CoreDNS, and what a decline does next is in views.go
  and CoreDNS; the model stops at the value \<open>Not_handled\<close>); the
  Go memory model beyond the interleaving of whole writes (a concurrent map
  read and write also aborts a Go program).
\<close>

section \<open>The spec's scenario\<close>

definition scenario_clients :: "raw_client_acl list" where
  "scenario_clients =
     [\<lparr>raw_acl_name = ''internal'', cidr_prefixes = [''10.0.0.0/8'']\<rparr>,
      \<lparr>raw_acl_name = ''external'', cidr_prefixes = [''0.0.0.0/0'']\<rparr>]"

definition scenario_records :: "raw_record list" where
  "scenario_records =
     [\<lparr>raw_set_name = ''internal'', raw_records =
        [\<lparr>raw_rr_name = ''host.example.com'', raw_ttl = 300, raw_type = ''A'', raw_value = ''10.1.2.3''\<rparr>]\<rparr>,
      \<lparr>raw_set_name = ''external'', raw_records =
        [\<lparr>raw_rr_name = ''host.example.com'', raw_ttl = 300, raw_type = ''A'', raw_value = ''203.0.113.9''\<rparr>]\<rparr>]"

definition scenario_env :: load_env where
  "scenario_env = \<lparr>fetch_clients = (\<lambda>_ _. (None, scenario_clients)),
                   fetch_records = (\<lambda>_ _. (None, scenario_records))\<rparr>"

text \<open>The same sources when the client document cannot be read.\<close>

definition scenario_failing_env :: load_env where
  "scenario_failing_env = \<lparr>fetch_clients = (\<lambda>_ _. (Some ''connection refused'', [])),
                           fetch_records = (\<lambda>_ _. (None, scenario_records))\<rparr>"

definition scenario_block :: "corefile_line list list" where
  "scenario_block = [[(''client'', [''clients.yaml'']), (''record'', [''records.yaml''])]]"

definition scenario_handler :: views where
  "scenario_handler =
     \<lparr>client = ''clients.yaml'', client_schema = SchemaYAML, record_source = ''records.yaml'',
      record_schema = SchemaYAML, reload_interval = default_reload_interval,
      client_acls = [], client_zones = Map.empty\<rparr>"

text \<open>An I/O world serving the scenario's documents from YAML files; its HTTP
  server answers after 5 seconds with an error page, and the decoders give
  what the scenario documents hold.\<close>

definition scenario_world :: io_world where
  "scenario_world =
     \<lparr>read_file = (\<lambda>f. if f = ''clients.yaml'' \<or> f = ''records.yaml'' then Inr f
                      else Inl (''open '' @ f @ '': no such file or directory'')),
      url_parse = Inr, new_request = (\<lambda>_. None), http_latency = (\<lambda>_. Some 5),
      http_answer = (\<lambda>_. Inr \<lparr>resp_status = 500, resp_body = ''internal error''\<rparr>),
      read_all = (\<lambda>r. Inr (resp_body r)),
      yaml_clients = (\<lambda>_. (None, scenario_clients)),
      json_clients = (\<lambda>b. (Some (''invalid character in '' @ b), [])),
      yaml_records = (\<lambda>_. (None, scenario_records)),
      json_records = (\<lambda>b. (Some (''invalid character in '' @ b), []))\<rparr>"

lemmas scenario_defs = scenario_clients_def scenario_records_def scenario_env_def
  scenario_failing_env_def scenario_block_def scenario_handler_def scenario_world_def

lemma scenario_parse: "parse pd scenario_block = Inr scenario_handler"
  by (simp add: parse_def parse_init_def schema_check_def has_prefix_def has_suffix_def scenario_defs)


text \<open>The refresh of the scenario, run again with unchanged documents
  while a query from 10.5.5.5 for host.example.com/A is served: the snapshot
  before and the snapshot after both answer 10.1.2.3, but the query can be
  served after the first write of \<open>loadConfig\<close> and is then declined;
  with the spec's atomic publication every state it can see answers.\<close>

theorem refresh_window_scenario:
  "resolve (fst (load_config scenario_env scenario_handler)) 0x0A050505 ''host.example.com'' type_A =
     Answer type_A 300 ''10.1.2.3.'' \<and>
   resolve (run_writes (fst (load_config scenario_env scenario_handler))
              (load_writes scenario_clients scenario_records)) 0x0A050505 ''host.example.com'' type_A =
     Answer type_A 300 ''10.1.2.3.'' \<and>
   resolve (visible_states (fst (load_config scenario_env scenario_handler))
              (load_writes scenario_clients scenario_records) ! 1) 0x0A050505 ''host.example.com'' type_A =
     Not_handled \<and>
   list_all (\<lambda>s. resolve s 0x0A050505 ''host.example.com'' type_A = Answer type_A 300 ''10.1.2.3.'')
     (visible_states (fst (load_config scenario_env scenario_handler))
        (atomic_writes scenario_clients scenario_records))"
  by (simp add: resolve_eval scenario_defs load_writes_def atomic_writes_def visible_states_def
      build_acls_eq)

section \<open>The properties at concrete inputs\<close>

text \<open>Each theorem below applies a property of the component theories to the
  scenario or to a small input where its hypotheses hold.\<close>

theorem parse_wellformed_witness:
  "schema_check (client scenario_handler) = Inr SchemaYAML \<and>
   schema_check (record_source scenario_handler) = Inr SchemaYAML \<and>
   client_zones scenario_handler = Map.empty"
  using Setup.parse_wellformed [OF scenario_parse [of "\<lambda>_. None"]] by (simp add: scenario_handler_def)

theorem parse_settings_witness:
  "client scenario_handler = ''clients.yaml'' \<and> reload_interval scenario_handler = default_reload_interval"
  using Setup.parse_settings [OF scenario_parse [of "\<lambda>_. None"]] by (simp add: scenario_block_def last_with_def)

theorem parse_empty_argument_panics_witness:
  "parse_lines (\<lambda>_. None) parse_init [(''client'', [''clients.yaml''])] = Inr
     (parse_init\<lparr>ps_client := ''clients.yaml'', ps_client_schema := Some SchemaYAML\<rparr>) \<and>
   parse (\<lambda>_. None) [[(''client'', [''clients.yaml'']), (''record'', [])]] = Inl Index_out_of_range"
proof -
  have pre: "parse_lines (\<lambda>_. None) parse_init (concat [] @ [(''client'', [''clients.yaml''])]) =
      Inr (parse_init\<lparr>ps_client := ''clients.yaml'', ps_client_schema := Some SchemaYAML\<rparr>)"
    by (simp add: schema_check_def has_prefix_def has_suffix_def)
  show ?thesis
    using pre Setup.parse_empty_argument_panics [OF pre, of "''record''" "[]" "[]"] by simp
qed

theorem parse_line_errors_witness:
  "parse (\<lambda>_. None) [[(''client'', [''clients.txt''])]] = Inl (Unknown_schema ''clients.txt'') \<and>
   parse (\<lambda>_. None) [[(''reload'', [''soon''])]] = Inl (Duration_error ''soon'') \<and>
   parse (\<lambda>_. None) [[(''upstream'', [])]] = Inl (Unknown_argument ''upstream'')"
  using Setup.parse_line_errors [of "\<lambda>_. None" "[]" "[]" _ "''client''" "''clients.txt''"]
    Setup.parse_line_errors [of "\<lambda>_. None" "[]" "[]" _ _ "''soon''"]
    Setup.parse_line_errors [of "\<lambda>_. None" "[]" "[]" _ "''upstream''"]
  by (simp_all add: has_prefix_def has_suffix_def)

theorem parse_missing_locator_witness:
  "parse (\<lambda>_. None) [[(''record'', [''records.yaml''])]] = Inl (Missing_argument ''client'') \<and>
   parse (\<lambda>_. None) [[(''client'', [''clients.yaml''])]] = Inl (Missing_argument ''record'')"
  using Setup.parse_missing_locator [of "\<lambda>_. None" "[[(''record'', [''records.yaml''])]]"]
    Setup.parse_missing_locator [of "\<lambda>_. None" "[[(''client'', [''clients.yaml''])]]"]
  by (simp add: schema_check_def has_prefix_def has_suffix_def last_with_def)

theorem setup_duration_error_message_witness:
  \<open>parse (parse_duration (\<lambda>_ _ _. 0)) [[(''client'', [''c.yaml'']), (''record'', [''r.yaml'']), (''reload'', [''1d''])]] =
     Inl (Duration_error ''1d'') \<and>
   setup_run (\<lambda>_ _ _. 0) [[(''client'', [''c.yaml'']), (''record'', [''r.yaml'']), (''reload'', [''1d''])]] =
     Setup_failed ''plugin/views: time: unknown unit "d" in duration "1d"''\<close>
proof -
  let ?b = "[[(''client'', [''c.yaml'']), (''record'', [''r.yaml'']), (''reload'', [''1d''])]]"
  have p: "parse (parse_duration (\<lambda>_ _ _. 0)) ?b = Inl (Duration_error ''1d'')"
    by (simp add: parse_def schema_check_def has_prefix_def has_suffix_def duration_eval)
  obtain e where e: "parse_duration_result (\<lambda>_ _ _. 0) ''1d'' = Inl e"
    and m: "setup_run (\<lambda>_ _ _. 0) ?b = Setup_failed (''plugin/views: '' @ duration_error_text ''1d'' e)"
    using Logging.setup_duration_error_message [OF p] by blast
  have "e = Unknown_unit ''d''" using e by (simp add: duration_eval)
  with p m show ?thesis by (simp add: time_quote_def quote_char_def)
qed

text \<open>The message of each error path of \<open>setup\<close>, with the
  library's three duration errors and a control byte escaped by \<open>quote\<close>.\<close>

lemma setup_run_messages:
  \<open>setup_run fr [[(''client'', [''clients.txt''])]] = Setup_failed ''plugin/views: unknown schema: clients.txt'' \<and>
   setup_run fr [[(''client'', [''c.yaml''])]] = Setup_failed (''plugin/views: required argument is missing: '' @ [CHR 0x27] @ ''record'' @ [CHR 0x27]) \<and>
   setup_run fr [[(''upstream'', [])]] = Setup_failed ''plugin/views: unknown argument: upstream'' \<and>
   setup_run fr [[(''reload'', [''30''])]] = Setup_failed ''plugin/views: time: missing unit in duration "30"'' \<and>
   setup_run fr [[(''reload'', [''1e3s''])]] = Setup_failed ''plugin/views: time: unknown unit "e" in duration "1e3s"'' \<and>
   setup_run fr [[(''reload'', [''9223372036854775808ns''])]] =
     Setup_failed ''plugin/views: time: invalid duration "9223372036854775808ns"'' \<and>
   setup_run fr [[(''reload'', [[CHR 0x09, CHR ''1'', CHR ''s'']])]] = Setup_failed (''plugin/views: time: invalid duration "'' @ [backslash] @ ''x091s"'') \<and>
   setup_run fr [[(''client'', [])]] = Setup_panic ''panic: runtime error: index out of range [0] with length 0''\<close>
  by (simp_all add: setup_run_def setup_views_def parse_def parse_init_def schema_check_def has_prefix_def has_suffix_def duration_eval
      plugin_error_def plugin_name_def time_quote_def quote_char_def lowerhex_def)
theorem build_zones_last_write_wins_witness:
  "zone_map (build_zones
      [\<lparr>raw_rr_name = ''host.example.com'', raw_ttl = 300, raw_type = ''A'', raw_value = ''10.1.2.3''\<rparr>,
       \<lparr>raw_rr_name = ''Host.Example.Com.'', raw_ttl = 60, raw_type = ''AAAA'', raw_value = ''2001:db8::1''\<rparr>])
     ''host.example.com.'' =
   Some (mk_zone \<lparr>raw_rr_name = ''Host.Example.Com.'', raw_ttl = 60, raw_type = ''AAAA'', raw_value = ''2001:db8::1''\<rparr>)"
  using Loader.build_zones_last_write_wins [of
      "\<lparr>raw_rr_name = ''host.example.com'', raw_ttl = 300, raw_type = ''A'', raw_value = ''10.1.2.3''\<rparr>"
      "''host.example.com.''"
      "\<lparr>raw_rr_name = ''Host.Example.Com.'', raw_ttl = 60, raw_type = ''AAAA'', raw_value = ''2001:db8::1''\<rparr>"
      "[]" "[]" "[]"]
  by (simp add: names_eval)

theorem build_client_zones_later_set_replaces_witness:
  "build_client_zones (scenario_records @ [\<lparr>raw_set_name = ''internal'', raw_records = []\<rparr>]) ''internal'' =
   Some (build_zones [])"
  using Loader.build_client_zones_later_set_replaces [of "scenario_records ! 0" "''internal''"
      "\<lparr>raw_set_name = ''internal'', raw_records = []\<rparr>" "[]" "[]" "[scenario_records ! 1]"]
  by (simp add: scenario_records_def)

theorem build_acl_skips_malformed_witness:
  "cidr_nets (fst (build_acl \<lparr>raw_acl_name = ''internal'', cidr_prefixes = [''10.0.0.0/33'', ''10.0.0.0/8'']\<rparr>)) =
     cidr_nets (fst (build_acl \<lparr>raw_acl_name = ''internal'', cidr_prefixes = [''10.0.0.0/8'']\<rparr>)) \<and>
   snd (build_acl \<lparr>raw_acl_name = ''internal'', cidr_prefixes = [''10.0.0.0/33'', ''10.0.0.0/8'']\<rparr>) =
     snd (build_acl \<lparr>raw_acl_name = ''internal'', cidr_prefixes = []\<rparr>) @ [Log_warning ''internal'' ''10.0.0.0/33''] @
     snd (build_acl \<lparr>raw_acl_name = ''internal'', cidr_prefixes = [''10.0.0.0/8'']\<rparr>)"
  using Loader.build_acl_skips_malformed [of "''10.0.0.0/33''" "''internal''" "[]" "[''10.0.0.0/8'']"]
  by (simp add: cidr_eval)

theorem parse_prefixes_roundtrip_witness:
  "parse_prefixes ''internal'' [cidr_string 0x0A010203 8, cidr_string 0xC0A80101 24] =
     ([Net4 \<lparr>net_ip = 0x0A010203 AND cidr_mask 8, net_mask = cidr_mask 8\<rparr>,
       Net4 \<lparr>net_ip = 0xC0A80101 AND cidr_mask 24, net_mask = cidr_mask 24\<rparr>], [])"
  using Loader.parse_prefixes_roundtrip [of "[(0x0A010203, 8), (0xC0A80101, 24)]" "''internal''"]
  by simp

theorem loaded_nets_canonical_witness:
  "(0x0A000000 :: ipv4addr) AND 0xFF000000 = 0x0A000000 \<and> (\<exists>n \<le> 32. cidr_mask n = 0xFF000000)"
proof -
  let ?v = "fst (apply_load scenario_handler (None, scenario_clients) (None, scenario_records))"
  have acl: "\<lparr>acl_name = ''internal'', cidr_nets = [Net4 \<lparr>net_ip = 0x0A000000, net_mask = 0xFF000000\<rparr>]\<rparr>
      \<in> set (client_acls ?v)"
    by (simp add: resolve_eval scenario_defs)
  show ?thesis
    using Loader.loaded_nets_canonical [OF acl, of "Net4 \<lparr>net_ip = 0x0A000000, net_mask = 0xFF000000\<rparr>"]
    by simp
qed

theorem net_contains_prefix_witness:
  "net_contains (Net6 \<lparr>net6_ip = 0xFFFF0A010203 AND cidr_mask6 104, net6_mask = cidr_mask6 104\<rparr>)
     0x0A090909"
  using Prefix.net_contains_prefix [of 0 0 "0x0A090909" 104 "0xFFFF0A010203"]
  by (simp add: v4_mapped_def)

theorem parse_ipv6_word_witness:
  "length ((32::nat) # 1 # 13 # 184 # replicate 12 0) = 16 \<and>
   unat (word_of_bytes ((32::nat) # 1 # 13 # 184 # replicate 12 0)) = 0x20010DB8000000000000000000000000"
proof -
  have p: "parse_ipv6 ''2001:db8::'' = Some (32 # 1 # 13 # 184 # replicate 12 0)"
    by (simp add: ipv6_eval ipv4_eval)
  show ?thesis using Ipv6.parse_ipv6_word [OF p] by (simp add: replicate_numeral)
qed


theorem load_first_group_witness:
  "match_acl (client_acls (fst (apply_load scenario_handler (None, scenario_clients) (None, scenario_records))))
     0xC6336401 = Some ''external''"
proof -
  have l: "1 < length scenario_clients" by (simp add: scenario_clients_def)
  have c: "raw_group_contains (scenario_clients ! 1) 0xC6336401"
    and n: "\<forall>j < 1. \<not> raw_group_contains (scenario_clients ! j) 0xC6336401"
    by (simp_all add: raw_group_contains_def scenario_clients_def cidr_eval)
  from Resolver.load_first_group [OF l c n] show ?thesis
    by (simp add: scenario_clients_def)
qed

theorem load_no_group_declines_witness:
  "resolve (fst (apply_load scenario_handler (None, [hd scenario_clients]) (None, scenario_records)))
     0xC6336401 ''host.example.com'' type_A = Not_handled"
proof -
  have "\<forall>rc \<in> set [hd scenario_clients]. \<not> raw_group_contains rc 0xC6336401"
    by (simp add: raw_group_contains_def scenario_clients_def cidr_eval)
  then show ?thesis using Resolver.load_no_group_declines by blast
qed

theorem load_failed_refresh_declines_witness:
  "resolve (fst (load_config scenario_env scenario_handler)) 0x0A050505 ''host.example.com'' type_A \<noteq> Not_handled \<and>
   resolve (fst (load_config scenario_failing_env (fst (load_config scenario_env scenario_handler))))
     0x0A050505 ''host.example.com'' type_A = Not_handled"
proof -
  let ?v = "fst (load_config scenario_env scenario_handler)"
  have "fst (fetch_clients scenario_failing_env (client_schema ?v) (client ?v)) \<noteq> None \<and>
        snd (fetch_clients scenario_failing_env (client_schema ?v) (client ?v)) = []"
    by (simp add: scenario_failing_env_def)
  from Resolver.load_failed_refresh_declines [OF this] show ?thesis
    by (simp add: resolve_eval scenario_defs)
qed

theorem reload_reachable_inv_witness:
  "reload_inv scenario_handler
     ((reload_init scenario_handler)\<lparr>rl_started := True,
        rl_views := fst (load_config scenario_env (rl_views (reload_init scenario_handler)))\<rparr>)"
proof -
  have "reload_reachable scenario_handler
     ((reload_init scenario_handler)\<lparr>rl_started := True,
        rl_views := fst (load_config scenario_env (rl_views (reload_init scenario_handler)))\<rparr>)"
    by (rule reload_reachable.step [OF reload_reachable.init reload_step.startup])
      (simp add: reload_init_def)
  then show ?thesis by (rule Publish.reload_reachable_inv)
qed

theorem reload_after_shutdown_witness:
  "\<exists>s'. reload_step\<^sup>*\<^sup>* ((reload_init scenario_handler)\<lparr>rl_started := True, rl_views := scenario_handler,
                                 rl_closed := True\<rparr>) s' \<and> rl_closed s' \<and> rl_loads s' = 3"
proof -
  let ?s0 = "reload_init scenario_handler"
  let ?s1 = "?s0\<lparr>rl_started := True, rl_views := scenario_handler\<rparr>"
  let ?s2 = "?s1\<lparr>rl_closed := True\<rparr>"
  have r1: "reload_reachable scenario_handler ?s1"
  proof (rule reload_reachable.step [OF reload_reachable.init])
    show "reload_step ?s0 ?s1"
      using reload_step.startup [of ?s0 "\<lparr>fetch_clients = (\<lambda>_ _. (None, [])), fetch_records = (\<lambda>_ _. (None, []))\<rparr>"]
      by (simp add: reload_init_def load_config_def apply_load_def build_client_zones_def scenario_handler_def)
  qed
  have r2: "reload_reachable scenario_handler ?s2"
    by (rule reload_reachable.step [OF r1 reload_step.shutdown]) (simp add: reload_init_def)
  have run: "rl_phase ?s2 = Running"
    by (simp add: reload_init_def scenario_handler_def default_reload_interval_def)
  from Publish.reload_after_shutdown [OF r2 _ _ run] show ?thesis
    by (simp add: reload_init_def) (metis (full_types))
qed

theorem nonpositive_reload_never_reloads_witness:
  "\<exists>v. setup_views (parse_duration (\<lambda>_ _ _. 0))
         [[(''client'', [''clients.yaml'']), (''record'', [''records.yaml'']),
           (''reload'', [''9223372036854775808ns9223372036854775808ns''])]] =
         Inr (reload_init v) \<and> rl_phase (reload_init v) = Panicked"
proof -
  have d: "parse_duration (\<lambda>_ _ _. 0) ''9223372036854775808ns9223372036854775808ns'' = Some 0"
    by (simp add: duration_eval)
  show ?thesis
    using Publish.nonpositive_reload_never_reloads [of "''clients.yaml''" SchemaYAML "''records.yaml''" SchemaYAML
        "parse_duration (\<lambda>_ _ _. 0)" "''9223372036854775808ns9223372036854775808ns''" 0] d
    by (auto simp: schema_check_def has_prefix_def has_suffix_def)
qed

theorem parse_duration_integer_witness:
  "parse_duration (\<lambda>_ _ _. 0) ''30s'' = Some 30000000000 \<and>
   parse_duration (\<lambda>_ _ _. 0) ''-30s'' = Some (- 30000000000)"
proof -
  have u: "map_of unit_map ''s'' = Some 1000000000" by (simp add: unit_map_def)
  have s: "dec_string 30 = ''30''" by (simp add: dec_string.simps char_of_eq_iff)
  show ?thesis using Duration.parse_duration_integer [OF u, of "\<lambda>_ _ _. 0" 30] by (simp add: s)
qed

theorem parse_duration_refines_witness:
  "parse_duration (\<lambda>_ _ _. 0) ''1h30m'' = Some 5400000000000 \<and>
   parse_duration (\<lambda>_ _ _. 0) ''-1h30m'' = Some (- 5400000000000)"
proof -
  have t: "duration_text [(1, ''h''), (30, ''m'')] = ''1h30m''"
    by (simp add: duration_text_def dec_string.simps char_of_eq_iff)
  have v: "duration_value [(1, ''h''), (30, ''m'')] = 5400000000000"
    by (simp add: duration_value_def unit_map_def)
  have ne: "[(1::nat, ''h''), (30, ''m'')] \<noteq> []" by simp
  have u: "\<forall>(n, u) \<in> set [(1::nat, ''h''), (30, ''m'')]. u \<in> dom (map_of unit_map)"
    by (simp add: unit_map_def)
  have b: "duration_value [(1, ''h''), (30, ''m'')] \<le> 2 ^ 63" unfolding v by simp
  show ?thesis
    using Duration.parse_duration_refines [OF ne u b, of "\<lambda>_ _ _. 0"] unfolding t v by simp
qed

theorem load_unknown_type_hides_witness:
  "resolve (fst (apply_load scenario_handler (None, scenario_clients)
     (None, [\<lparr>raw_set_name = ''internal'', raw_records =
        [\<lparr>raw_rr_name = ''host.example.com'', raw_ttl = 300, raw_type = ''A'', raw_value = ''10.1.2.3''\<rparr>,
         \<lparr>raw_rr_name = ''HOST.example.com.'', raw_ttl = 300, raw_type = ''MX'', raw_value = ''mail''\<rparr>]\<rparr>])))
     0x0A050505 ''host.example.com'' type_A = Not_handled"
proof -
  let ?rr1 = "\<lparr>raw_rr_name = ''host.example.com'', raw_ttl = 300, raw_type = ''A'', raw_value = ''10.1.2.3''\<rparr>"
  let ?rr2 = "\<lparr>raw_rr_name = ''HOST.example.com.'', raw_ttl = 300, raw_type = ''MX'', raw_value = ''mail''\<rparr>"
  let ?r = "\<lparr>raw_set_name = ''internal'', raw_records = [?rr1, ?rr2]\<rparr>"
  have "resolve (fst (apply_load scenario_handler (None, scenario_clients) (None, [?r])))
      0x0A050505 ''host.example.com'' type_A = Not_handled"
  proof (rule Resolver.load_unknown_type_hides)
    show "find (\<lambda>rc. raw_group_contains rc 0x0A050505) (snd (None :: string option, scenario_clients)) =
        Some (hd scenario_clients)"
      by (simp add: raw_group_contains_def scenario_clients_def cidr_eval)
    show "last_with raw_set_name (raw_acl_name (hd scenario_clients)) (snd (None :: string option, [?r])) = Some ?r"
      by (simp add: scenario_clients_def last_with_def)
    show "raw_records ?r = [?rr1] @ ?rr2 # []" by simp
    show "host_normalize (raw_rr_name ?rr2) = host_normalize ''host.example.com''"
      by (simp add: names_eval)
    show "\<forall>z \<in> set []. host_normalize (raw_rr_name z) \<noteq> host_normalize ''host.example.com''"
      by simp
    show "rrtype_of (raw_type ?rr2) = type_None"
      by (simp add: rrtype_of_def to_upper_def ascii_upper_def rr_type_codes Let_def)
  qed
  then show ?thesis by simp
qed


theorem host_normalize_too_long_witness:
  "host_normalize (replicate 256 (CHR ''a'')) = [dot]"
  using Names.host_normalize_too_long [of "replicate 256 (CHR ''a'')"] by simp

theorem http_status_ignored_witness:
  "parse_from_http (json_clients scenario_world) scenario_world ''http://config.local/clients'' =
     (Some ''invalid character in internal error'', [])"
  using Fetch.http_status_ignored [of scenario_world "''http://config.local/clients''"
      "''http://config.local/clients''" 5 "\<lparr>resp_status = 500, resp_body = ''internal error''\<rparr>"
      "''internal error''" "json_clients scenario_world"]
  by (simp add: scenario_world_def)

theorem stalled_server_blanks_acls_witness:
  "client_acls (fst (load_config (world_env (scenario_world\<lparr>http_latency := (\<lambda>_. None)\<rparr>))
      (scenario_handler\<lparr>client := ''http://config.local/clients'', client_schema := SchemaHTTP\<rparr>))) = []"
  using Fetch.stalled_server_blanks_acls [of "scenario_handler\<lparr>client := ''http://config.local/clients'',
      client_schema := SchemaHTTP\<rparr>" "scenario_world\<lparr>http_latency := (\<lambda>_. None)\<rparr>"
      "''http://config.local/clients''"]
  by (simp add: scenario_world_def)

theorem unreadable_file_blanks_acls_witness:
  "resolve (fst (load_config scenario_env scenario_handler)) 0x0A050505 ''host.example.com'' type_A \<noteq> Not_handled \<and>
   client_acls (fst (load_config (world_env scenario_world) (scenario_handler\<lparr>client := ''missing.yaml''\<rparr>))) = []"
proof -
  have "client_acls (fst (load_config (world_env scenario_world) (scenario_handler\<lparr>client := ''missing.yaml''\<rparr>))) = []"
    using Fetch.unreadable_file_blanks_acls [of "scenario_handler\<lparr>client := ''missing.yaml''\<rparr>" scenario_world
        "''open missing.yaml: no such file or directory''"]
    by (simp add: scenario_world_def scenario_handler_def)
  moreover have "resolve (fst (load_config scenario_env scenario_handler)) 0x0A050505 ''host.example.com'' type_A
      \<noteq> Not_handled"
    by (simp add: resolve_eval scenario_defs)
  ultimately show ?thesis by blast
qed

theorem reload_can_exit_witness:
  "\<exists>s'. reload_step\<^sup>*\<^sup>* (reload_init scenario_handler) s' \<and> rl_phase s' = Exited \<and> rl_loads s' = 0"
proof -
  have np: "rl_phase (reload_init scenario_handler) \<noteq> Panicked"
    by (simp add: reload_init_def scenario_handler_def default_reload_interval_def)
  have l: "rl_loads (reload_init scenario_handler) = 0" by (simp add: reload_init_def)
  from Publish.reload_can_exit [OF reload_reachable.init [of scenario_handler]] np l show ?thesis
    by auto
qed

end
